(* ===== verification/Prelude.thy ===== *)
theory Prelude
  imports Main
begin

text \<open>
  Shared vocabulary of the development: the type of Unicode strings the program handles, ASCII
  literals, results of fallible calls, and the generic list lemmas the component theories use.

  A Rust \<open>char\<close> is a Unicode scalar value; it is modelled by its code point (an \<open>int\<close>), and a
  \<open>String\<close> or \<open>&str\<close> by the list of its code points. ASCII literals of the source are written
  \<open>lit ''text''\<close>; the other literals are written as their code points.
\<close>

type_synonym uchar = int
type_synonym ustr = "uchar list"
type_synonym ('e, 'a) result = "'e + 'a"

definition lit :: "string \<Rightarrow> ustr" where
  "lit s = map of_char s"

named_theorems str_simps \<open>evaluation of string operations on concatenations\<close>
named_theorems line_intros \<open>closure rules for lines that survive the line reader unchanged\<close>

lemma lit_eq_iff [simp]: "lit a = lit b \<longleftrightarrow> a = b"
  unfolding lit_def by (rule inj_map_eq_map) (auto simp: inj_def)

lemma lit_Nil [simp]: "lit [] = []"
  by (simp add: lit_def)

lemma lit_Cons: "lit (c # cs) = of_char c # lit cs"
  by (simp add: lit_def)

lemma lit_eq_Nil [simp]: "lit s = [] \<longleftrightarrow> s = []" "[] = lit s \<longleftrightarrow> s = []"
  by (auto simp: lit_def)

lemma length_lit [simp]: "length (lit s) = length s"
  by (simp add: lit_def)

lemma lit_append: "lit (a @ b) = lit a @ lit b"
  by (simp add: lit_def)

section \<open>Joining with a separator\<close>

fun join :: "'a list \<Rightarrow> 'a list list \<Rightarrow> 'a list" where
  "join sep [] = []"
| "join sep [x] = x"
| "join sep (x # y # xs) = x @ sep @ join sep (y # xs)"

lemma join_Cons: "join sep (x # xs) = (if xs = [] then x else x @ sep @ join sep xs)"
  by (cases xs) auto

lemma join_append:
  "xs \<noteq> [] \<Longrightarrow> ys \<noteq> [] \<Longrightarrow> join sep (xs @ ys) = join sep xs @ sep @ join sep ys"
  by (induction xs rule: induct_list012) (auto simp: join_Cons)

lemma join_snoc_Nil: "xs \<noteq> [] \<Longrightarrow> join sep (xs @ [[]]) = join sep xs @ sep"
  by (simp add: join_append)

lemma set_join: "set (join sep xs) \<subseteq> set sep \<union> (\<Union>x \<in> set xs. set x)"
  by (induction xs rule: induct_list012) auto

section \<open>Lists\<close>

lemma dropWhile_idem [simp]: "dropWhile P (dropWhile P xs) = dropWhile P xs"
  by (induction xs) auto

lemma dropWhile_eq_self: "xs = [] \<or> \<not> P (hd xs) \<Longrightarrow> dropWhile P xs = xs"
  by (cases xs) auto

lemma dropWhile_eq_self_iff: "dropWhile P xs = xs \<longleftrightarrow> xs = [] \<or> \<not> P (hd xs)"
proof (cases xs)
  case (Cons a as)
  have "length (dropWhile P as) \<le> length as" by (rule length_dropWhile_le)
  then show ?thesis using Cons by (auto dest: arg_cong [where f = length])
qed simp

lemma takeWhile_all: "(\<And>x. x \<in> set xs \<Longrightarrow> P x) \<Longrightarrow> takeWhile P xs = xs"
  by (simp add: takeWhile_eq_all_conv)

lemma dropWhile_all: "(\<And>x. x \<in> set xs \<Longrightarrow> P x) \<Longrightarrow> dropWhile P xs = []"
  by simp

lemma takeWhile_append_stop:
  "(\<And>x. x \<in> set xs \<Longrightarrow> P x) \<Longrightarrow> \<not> P y \<Longrightarrow> takeWhile P (xs @ y # ys) = xs"
  by (induction xs) auto

lemma dropWhile_append_stop:
  "(\<And>x. x \<in> set xs \<Longrightarrow> P x) \<Longrightarrow> \<not> P y \<Longrightarrow> dropWhile P (xs @ y # ys) = y # ys"
  by (induction xs) auto

lemma set_dropWhile_sub: "set (dropWhile P xs) \<subseteq> set xs"
  by (auto dest: set_dropWhileD)

lemma hd_dropWhile_not: "dropWhile P xs \<noteq> [] \<Longrightarrow> \<not> P (hd (dropWhile P xs))"
  by (rule hd_dropWhile)

section \<open>Results\<close>

definition bind_result :: "('e, 'a) result \<Rightarrow> ('a \<Rightarrow> ('e, 'b) result) \<Rightarrow> ('e, 'b) result" where
  "bind_result r f = (case r of Inl e \<Rightarrow> Inl e | Inr x \<Rightarrow> f x)"

lemma bind_result_simps [simp]:
  "bind_result (Inl e) f = Inl e" "bind_result (Inr x) f = f x"
  by (simp_all add: bind_result_def)

definition map_err :: "('e \<Rightarrow> 'd) \<Rightarrow> ('e, 'a) result \<Rightarrow> ('d, 'a) result" where
  "map_err g r = (case r of Inl e \<Rightarrow> Inl (g e) | Inr x \<Rightarrow> Inr x)"

lemma map_err_simps [simp]: "map_err g (Inl e) = Inl (g e)" "map_err g (Inr x) = Inr x"
  by (simp_all add: map_err_def)

section \<open>Idempotent normalisers\<close>

text \<open>
  Several operations of the program rewrite a text into a normal form (trimming, de-duplicating a
  list, installing the managed block). What a client relies on is that a second run changes
  nothing.
\<close>

locale normaliser =
  fixes norm :: "'a \<Rightarrow> 'a"
  assumes norm_idem: "norm (norm x) = norm x"
begin

lemma norm_fixed_iff: "norm x = x \<longleftrightarrow> x \<in> range norm"
  using norm_idem by (metis rangeE rangeI)

lemma norm_iterate: "(norm ^^ Suc n) x = norm x"
  by (induction n) (simp_all add: norm_idem)

lemma norm_write_once: "norm x \<noteq> x \<Longrightarrow> norm (norm x) = norm x \<and> norm x \<in> range norm"
  by (simp add: norm_idem)

end

section \<open>Machines\<close>

text \<open>
  A component that takes one event after the other: what each step keeps, a run keeps; and a
  machine whose steps are those of a simpler one under an abstraction runs as it does.
\<close>

locale machine =
  fixes step :: "'e \<Rightarrow> 's \<Rightarrow> 's" and ok :: "'s \<Rightarrow> bool"
  assumes step_ok: "ok s \<Longrightarrow> ok (step e s)"
begin

lemma run_ok: "ok s \<Longrightarrow> ok (fold step es s)"
  by (induction es arbitrary: s) (simp_all add: step_ok)

end

locale simulation = machine step ok
  for step :: "'e \<Rightarrow> 's \<Rightarrow> 's" and ok :: "'s \<Rightarrow> bool" +
  fixes abs :: "'s \<Rightarrow> 'a" and abs_step :: "'e \<Rightarrow> 'a \<Rightarrow> 'a"
  assumes step_abs: "ok s \<Longrightarrow> abs (step e s) = abs_step e (abs s)"
begin

lemma run_abs: "ok s \<Longrightarrow> abs (fold step es s) = fold abs_step es (abs s)"
  by (induction es arbitrary: s) (simp_all add: step_abs step_ok)

end

end
