(* ===== verification/Rust_Str.thy ===== *)
theory Rust_Str
  imports Prelude
begin

text \<open>
  The part of Rust's \<open>str\<close> that the program uses, on lists of code points: white space and
  trimming, \<open>lines\<close>, \<open>split_whitespace\<close>, \<open>splitn(2, char::is_whitespace)\<close>, \<open>split\<close> on a character,
  prefix, suffix and substring search, ASCII case folding, decimal and hexadecimal numerals. The
  functions have the documented behaviour of the standard library; the lemmas are the laws the
  component theories rely on. Full Unicode lower-casing (\<open>to_lowercase\<close>) is a parameter of the
  definitions that use it.
\<close>

section \<open>White space and trimming\<close>

definition is_whitespace :: "uchar \<Rightarrow> bool" where
  "is_whitespace c \<longleftrightarrow>
     (9 \<le> c \<and> c \<le> 13) \<or> c = 32 \<or> c = 0x85 \<or> c = 0xA0 \<or> c = 0x1680 \<or>
     (0x2000 \<le> c \<and> c \<le> 0x200A) \<or> c = 0x2028 \<or> c = 0x2029 \<or> c = 0x202F \<or>
     c = 0x205F \<or> c = 0x3000"

abbreviation non_ws :: "uchar \<Rightarrow> bool" where
  "non_ws c \<equiv> \<not> is_whitespace c"

definition trim_start :: "ustr \<Rightarrow> ustr" where
  "trim_start s = dropWhile is_whitespace s"

definition trim_end :: "ustr \<Rightarrow> ustr" where
  "trim_end s = rev (dropWhile is_whitespace (rev s))"

definition trim :: "ustr \<Rightarrow> ustr" where
  "trim s = trim_start (trim_end s)"

definition trimmed :: "ustr \<Rightarrow> bool" where
  "trimmed s \<longleftrightarrow> s = [] \<or> (non_ws (hd s) \<and> non_ws (last s))"

lemma is_whitespace_simps [simp]:
  "is_whitespace 10" "is_whitespace 13" "is_whitespace 32" "is_whitespace 9"
  "\<not> is_whitespace 35" "\<not> is_whitespace 92" "\<not> is_whitespace 47" "\<not> is_whitespace 45"
  by (simp_all add: is_whitespace_def)

lemma trim_Nil [simp]: "trim [] = []" "trim_end [] = []" "trim_start [] = []"
  by (simp_all add: trim_def trim_end_def trim_start_def)

lemma trim_start_suffix: "\<exists>p. s = p @ trim_start s \<and> (\<forall>c \<in> set p. is_whitespace c)"
  unfolding trim_start_def
  by (rule exI [of _ "takeWhile is_whitespace s"]) (auto dest: set_takeWhileD)

lemma trim_end_prefix: "\<exists>p. s = trim_end s @ p \<and> (\<forall>c \<in> set p. is_whitespace c)"
proof -
  obtain p where "rev s = p @ dropWhile is_whitespace (rev s)" "\<forall>c \<in> set p. is_whitespace c"
    using trim_start_suffix [of "rev s"] by (auto simp: trim_start_def)
  then have "s = trim_end s @ rev p"
    unfolding trim_end_def by (metis rev_append rev_rev_ident)
  then show ?thesis using \<open>\<forall>c \<in> set p. is_whitespace c\<close> by (metis set_rev)
qed

lemma trim_end_last: "trim_end s \<noteq> [] \<Longrightarrow> non_ws (last (trim_end s))"
  unfolding trim_end_def by (metis hd_dropWhile last_rev rev.simps(1) rev_rev_ident)

lemma trim_start_hd: "trim_start s \<noteq> [] \<Longrightarrow> non_ws (hd (trim_start s))"
  unfolding trim_start_def by (rule hd_dropWhile)

lemma trim_start_last: "trim_start s \<noteq> [] \<Longrightarrow> last (trim_start s) = last s"
  using trim_start_suffix [of s] by (metis last_appendR)

lemma trimmed_trim [simp]: "trimmed (trim s)"
proof (cases "trim s = []")
  case False
  then have ne: "trim_start (trim_end s) \<noteq> []" by (simp add: trim_def)
  then have "trim_end s \<noteq> []" by auto
  then show ?thesis
    using trim_start_hd [OF ne] trim_start_last [OF ne] trim_end_last
    by (simp add: trimmed_def trim_def)
qed (simp add: trimmed_def)

lemma trimmed_Nil [simp]: "trimmed []"
  by (simp add: trimmed_def)

lemma trim_end_id: "s = [] \<or> non_ws (last s) \<Longrightarrow> trim_end s = s"
  unfolding trim_end_def by (metis dropWhile_eq_self hd_rev rev_is_Nil_conv rev_rev_ident)

lemma trim_start_id: "s = [] \<or> non_ws (hd s) \<Longrightarrow> trim_start s = s"
  unfolding trim_start_def by (rule dropWhile_eq_self)

lemma trimmed_trim_id: "trimmed s \<Longrightarrow> trim s = s"
  by (auto simp: trimmed_def trim_def trim_end_id trim_start_id)

lemma trimmed_trim_end_id: "trimmed s \<Longrightarrow> trim_end s = s"
  by (auto simp: trimmed_def trim_end_id)

lemma trim_eq_self_iff: "trim s = s \<longleftrightarrow> trimmed s"
  by (metis trimmed_trim trimmed_trim_id)

lemma trim_idem [simp]: "trim (trim s) = trim s"
  by (simp add: trimmed_trim_id)

lemma trim_end_idem [simp]: "trim_end (trim_end s) = trim_end s"
  using trim_end_id trim_end_last by blast

interpretation trim_nf: normaliser trim
  by unfold_locales simp

interpretation trim_end_nf: normaliser trim_end
  by unfold_locales simp

lemma trim_trim_end [simp]: "trim (trim_end s) = trim s"
  by (simp add: trim_def)

lemma trim_end_eq_Nil_iff: "trim_end s = [] \<longleftrightarrow> (\<forall>c \<in> set s. is_whitespace c)"
  by (auto simp: trim_end_def)

lemma trim_eq_Nil_iff: "trim s = [] \<longleftrightarrow> (\<forall>c \<in> set s. is_whitespace c)"
proof
  assume "trim s = []"
  then have "\<forall>c \<in> set (trim_end s). is_whitespace c"
    by (simp add: trim_def trim_start_def)
  then show "\<forall>c \<in> set s. is_whitespace c"
    using trim_end_last [of s] trim_end_eq_Nil_iff [of s] last_in_set by blast
next
  assume "\<forall>c \<in> set s. is_whitespace c"
  then show "trim s = []"
    by (simp add: trim_def trim_end_eq_Nil_iff [THEN iffD2])
qed

lemma set_trim: "set (trim s) \<subseteq> set s"
  using set_dropWhile_sub by (fastforce simp: trim_def trim_start_def trim_end_def dest: set_dropWhileD)

lemma set_trim_end: "set (trim_end s) \<subseteq> set s"
  by (auto simp: trim_end_def dest: set_dropWhileD)

lemma trim_ne_trimmed: "trimmed s \<Longrightarrow> s \<noteq> [] \<Longrightarrow> trim s \<noteq> []"
  by (simp add: trimmed_trim_id)

lemma trimmed_Cons: "trimmed (c # s) \<longleftrightarrow> non_ws c \<and> (s = [] \<or> non_ws (last s))"
  by (auto simp: trimmed_def)

lemma trimmed_append:
  "a \<noteq> [] \<Longrightarrow> b \<noteq> [] \<Longrightarrow> non_ws (hd a) \<Longrightarrow> non_ws (last b) \<Longrightarrow> trimmed (a @ b)"
  by (simp add: trimmed_def)

lemma trimmedD: "trimmed s \<Longrightarrow> s \<noteq> [] \<Longrightarrow> non_ws (hd s)"
    "trimmed s \<Longrightarrow> s \<noteq> [] \<Longrightarrow> non_ws (last s)"
  by (auto simp: trimmed_def)

lemma hd_trim_end: "trim_end s \<noteq> [] \<Longrightarrow> hd (trim_end s) = hd s"
  using trim_end_prefix [of s] by (metis hd_append2)

lemma trim_Cons_ws [str_simps]: "is_whitespace c \<Longrightarrow> trim (c # s) = trim s"
proof (cases "\<forall>d \<in> set s. is_whitespace d")
  case True
  assume "is_whitespace c"
  with True have "trim (c # s) = []" "trim s = []" by (simp_all add: trim_eq_Nil_iff)
  then show ?thesis by simp
next
  case False
  assume "is_whitespace c"
  with False show ?thesis
    by (auto simp: trim_def trim_start_def trim_end_def dropWhile_append)
qed

lemma trim_snoc_ws [str_simps]: "is_whitespace c \<Longrightarrow> trim (s @ [c]) = trim s"
  by (simp add: trim_def trim_end_def)

section \<open>Words\<close>

text \<open>\<open>splitn(2, char::is_whitespace)\<close> on a line: the text before the first white space, and, if
  there is one, the text after it. The program trims both parts (a missing second part is empty).\<close>

definition split_first_ws :: "ustr \<Rightarrow> ustr \<times> ustr option" where
  "split_first_ws s =
     (takeWhile non_ws s,
      (case dropWhile non_ws s of [] \<Rightarrow> None | _ # r \<Rightarrow> Some r))"

function split_whitespace :: "ustr \<Rightarrow> ustr list" where
  "split_whitespace [] = []"
| "split_whitespace (c # s) =
     (if is_whitespace c then split_whitespace s
      else takeWhile non_ws (c # s) # split_whitespace (dropWhile non_ws s))"
  by pat_completeness auto

termination
  by (relation "measure length") (auto simp: less_Suc_eq_le length_dropWhile_le)

declare split_whitespace.simps(2) [simp del]

definition word :: "ustr \<Rightarrow> bool" where
  "word w \<longleftrightarrow> w \<noteq> [] \<and> (\<forall>c \<in> set w. non_ws c)"

lemma word_trimmed: "word w \<Longrightarrow> trimmed w"
  by (auto simp: word_def trimmed_def)

lemma word_nonempty: "word w \<Longrightarrow> w \<noteq> []"
  by (simp add: word_def)

lemma trim_word [simp]: "word w \<Longrightarrow> trim w = w"
  by (simp add: word_trimmed trimmed_trim_id)

lemma split_whitespace_words: "w \<in> set (split_whitespace s) \<Longrightarrow> word w"
proof (induction s rule: split_whitespace.induct)
  case (2 c s)
  show ?case
  proof (cases "is_whitespace c")
    case False
    then consider "w = takeWhile non_ws (c # s)" | "w \<in> set (split_whitespace (dropWhile non_ws s))"
      using "2.prems" by (auto simp: split_whitespace.simps(2))
    then show ?thesis
    proof cases
      case 1
      then show ?thesis using False by (auto simp: word_def dest: set_takeWhileD)
    next
      case 2
      with False show ?thesis using "2.IH"(2) by simp
    qed
  qed (use 2 in \<open>simp add: split_whitespace.simps(2)\<close>)
qed simp

lemma split_whitespace_ws [str_simps]:
  "is_whitespace c \<Longrightarrow> split_whitespace (c # s) = split_whitespace s"
  by (simp add: split_whitespace.simps)

lemma split_whitespace_word:
  assumes "word w"
  shows "split_whitespace w = [w]"
proof (cases w)
  case (Cons c s)
  then have *: "takeWhile non_ws s = s" "dropWhile non_ws s = []" "non_ws c"
    using assms by (auto simp: word_def takeWhile_eq_all_conv)
  have "split_whitespace (c # s) = (c # s) # split_whitespace []"
    by (subst split_whitespace.simps(2), subst *(2)) (use * in simp)
  then show ?thesis using Cons by simp
qed (use assms in \<open>simp add: word_def\<close>)

lemma split_whitespace_word_append:
  assumes "word w" and ws: "is_whitespace c"
  shows "split_whitespace (w @ c # s) = w # split_whitespace s"
proof (cases w)
  case (Cons d v)
  have nd: "non_ws d" and v: "\<And>x. x \<in> set v \<Longrightarrow> non_ws x"
    using assms Cons by (auto simp: word_def)
  have "takeWhile non_ws (v @ c # s) = v" "dropWhile non_ws (v @ c # s) = c # s"
    using takeWhile_append_stop [of v non_ws c s] dropWhile_append_stop [of v non_ws c s] v ws
    by auto
  then show ?thesis using nd ws Cons by (simp add: split_whitespace.simps)
qed (use assms in \<open>simp add: word_def\<close>)

lemma split_whitespace_join:
  "(\<And>w. w \<in> set ws \<Longrightarrow> word w) \<Longrightarrow> split_whitespace (join [32] ws) = ws"
  by (induction ws rule: induct_list012)
    (auto simp: split_whitespace_word split_whitespace_word_append)

lemma split_whitespace_join_append:
  assumes "\<And>w. w \<in> set ws \<Longrightarrow> word w"
  shows "split_whitespace (join [32] ws @ 32 # s) = ws @ split_whitespace s"
  using assms
  by (induction ws rule: induct_list012)
    (auto simp: split_whitespace_word_append split_whitespace_ws)

lemma split_whitespace_append_ws:
  assumes "is_whitespace d"
  shows "split_whitespace (a @ d # b) = split_whitespace a @ split_whitespace b"
proof (induction a rule: split_whitespace.induct)
  case 1
  then show ?case using assms by (simp add: split_whitespace_ws)
next
  case (2 c s)
  have "takeWhile non_ws (s @ d # b) = takeWhile non_ws s" using assms by (induction s) auto
  moreover have "dropWhile non_ws (s @ d # b) = dropWhile non_ws s @ d # b"
    using assms by (induction s) auto
  ultimately show ?case using 2 by (simp add: split_whitespace.simps)
qed

lemma split_whitespace_join_words:
  "split_whitespace (join [32] ps) = concat (map split_whitespace ps)"
  by (induction ps rule: induct_list012) (simp_all add: split_whitespace_append_ws)

lemma split_whitespace_trim_start: "split_whitespace (trim_start s) = split_whitespace s"
  by (induction s) (auto simp: trim_start_def split_whitespace.simps)

lemma split_whitespace_all_ws:
  "(\<And>c. c \<in> set s \<Longrightarrow> is_whitespace c) \<Longrightarrow> split_whitespace s = []"
  by (induction s) (auto simp: split_whitespace.simps)

lemma split_whitespace_append_all_ws:
  "(\<And>c. c \<in> set p \<Longrightarrow> is_whitespace c) \<Longrightarrow> split_whitespace (s @ p) = split_whitespace s"
  by (cases p) (auto simp: split_whitespace_append_ws split_whitespace_all_ws)

lemma split_whitespace_trim [simp]: "split_whitespace (trim s) = split_whitespace s"
proof -
  obtain p where "s = trim_end s @ p" "\<forall>c \<in> set p. is_whitespace c"
    using trim_end_prefix by blast
  then have "split_whitespace s = split_whitespace (trim_end s)"
    by (metis split_whitespace_append_all_ws)
  then show ?thesis by (simp add: trim_def split_whitespace_trim_start)
qed

lemma split_whitespace_eq_Nil_iff: "split_whitespace s = [] \<longleftrightarrow> trim s = []"
  by (induction s rule: split_whitespace.induct)
    (auto simp: split_whitespace.simps trim_eq_Nil_iff)

lemma split_first_ws_word: "word w \<Longrightarrow> split_first_ws w = (w, None)"
proof -
  assume "word w"
  then have *: "takeWhile non_ws w = w" "dropWhile non_ws w = []"
    by (auto simp: word_def takeWhile_eq_all_conv)
  show ?thesis unfolding split_first_ws_def * by simp
qed

lemma split_first_ws_append:
  "word w \<Longrightarrow> is_whitespace c \<Longrightarrow> split_first_ws (w @ c # s) = (w, Some s)"
proof -
  assume "word w" and ws: "is_whitespace c"
  then have "\<And>x. x \<in> set w \<Longrightarrow> non_ws x" by (auto simp: word_def)
  then have "takeWhile non_ws (w @ c # s) = w" "dropWhile non_ws (w @ c # s) = c # s"
    using takeWhile_append_stop [of w non_ws c s] dropWhile_append_stop [of w non_ws c s] ws
    by auto
  then show ?thesis by (simp add: split_first_ws_def)
qed

section \<open>Lines\<close>

definition strip_cr :: "ustr \<Rightarrow> ustr" where
  "strip_cr l = (if l \<noteq> [] \<and> last l = 13 then butlast l else l)"

function str_lines :: "ustr \<Rightarrow> ustr list" where
  "str_lines s =
     (if s = [] then []
      else case dropWhile (\<lambda>c. c \<noteq> 10) s of
             [] \<Rightarrow> [s]
           | _ # r \<Rightarrow> strip_cr (takeWhile (\<lambda>c. c \<noteq> 10) s) # str_lines r)"
  by pat_completeness auto

termination
proof (relation "measure length")
  fix s :: ustr and c r
  assume "dropWhile (\<lambda>c. c \<noteq> 10) s = c # r"
  moreover have "length (dropWhile (\<lambda>c. c \<noteq> 10) s) \<le> length s" by (rule length_dropWhile_le)
  ultimately show "(r, s) \<in> measure length" by simp
qed simp

declare str_lines.simps [simp del]

definition no_nl :: "ustr \<Rightarrow> bool" where
  "no_nl l \<longleftrightarrow> (10::uchar) \<notin> set l"

lemma no_nl_simps [simp]:
  "no_nl []" "no_nl (a @ b) \<longleftrightarrow> no_nl a \<and> no_nl b" "no_nl (c # a) \<longleftrightarrow> c \<noteq> 10 \<and> no_nl a"
  by (auto simp: no_nl_def)

lemma no_nl_word: "word w \<Longrightarrow> no_nl w"
  by (auto simp: word_def no_nl_def)

lemma no_nl_trim: "no_nl s \<Longrightarrow> no_nl (trim s)"
  using set_trim by (auto simp: no_nl_def)

lemma str_lines_Nil [simp]: "str_lines [] = []"
  by (simp add: str_lines.simps)

lemma str_lines_last:
  assumes "no_nl l" and "l \<noteq> []"
  shows "str_lines l = [l]"
proof -
  have *: "dropWhile (\<lambda>c. c \<noteq> 10) l = []" using assms(1) by (auto simp: no_nl_def)
  show ?thesis using assms(2) by (subst str_lines.simps, subst *) simp
qed

lemma str_lines_Cons:
  assumes "no_nl l"
  shows "str_lines (l @ 10 # r) = strip_cr l # str_lines r"
proof -
  have l: "\<And>x. x \<in> set l \<Longrightarrow> x \<noteq> 10" using assms by (auto simp: no_nl_def)
  have "dropWhile (\<lambda>c. c \<noteq> 10) (l @ 10 # r) = 10 # r"
    by (rule dropWhile_append_stop) (use l in auto)
  moreover have "takeWhile (\<lambda>c. c \<noteq> 10) (l @ 10 # r) = l"
    by (rule takeWhile_append_stop) (use l in auto)
  ultimately show ?thesis by (subst str_lines.simps) simp
qed

lemma str_lines_join_snoc:
  assumes "\<And>l. l \<in> set ls \<Longrightarrow> no_nl l"
  shows "str_lines (join [10] (ls @ [[]])) = map strip_cr ls"
  using assms by (induction ls) (auto simp: join_Cons str_lines_Cons)

lemma str_lines_append_join:
  assumes "\<And>l. l \<in> set ls \<Longrightarrow> no_nl l"
  shows "str_lines (concat (map (\<lambda>l. l @ [10]) ls) @ s) = map strip_cr ls @ str_lines s"
  using assms by (induction ls) (auto simp: str_lines_Cons)

lemma str_lines_no_nl: "l \<in> set (str_lines s) \<Longrightarrow> no_nl l"
proof (induction s rule: str_lines.induct)
  case (1 s)
  show ?case
  proof (cases "dropWhile (\<lambda>c. c \<noteq> 10) s")
    case Nil
    then have s: "no_nl s" by (auto simp: no_nl_def)
    then have "str_lines s = [s] \<or> s = []" using str_lines_last by blast
    then show ?thesis using "1.prems" s by auto
  next
    case (Cons c r)
    have "no_nl (takeWhile (\<lambda>c. c \<noteq> 10) s)" by (auto simp: no_nl_def dest: set_takeWhileD)
    then have "no_nl (strip_cr (takeWhile (\<lambda>c. c \<noteq> 10) s))"
      by (auto simp: no_nl_def strip_cr_def dest: in_set_butlastD)
    moreover have "s \<noteq> []" using Cons by auto
    ultimately show ?thesis
      using "1.prems" "1.IH" [OF _ Cons] Cons by (auto simp: str_lines.simps [of s])
  qed
qed

lemma trim_strip_cr [simp]: "trim (strip_cr l) = trim l"
proof (cases "l \<noteq> [] \<and> last l = 13")
  case True
  then have "l = butlast l @ [13]" by (metis append_butlast_last_id)
  then show ?thesis using True trim_snoc_ws [of 13 "butlast l"] by (simp add: strip_cr_def)
qed (auto simp: strip_cr_def)

lemma trim_end_strip_cr [simp]: "trim_end (strip_cr l) = trim_end l"
proof (cases "l \<noteq> [] \<and> last l = 13")
  case True
  then have "l = butlast l @ [13]" by (metis append_butlast_last_id)
  moreover have "trim_end (butlast l @ [13]) = trim_end (butlast l)" by (simp add: trim_end_def)
  ultimately show ?thesis using True by (simp add: strip_cr_def)
qed (auto simp: strip_cr_def)

lemma strip_cr_id: "trimmed l \<Longrightarrow> strip_cr l = l"
  by (auto simp: strip_cr_def trimmed_def)

end
