(* ===== verification/Rust_Scan.thy ===== *)
theory Rust_Scan
  imports Rust_Str "HOL-Library.Word" "HOL-Library.List_Lexorder"
begin

text \<open>
  The searching, splitting and numeral functions of Rust's standard library the program uses:
  \<open>strip_prefix\<close>, \<open>starts_with\<close>, \<open>ends_with\<close>, \<open>find\<close>, \<open>rfind\<close>, \<open>contains\<close>, \<open>split\<close> on a
  character, \<open>trim_matches\<close> on a character or prefix, \<open>eq_ignore_ascii_case\<close>, \<open>to_string\<close> and
  \<open>parse\<close> of unsigned integers, and \<open>{:02x}\<close>. Offsets are counted in code points, where Rust
  counts bytes: the program only uses an offset to slice the string it was found in.
\<close>

section \<open>Prefixes, suffixes, substrings\<close>

definition starts_with :: "ustr \<Rightarrow> ustr \<Rightarrow> bool" where
  "starts_with p s \<longleftrightarrow> take (length p) s = p"

definition ends_with :: "ustr \<Rightarrow> ustr \<Rightarrow> bool" where
  "ends_with p s \<longleftrightarrow> starts_with (rev p) (rev s)"

definition strip_prefix :: "ustr \<Rightarrow> ustr \<Rightarrow> ustr option" where
  "strip_prefix p s = (if starts_with p s then Some (drop (length p) s) else None)"

fun str_find :: "ustr \<Rightarrow> ustr \<Rightarrow> nat option" where
  "str_find p [] = (if p = [] then Some 0 else None)"
| "str_find p (c # s) =
     (if starts_with p (c # s) then Some 0 else map_option Suc (str_find p s))"

definition str_contains :: "ustr \<Rightarrow> ustr \<Rightarrow> bool" where
  "str_contains p s \<longleftrightarrow> str_find p s \<noteq> None"

lemma starts_with_iff: "starts_with p s \<longleftrightarrow> (\<exists>t. s = p @ t)"
  unfolding starts_with_def by (metis append_eq_conv_conj append_take_drop_id)

lemma starts_with_append [simp]: "starts_with p (p @ s)"
  by (simp add: starts_with_def)

lemma starts_with_Cons_iff [simp]:
  "starts_with (c # p) (d # s) \<longleftrightarrow> c = d \<and> starts_with p s"
  "starts_with [] s" "\<not> starts_with (c # p) []"
  by (auto simp: starts_with_def)

lemma ends_with_iff: "ends_with p s \<longleftrightarrow> (\<exists>t. s = t @ p)"
  unfolding ends_with_def starts_with_iff
  by (metis rev_append rev_rev_ident)

lemma ends_with_single: "ends_with [c] s \<longleftrightarrow> s \<noteq> [] \<and> last s = c"
  unfolding ends_with_iff by (metis append_butlast_last_id append_is_Nil_conv last_snoc list.distinct(1))

lemma strip_prefix_append [simp]: "strip_prefix p (p @ s) = Some s"
  by (simp add: strip_prefix_def)

lemma strip_prefix_Some_iff: "strip_prefix p s = Some t \<longleftrightarrow> s = p @ t"
  by (auto simp: strip_prefix_def starts_with_iff)

lemma strip_prefix_None_iff: "strip_prefix p s = None \<longleftrightarrow> \<not> starts_with p s"
  by (simp add: strip_prefix_def)

lemma str_find_Some:
  "str_find p s = Some i \<Longrightarrow>
     s = take i s @ p @ drop (i + length p) s \<and>
     (\<forall>j < i. \<not> starts_with p (drop j s)) \<and> i + length p \<le> length s"
proof (induction s arbitrary: i)
  case Nil
  then show ?case by (auto split: if_splits)
next
  case (Cons c s)
  show ?case
  proof (cases "starts_with p (c # s)")
    case True
    then obtain t where "c # s = p @ t" by (auto simp: starts_with_iff)
    moreover have "i = 0" using True Cons.prems by simp
    ultimately show ?thesis by simp
  next
    case False
    then obtain k where k: "str_find p s = Some k" "i = Suc k" using Cons.prems by auto
    have "\<not> starts_with p (drop j (c # s))" if "j < i" for j
      using that False Cons.IH [OF k(1)] k(2) by (cases j) auto
    then show ?thesis using Cons.IH [OF k(1)] k(2) by auto
  qed
qed

lemma str_find_None: "str_find p s = None \<longleftrightarrow> (\<nexists>a b. s = a @ p @ b)"
proof (induction s)
  case (Cons c s)
  have "(\<exists>a b. c # s = a @ p @ b) \<longleftrightarrow> starts_with p (c # s) \<or> (\<exists>a b. s = a @ p @ b)"
    unfolding starts_with_iff by (metis append_Cons append_Nil append_eq_Cons_conv)
  then show ?case using Cons by auto
qed auto

lemma str_contains_iff: "str_contains p s \<longleftrightarrow> (\<exists>a b. s = a @ p @ b)"
  using str_find_None by (auto simp: str_contains_def)

lemma str_contains_append: "str_contains p s \<Longrightarrow> str_contains p (a @ s @ b)"
  unfolding str_contains_iff by (metis append.assoc)

lemma str_contains_refl [simp]: "str_contains p p"
  unfolding str_contains_iff by (metis append_Nil append_Nil2)

lemma str_find_minimal:
  assumes "str_find p s = Some i" and "s = a @ p @ b"
  shows "i \<le> length a"
proof (rule ccontr)
  assume "\<not> i \<le> length a"
  then have "\<not> starts_with p (drop (length a) s)" using str_find_Some [OF assms(1)] by simp
  then show False using assms(2) by simp
qed

lemma str_find_first:
  assumes "\<And>j. j < length a \<Longrightarrow> \<not> starts_with p (drop j (a @ p @ b))"
  shows "str_find p (a @ p @ b) = Some (length a)"
proof -
  obtain i where i: "str_find p (a @ p @ b) = Some i"
    using str_find_None [of p "a @ p @ b"] by blast
  then have "i \<le> length a" using str_find_minimal by blast
  moreover have "\<not> i < length a"
  proof
    assume "i < length a"
    then have "\<not> starts_with p (drop i (a @ p @ b))" by (rule assms)
    moreover have "drop i (a @ p @ b) = p @ drop (i + length p) (a @ p @ b)"
      using str_find_Some [OF i] by (metis append_eq_conv_conj drop_append append_take_drop_id
          add.commute drop_drop starts_with_append append_same_eq length_take min.absorb2 le_add1 le_trans)
    ultimately show False by simp
  qed
  ultimately show ?thesis using i by simp
qed

section \<open>Characters\<close>

definition find_char :: "uchar \<Rightarrow> ustr \<Rightarrow> nat option" where
  "find_char c s = (if c \<in> set s then Some (length (takeWhile (\<lambda>d. d \<noteq> c) s)) else None)"

text \<open>\<open>rfind(c)\<close> as the two slices around the last occurrence.\<close>

definition rsplit_char :: "uchar \<Rightarrow> ustr \<Rightarrow> (ustr \<times> ustr) option" where
  "rsplit_char c s =
     (if c \<in> set s
      then Some (rev (tl (dropWhile (\<lambda>d. d \<noteq> c) (rev s))), rev (takeWhile (\<lambda>d. d \<noteq> c) (rev s)))
      else None)"

function split_char :: "uchar \<Rightarrow> ustr \<Rightarrow> ustr list" where
  "split_char c s =
     (case dropWhile (\<lambda>d. d \<noteq> c) s of
        [] \<Rightarrow> [s]
      | _ # r \<Rightarrow> takeWhile (\<lambda>d. d \<noteq> c) s # split_char c r)"
  by pat_completeness auto

termination
proof (relation "measure (\<lambda>(c, s). length s)")
  fix c :: uchar and s d r
  assume "dropWhile (\<lambda>d. d \<noteq> c) s = d # r"
  moreover have "length (dropWhile (\<lambda>d. d \<noteq> c) s) \<le> length s" by (rule length_dropWhile_le)
  ultimately show "((c, r), (c, s)) \<in> measure (\<lambda>(c, s). length s)" by simp
qed simp

declare split_char.simps [simp del]

definition trim_end_char :: "uchar \<Rightarrow> ustr \<Rightarrow> ustr" where
  "trim_end_char c s = rev (dropWhile (\<lambda>d. d = c) (rev s))"

text \<open>\<open>trim_start_matches\<close> of a non-empty prefix removes it as often as it occurs.\<close>

function trim_start_str :: "ustr \<Rightarrow> ustr \<Rightarrow> ustr" where
  "trim_start_str p s =
     (if p \<noteq> [] \<and> starts_with p s then trim_start_str p (drop (length p) s) else s)"
  by pat_completeness auto

termination
  by (relation "measure (\<lambda>(p, s). length s)") (auto simp: starts_with_iff)

declare trim_start_str.simps [simp del]

lemma rsplit_char_append:
  "c \<notin> set b \<Longrightarrow> rsplit_char c (a @ c # b) = Some (a, b)"
proof -
  assume b: "c \<notin> set b"
  have "dropWhile (\<lambda>d. d \<noteq> c) (rev b @ c # rev a) = c # rev a"
    by (rule dropWhile_append_stop) (use b in auto)
  moreover have "takeWhile (\<lambda>d. d \<noteq> c) (rev b @ c # rev a) = rev b"
    by (rule takeWhile_append_stop) (use b in auto)
  ultimately show ?thesis by (simp add: rsplit_char_def)
qed

lemma rsplit_char_None: "rsplit_char c s = None \<longleftrightarrow> c \<notin> set s"
  by (simp add: rsplit_char_def)

lemma split_char_none: "c \<notin> set s \<Longrightarrow> split_char c s = [s]"
proof -
  assume "c \<notin> set s"
  then have *: "dropWhile (\<lambda>d. d \<noteq> c) s = []" by auto
  show ?thesis by (subst split_char.simps, subst *) simp
qed

lemma split_char_append: "c \<notin> set a \<Longrightarrow> split_char c (a @ c # s) = a # split_char c s"
proof -
  assume a: "c \<notin> set a"
  have "dropWhile (\<lambda>d. d \<noteq> c) (a @ c # s) = c # s"
    by (rule dropWhile_append_stop) (use a in auto)
  moreover have "takeWhile (\<lambda>d. d \<noteq> c) (a @ c # s) = a"
    by (rule takeWhile_append_stop) (use a in auto)
  ultimately show ?thesis by (subst split_char.simps) simp
qed

lemma split_char_join:
  "xs \<noteq> [] \<Longrightarrow> (\<And>x. x \<in> set xs \<Longrightarrow> c \<notin> set x) \<Longrightarrow> split_char c (join [c] xs) = xs"
  by (induction xs rule: induct_list012) (auto simp: split_char_none split_char_append)

lemma split_char_nonempty: "split_char c s \<noteq> []"
  by (subst split_char.simps) (auto split: list.splits)

lemma trim_end_char_id: "s = [] \<or> last s \<noteq> c \<Longrightarrow> trim_end_char c s = s"
  unfolding trim_end_char_def by (metis (full_types) dropWhile_eq_self hd_rev rev_is_Nil_conv rev_rev_ident)

lemma trim_end_char_prefix: "\<exists>p. s = trim_end_char c s @ p \<and> set p \<subseteq> {c}"
proof -
  have "rev s = takeWhile (\<lambda>d. d = c) (rev s) @ dropWhile (\<lambda>d. d = c) (rev s)" by simp
  then have "s = trim_end_char c s @ rev (takeWhile (\<lambda>d. d = c) (rev s))"
    unfolding trim_end_char_def by (metis rev_append rev_rev_ident)
  moreover have "set (rev (takeWhile (\<lambda>d. d = c) (rev s))) \<subseteq> {c}" by (auto dest: set_takeWhileD)
  ultimately show ?thesis by blast
qed

section \<open>ASCII case\<close>

definition ascii_lower :: "uchar \<Rightarrow> uchar" where
  "ascii_lower c = (if 65 \<le> c \<and> c \<le> 90 then c + 32 else c)"

definition eq_ignore_ascii_case :: "ustr \<Rightarrow> ustr \<Rightarrow> bool" where
  "eq_ignore_ascii_case a b \<longleftrightarrow> map ascii_lower a = map ascii_lower b"

lemma eq_ignore_ascii_case_refl [simp]: "eq_ignore_ascii_case a a"
  by (simp add: eq_ignore_ascii_case_def)

section \<open>Decimal numerals\<close>

fun dec_digits :: "nat \<Rightarrow> ustr" where
  "dec_digits n =
     (if n < 10 then [48 + int n] else dec_digits (n div 10) @ [48 + int (n mod 10)])"

declare dec_digits.simps [simp del]

definition is_digit :: "uchar \<Rightarrow> bool" where
  "is_digit c \<longleftrightarrow> 48 \<le> c \<and> c \<le> 57"

definition dec_value :: "ustr \<Rightarrow> nat" where
  "dec_value s = foldl (\<lambda>v c. 10 * v + nat (c - 48)) 0 s"

text \<open>\<open>str::parse\<close> of an unsigned integer below \<open>bound\<close>: an optional \<open>+\<close>, at least one digit, and
  an error on overflow.\<close>

definition parse_uint :: "nat \<Rightarrow> ustr \<Rightarrow> nat option" where
  "parse_uint bound s =
     (let t = (case s of [] \<Rightarrow> [] | c # r \<Rightarrow> if c = 43 then r else s)
      in if t \<noteq> [] \<and> list_all is_digit t \<and> dec_value t < bound then Some (dec_value t) else None)"

abbreviation parse_u16 :: "ustr \<Rightarrow> nat option" where "parse_u16 \<equiv> parse_uint (2 ^ 16)"
abbreviation parse_u32 :: "ustr \<Rightarrow> nat option" where "parse_u32 \<equiv> parse_uint (2 ^ 32)"
abbreviation parse_u64 :: "ustr \<Rightarrow> nat option" where "parse_u64 \<equiv> parse_uint (2 ^ 64)"

lemma dec_digits_digits: "c \<in> set (dec_digits n) \<Longrightarrow> is_digit c"
proof (induction n rule: dec_digits.induct)
  case (1 n)
  then show ?case
    by (cases "n < 10") (auto simp: dec_digits.simps [of n] is_digit_def)
qed

lemma dec_digits_nonempty [simp]: "dec_digits n \<noteq> []"
  by (subst dec_digits.simps) simp

lemma dec_value_snoc: "dec_value (s @ [c]) = 10 * dec_value s + nat (c - 48)"
  by (simp add: dec_value_def)

lemma dec_value_digits: "dec_value (dec_digits n) = n"
proof (induction n rule: dec_digits.induct)
  case (1 n)
  show ?case
  proof (cases "n < 10")
    case True
    then show ?thesis by (simp add: dec_digits.simps [of n] dec_value_def)
  next
    case False
    then show ?thesis using 1 by (simp add: dec_digits.simps [of n] dec_value_snoc)
  qed
qed

lemma parse_uint_dec_digits: "n < b \<Longrightarrow> parse_uint b (dec_digits n) = Some n"
proof -
  assume n: "n < b"
  have "hd (dec_digits n) \<noteq> 43"
    using dec_digits_digits [of "hd (dec_digits n)" n] by (auto simp: is_digit_def)
  then have "(case dec_digits n of [] \<Rightarrow> [] | c # r \<Rightarrow> if c = 43 then r else dec_digits n) = dec_digits n"
    by (cases "dec_digits n") auto
  then show ?thesis
    using n dec_digits_digits by (simp add: parse_uint_def dec_value_digits list_all_iff)
qed

lemma parse_uint_bound: "parse_uint b s = Some n \<Longrightarrow> n < b"
  by (auto simp: parse_uint_def Let_def split: if_splits)

section \<open>Hexadecimal bytes\<close>

definition hex_digit :: "nat \<Rightarrow> uchar" where
  "hex_digit d = (if d < 10 then 48 + int d else 87 + int d)"

definition hex02 :: "8 word \<Rightarrow> ustr" where
  "hex02 b = [hex_digit (unat b div 16), hex_digit (unat b mod 16)]"

end
