(* ===== verification/Effects.thy ===== *)
theory Effects
  imports Rust_Scan "HOL-Library.Word" "HOL-Library.Code_Target_Nat"
begin

text \<open>
  Machine integers and the shape of a fallible stateful operation, shared by the database, the
  statistics and the servers. Rust's \<open>u64\<close>, \<open>u32\<close>, \<open>u16\<close>, \<open>i32\<close> and \<open>i64\<close> are words of their
  width; plain \<open>+\<close>, \<open>-\<close> and \<open>*\<close> wrap, as they do in the release profile of \<open>src/Cargo.toml\<close> (a
  debug build panics instead). An \<open>f64\<close> is its bit pattern: the modelled code only moves such
  values, and where it computes with them the operation is a parameter.
\<close>

type_synonym u16 = "16 word"
type_synonym u32 = "32 word"
type_synonym u64 = "64 word"
type_synonym i32 = "32 word"
type_synonym i64 = "64 word"
type_synonym f64 = "64 word"

definition show_u :: "'w::len word \<Rightarrow> ustr" where
  "show_u w = dec_digits (unat w)"

lemma show_u_no_question [simp]: "63 \<notin> set (show_u w)"
  using dec_digits_digits [of 63 "unat w"] by (auto simp: show_u_def is_digit_def)

lemma parse_show_u: "parse_uint (2 ^ LENGTH('w)) (show_u (w :: 'w::len word)) = Some (unat w)"
  unfolding show_u_def by (rule parse_uint_dec_digits) (rule unsigned_less)

lemma show_u_inject [simp]: "show_u a = show_u b \<longleftrightarrow> a = b"
  by (metis dec_value_digits show_u_def unsigned_word_eqI)

lemma word_minus_small:
  "unat b \<le> unat a \<Longrightarrow> unat (a - b :: 'w::len word) = unat a - unat b"
  by (simp add: unat_sub word_le_nat_alt)

section \<open>Fallible operations on a state\<close>

type_synonym ('s, 'e, 'a) act = "'s \<Rightarrow> ('e, 'a) result \<times> 's"

definition act_return :: "'a \<Rightarrow> ('s, 'e, 'a) act" where
  "act_return x s = (Inr x, s)"

definition act_fail :: "'e \<Rightarrow> ('s, 'e, 'a) act" where
  "act_fail e s = (Inl e, s)"

definition act_bind :: "('s, 'e, 'a) act \<Rightarrow> ('a \<Rightarrow> ('s, 'e, 'b) act) \<Rightarrow> ('s, 'e, 'b) act" where
  "act_bind m f s = (case m s of (Inl e, s') \<Rightarrow> (Inl e, s') | (Inr x, s') \<Rightarrow> f x s')"

definition act_get :: "('s \<Rightarrow> 'a) \<Rightarrow> ('s, 'e, 'a) act" where
  "act_get f s = (Inr (f s), s)"

definition act_upd :: "('s \<Rightarrow> 's) \<Rightarrow> ('s, 'e, unit) act" where
  "act_upd f s = (Inr (), f s)"

fun act_each :: "('a \<Rightarrow> ('s, 'e, unit) act) \<Rightarrow> 'a list \<Rightarrow> ('s, 'e, unit) act" where
  "act_each f [] = act_return ()"
| "act_each f (x # xs) = act_bind (f x) (\<lambda>_. act_each f xs)"

named_theorems act_defs \<open>evaluation of fallible operations\<close>

lemmas [act_defs] = act_return_def act_fail_def act_get_def act_upd_def

lemma act_bind_return [simp]: "act_bind (act_return x) f = f x"
  by (simp add: act_bind_def act_return_def fun_eq_iff)

lemma act_bind_fail [simp]: "act_bind (act_fail e) f = act_fail e"
  by (simp add: act_bind_def act_fail_def fun_eq_iff)

lemma act_bind_assoc: "act_bind (act_bind m f) g = act_bind m (\<lambda>x. act_bind (f x) g)"
  by (auto simp: act_bind_def fun_eq_iff split: prod.split sum.split)

lemma act_bind_ok: "m s = (Inr x, s') \<Longrightarrow> act_bind m f s = f x s'"
  by (simp add: act_bind_def)

lemma act_bind_err: "m s = (Inl e, s') \<Longrightarrow> act_bind m f s = (Inl e, s')"
  by (simp add: act_bind_def)

lemma act_bind_Inr:
  "act_bind m f s = (Inr y, s'') \<longleftrightarrow> (\<exists>x s'. m s = (Inr x, s') \<and> f x s' = (Inr y, s''))"
  by (auto simp: act_bind_def split: prod.splits sum.splits)

lemma act_bind_Inl:
  "act_bind m f s = (Inl e, s'') \<longleftrightarrow>
     m s = (Inl e, s'') \<or> (\<exists>x s'. m s = (Inr x, s') \<and> f x s' = (Inl e, s''))"
  by (auto simp: act_bind_def split: prod.splits sum.splits)

lemma act_return_Inr [simp]: "act_return x s = (Inr y, s') \<longleftrightarrow> y = x \<and> s' = s"
  by (auto simp: act_return_def)

lemma act_return_Inl [simp]: "act_return x s \<noteq> (Inl e, s')"
  by (simp add: act_return_def)

lemma act_fail_Inr [simp]: "act_fail e s \<noteq> (Inr y, s')"
  by (simp add: act_fail_def)

text \<open>
  An invariant of the state that every step keeps is kept by a loop over a list, whether the loop
  ends or is left by an error.
\<close>

lemma act_each_invariant:
  assumes step: "\<And>x s r s'. x \<in> set xs \<Longrightarrow> P s \<Longrightarrow> f x s = (r, s') \<Longrightarrow> P s'"
    and "P s" "act_each f xs s = (r, s')"
  shows "P s'"
  using assms
proof (induction xs arbitrary: s)
  case (Cons x xs)
  obtain r1 s1 where f: "f x s = (r1, s1)" by fastforce
  have "P s1" by (rule Cons.prems(1) [OF _ Cons.prems(2) f]) simp
  show ?case
  proof (cases r1)
    case (Inl e)
    then show ?thesis using Cons.prems(3) f \<open>P s1\<close> by (simp add: act_bind_def)
  next
    case (Inr u)
    then have "act_each f xs s1 = (r, s')" using Cons.prems(3) f by (simp add: act_bind_def)
    then show ?thesis by (rule Cons.IH [OF Cons.prems(1) \<open>P s1\<close>, rotated -1]) simp_all
  qed
qed (simp add: act_return_def)

text \<open>A loop that succeeds has folded the effect its steps have on a part of the state.\<close>

lemma act_each_fold:
  assumes "\<And>x s s'. x \<in> set xs \<Longrightarrow> f x s = (Inr (), s') \<Longrightarrow> part s' = g x (part s)"
    and "act_each f xs s = (Inr (), s')"
  shows "part s' = fold g xs (part s)"
  using assms
proof (induction xs arbitrary: s)
  case (Cons x xs)
  then obtain s1 where "f x s = (Inr (), s1)" "act_each f xs s1 = (Inr (), s')"
    by (auto simp: act_bind_Inr)
  then show ?case using Cons.IH [of s1] Cons.prems(1) [of x s s1] Cons.prems(1) by simp
qed simp

end
