(* ===== verification/Smartdns_Types.thy ===== *)
theory Smartdns_Types
  imports Effects
begin

text \<open>
  The enumerations of \<open>src/src/smartdns.rs\<close> that cross the boundary to the DNS server and the HTTP
  interface (log levels, upstream kinds, trust states), with their number and text forms, and the
  upstream server record of \<open>src/src/data_upstream_server.rs\<close>. \<open>str::to_lowercase\<close> is the
  parameter \<open>lower\<close>; arithmetic on \<open>f64\<close> is a parameter too.
\<close>

type_synonym bytes = "8 word list"

section \<open>Log levels\<close>

datatype log_level = DEBUG | INFO | NOTICE | WARN | ERROR | FATAL | OFF

fun log_level_code :: "log_level \<Rightarrow> u32" where
  "log_level_code DEBUG = 0"
| "log_level_code INFO = 1"
| "log_level_code NOTICE = 2"
| "log_level_code WARN = 3"
| "log_level_code ERROR = 4"
| "log_level_code FATAL = 5"
| "log_level_code OFF = 6"

fun log_level_text :: "log_level \<Rightarrow> ustr" where
  "log_level_text DEBUG = lit ''debug''"
| "log_level_text INFO = lit ''info''"
| "log_level_text NOTICE = lit ''notice''"
| "log_level_text WARN = lit ''warn''"
| "log_level_text ERROR = lit ''error''"
| "log_level_text FATAL = lit ''fatal''"
| "log_level_text OFF = lit ''off''"

definition log_level_of_code :: "u32 \<Rightarrow> log_level option" where
  "log_level_of_code v =
     (if v = 0 then Some DEBUG else if v = 1 then Some INFO else if v = 2 then Some NOTICE
      else if v = 3 then Some WARN else if v = 4 then Some ERROR else if v = 5 then Some FATAL
      else if v = 6 then Some OFF else None)"

definition log_level_of_text :: "(ustr \<Rightarrow> ustr) \<Rightarrow> ustr \<Rightarrow> log_level option" where
  "log_level_of_text lower v =
     (let t = lower v
      in if t = lit ''debug'' then Some DEBUG else if t = lit ''info'' then Some INFO
         else if t = lit ''notice'' then Some NOTICE else if t = lit ''warn'' then Some WARN
         else if t = lit ''error'' then Some ERROR else if t = lit ''fatal'' then Some FATAL
         else if t = lit ''off'' then Some OFF else None)"

lemma log_level_code_round: "log_level_of_code (log_level_code l) = Some l"
  by (cases l) (simp_all add: log_level_of_code_def)

lemma log_level_code_inject: "log_level_code a = log_level_code b \<Longrightarrow> a = b"
  by (metis log_level_code_round option.inject)

text \<open>Levels are ordered by severity, as their numbers are.\<close>

instantiation log_level :: linorder
begin

definition less_eq_log_level :: "log_level \<Rightarrow> log_level \<Rightarrow> bool" where
  "less_eq_log_level a b \<longleftrightarrow> log_level_code a \<le> log_level_code b"

definition less_log_level :: "log_level \<Rightarrow> log_level \<Rightarrow> bool" where
  "less_log_level a b \<longleftrightarrow> log_level_code a < log_level_code b"

instance
proof
  fix a b c :: log_level
  show "a < b \<longleftrightarrow> a \<le> b \<and> \<not> b \<le> a"
    by (auto simp: less_eq_log_level_def less_log_level_def)
  show "a \<le> a" by (simp add: less_eq_log_level_def)
  show "a \<le> b \<Longrightarrow> b \<le> c \<Longrightarrow> a \<le> c" by (simp add: less_eq_log_level_def)
  show "a \<le> b \<Longrightarrow> b \<le> a \<Longrightarrow> a = b"
    by (rule log_level_code_inject) (simp add: less_eq_log_level_def)
  show "a \<le> b \<or> b \<le> a" by (auto simp: less_eq_log_level_def)
qed

end

lemma log_level_of_code_Some: "log_level_of_code v = Some l \<longleftrightarrow> v = log_level_code l"
  by (cases l) (auto simp: log_level_of_code_def split: if_splits)

lemma log_level_text_round:
  "lower (log_level_text l) = log_level_text l \<Longrightarrow> log_level_of_text lower (log_level_text l) = Some l"
  by (cases l) (simp_all add: log_level_of_text_def)

lemma log_level_worst: "l \<le> OFF"
  by (cases l) (simp_all add: less_eq_log_level_def)

section \<open>Upstream kinds\<close>

datatype dns_server_type =
    SERVER_UDP | SERVER_TCP | SERVER_TLS | SERVER_HTTPS | SERVER_QUIC | SERVER_HTTP3 | SERVER_MDNS
  | SERVER_UNKNOWN

definition dns_server_type_of_code :: "u32 \<Rightarrow> dns_server_type" where
  "dns_server_type_of_code t =
     (if t = 0 then SERVER_UDP else if t = 1 then SERVER_TCP else if t = 2 then SERVER_TLS
      else if t = 3 then SERVER_HTTPS else if t = 4 then SERVER_QUIC else if t = 5 then SERVER_HTTP3
      else if t = 6 then SERVER_MDNS else SERVER_UNKNOWN)"

definition dns_server_type_of_text :: "ustr \<Rightarrow> (ustr, dns_server_type) result" where
  "dns_server_type_of_text t =
     (if t = lit ''udp'' then Inr SERVER_UDP else if t = lit ''tcp'' then Inr SERVER_TCP
      else if t = lit ''tls'' then Inr SERVER_TLS else if t = lit ''https'' then Inr SERVER_HTTPS
      else if t = lit ''quic'' then Inr SERVER_QUIC else if t = lit ''http3'' then Inr SERVER_HTTP3
      else if t = lit ''mdns'' then Inr SERVER_MDNS else Inl (lit ''unknown''))"

fun dns_server_type_text :: "dns_server_type \<Rightarrow> ustr" where
  "dns_server_type_text SERVER_UDP = lit ''udp''"
| "dns_server_type_text SERVER_TCP = lit ''tcp''"
| "dns_server_type_text SERVER_TLS = lit ''tls''"
| "dns_server_type_text SERVER_HTTPS = lit ''https''"
| "dns_server_type_text SERVER_QUIC = lit ''quic''"
| "dns_server_type_text SERVER_HTTP3 = lit ''http3''"
| "dns_server_type_text SERVER_MDNS = lit ''mdns''"
| "dns_server_type_text SERVER_UNKNOWN = lit ''unknown''"

lemma dns_server_type_round:
  "dns_server_type_of_text (dns_server_type_text t) =
     (if t = SERVER_UNKNOWN then Inl (lit ''unknown'') else Inr t)"
  by (cases t) (simp_all add: dns_server_type_of_text_def)

section \<open>Trust states\<close>

datatype trust_status =
  TRUST_UNKNOW | TRUST_NOT_APPLICABLE | TRUST_VERIFY_FAILED | TRUST_INSECURE | TRUST_SECURE

definition trust_status_of_code :: "u32 \<Rightarrow> trust_status" where
  "trust_status_of_code t =
     (if t = 1 then TRUST_NOT_APPLICABLE else if t = 2 then TRUST_VERIFY_FAILED
      else if t = 3 then TRUST_INSECURE else if t = 4 then TRUST_SECURE else TRUST_UNKNOW)"

fun trust_status_text :: "trust_status \<Rightarrow> ustr" where
  "trust_status_text TRUST_UNKNOW = lit ''Unknown''"
| "trust_status_text TRUST_NOT_APPLICABLE = lit ''Not Applicable''"
| "trust_status_text TRUST_VERIFY_FAILED = lit ''Verify Failed''"
| "trust_status_text TRUST_INSECURE = lit ''Insecure''"
| "trust_status_text TRUST_SECURE = lit ''Secure''"

section \<open>Upstream servers\<close>

record upstream_server_info =
  us_host :: ustr
  us_ip :: ustr
  us_port :: u16
  us_server_type :: dns_server_type
  us_total_query_count :: u64
  us_total_query_success :: u64
  us_total_query_recv_count :: u64
  us_query_success_rate :: f64
  us_avg_time :: f64
  us_status :: ustr
  us_security :: ustr

text \<open>What the C library answers for one upstream and its statistics, as its getters return it.
  \<open>round10\<close> rounds to a tenth, \<open>percent\<close> is the rounded percentage of two counts, computed in
  floating point.\<close>

record c_server_info =
  cs_host :: ustr
  cs_ip :: ustr
  cs_port :: i32
  cs_type :: u32
  cs_security :: u32
  cs_alive :: i32
  cs_total :: u64
  cs_success :: u64
  cs_recv :: u64
  cs_avg_time :: f64

definition get_success_rate :: "(u64 \<Rightarrow> u64 \<Rightarrow> f64) \<Rightarrow> c_server_info \<Rightarrow> f64" where
  "get_success_rate percent c = (if cs_total c = 0 then 0 else percent (cs_success c) (cs_total c))"

definition get_query_avg_time :: "(f64 \<Rightarrow> f64) \<Rightarrow> c_server_info \<Rightarrow> f64" where
  "get_query_avg_time round10 c = round10 (cs_avg_time c)"

definition is_server_alive :: "c_server_info \<Rightarrow> bool" where
  "is_server_alive c \<longleftrightarrow> cs_alive c \<noteq> 0"

definition get_server_port :: "c_server_info \<Rightarrow> u16" where
  "get_server_port c = ucast (cs_port c)"

definition upstream_info :: "(u64 \<Rightarrow> u64 \<Rightarrow> f64) \<Rightarrow> (f64 \<Rightarrow> f64) \<Rightarrow> c_server_info \<Rightarrow> upstream_server_info" where
  "upstream_info percent round10 c =
     \<lparr>us_host = cs_host c, us_ip = cs_ip c, us_port = get_server_port c,
      us_server_type = dns_server_type_of_code (cs_type c),
      us_total_query_count = cs_total c, us_total_query_success = cs_success c,
      us_total_query_recv_count = cs_recv c, us_query_success_rate = get_success_rate percent c,
      us_avg_time = get_query_avg_time round10 c,
      us_status =
        (if cs_total c = 0 then lit ''Unknown'' else if is_server_alive c then lit ''Normal'' else lit ''Abnormal''),
      us_security = trust_status_text (trust_status_of_code (cs_security c))\<rparr>"

end
