(* ===== verification/Utils.thy ===== *)
theory Utils
  imports Smartdns_Types
begin

text \<open>
  The helpers of \<open>src/src/utils.rs\<close>: bounded numbers from settings, the time to the next full hour,
  and the wrappers around the system calls and the password library, whose answers are arguments.
\<close>

section \<open>Reading a bounded number\<close>

text \<open>\<open>parse_value\<close> at the unsigned types it is used at, \<open>u64\<close> and \<open>u32\<close>.\<close>

definition parse_value :: "ustr option \<Rightarrow> 'w::len word \<Rightarrow> 'w word \<Rightarrow> 'w word \<Rightarrow> 'w word" where
  "parse_value value lo hi dflt =
     (case value of
        None \<Rightarrow> dflt
      | Some s \<Rightarrow>
          (case parse_uint (2 ^ LENGTH('w)) s of
             None \<Rightarrow> dflt
           | Some n \<Rightarrow>
               (let v = of_nat n;
                    v = (if v < lo then lo else v)
                in if hi < v then hi else v)))"

lemma parse_value_range:
  assumes "lo \<le> dflt" "dflt \<le> hi"
  shows "lo \<le> parse_value value lo hi dflt \<and> parse_value value lo hi dflt \<le> hi"
  using assms by (auto simp: parse_value_def Let_def split: option.split)

section \<open>The clock\<close>

text \<open>\<open>chrono\<close> gives minutes and seconds below 60, also in a leap second.\<close>

definition seconds_until_next_hour :: "u32 \<Rightarrow> u32 \<Rightarrow> u64" where
  "seconds_until_next_hour minutes seconds = 3600 - ucast (minutes * 60 + seconds)"

lemma seconds_until_next_hour_range:
  assumes "minutes < 60" "seconds < 60"
  shows "unat (seconds_until_next_hour minutes seconds) = 3600 - (unat minutes * 60 + unat seconds)"
    "0 < unat (seconds_until_next_hour minutes seconds)"
proof -
  have b: "unat minutes < 60" "unat seconds < 60"
    using assms by (simp_all add: word_less_nat_alt)
  then have s: "unat (minutes * 60 + seconds) = unat minutes * 60 + unat seconds"
    by (simp add: unat_word_ariths)
  then have u: "unat (ucast (minutes * 60 + seconds) :: u64) = unat minutes * 60 + unat seconds"
    using b by (simp add: unsigned_ucast_eq take_bit_nat_eq_self)
  then have "(ucast (minutes * 60 + seconds) :: u64) \<le> 3600" using b by (simp add: word_le_nat_alt)
  then show "unat (seconds_until_next_hour minutes seconds) = 3600 - (unat minutes * 60 + unat seconds)"
    unfolding seconds_until_next_hour_def by (simp add: unat_sub u)
  then show "0 < unat (seconds_until_next_hour minutes seconds)" using b by simp
qed

section \<open>The system\<close>

text \<open>\<open>CString::new\<close> of a path with a zero character is an error, and the program panics: \<open>None\<close>.\<close>

definition c_string :: "ustr \<Rightarrow> ustr option" where
  "c_string s = (if 0 \<in> set s then None else Some s)"

text \<open>\<open>statvfs\<close>: its value and the block size and free blocks it leaves in the structure.\<close>

definition get_free_disk_space :: "(ustr \<Rightarrow> i32 \<times> u64 \<times> u64) \<Rightarrow> ustr \<Rightarrow> u64 option" where
  "get_free_disk_space statvfs path =
     map_option (\<lambda>path. case statvfs path of (ret, bsize, bavail) \<Rightarrow>
       if ret \<noteq> 0 then 0 else bsize * bavail) (c_string path)"

definition is_dir_writable :: "(ustr \<Rightarrow> i32) \<Rightarrow> ustr \<Rightarrow> bool option" where
  "is_dir_writable access path = map_option (\<lambda>path. access path = 0) (c_string path)"

definition is_ipv6_supported :: "i32 \<Rightarrow> bool" where
  "is_ipv6_supported sock \<longleftrightarrow> \<not> sint sock < 0"

text \<open>A negative answer of \<open>sysconf\<close> becomes a huge page size.\<close>

definition get_page_size :: "i64 \<Rightarrow> u64" where
  "get_page_size answer = ucast answer"

section \<open>Passwords\<close>

text \<open>The library hashes with a number of rounds and a salt, parses a hash and checks a password.\<close>

record 'h password_lib =
  pw_hash :: "ustr \<Rightarrow> u32 \<Rightarrow> ustr \<Rightarrow> (ustr, ustr) result"
  pw_parse :: "ustr \<Rightarrow> (ustr, 'h) result"
  pw_verify :: "ustr \<Rightarrow> 'h \<Rightarrow> (ustr, unit) result"

definition hash_password :: "'h password_lib \<Rightarrow> ustr \<Rightarrow> ustr \<Rightarrow> u32 option \<Rightarrow> (ustr, ustr) result" where
  "hash_password lib salt password round =
     pw_hash lib password (case round of None \<Rightarrow> 10000 | Some r \<Rightarrow> r) salt"

definition generate_secret :: "ustr \<Rightarrow> ustr" where
  "generate_secret salt = salt"

definition verify_password :: "'h password_lib \<Rightarrow> ustr \<Rightarrow> ustr \<Rightarrow> bool" where
  "verify_password lib password password_hash =
     (case pw_parse lib password_hash of
        Inl e \<Rightarrow> False
      | Inr parsed_hash \<Rightarrow> (case pw_verify lib password parsed_hash of Inl e \<Rightarrow> False | Inr _ \<Rightarrow> True))"

text \<open>A stored hash that is none, an empty or plain-text one for instance, admits no password.\<close>

lemma malformed_hash_admits_nothing: "pw_parse lib h = Inl e \<Longrightarrow> \<not> verify_password lib p h"
  by (simp add: verify_password_def)

end
