(* ===== verification/Server_Data.thy ===== *)
theory Server_Data
  imports Utils
begin

text \<open>
  The data of \<open>src/src/data_server.rs\<close> that crosses the HTTP interface (overview and metrics) and the
  configuration of the data server.
\<close>

record overview_data =
  od_server_name :: ustr
  od_db_size :: u64
  od_startup_timestamp :: u64
  od_free_disk_space :: u64
  od_is_process_suspended :: bool

record metrics_data =
  md_total_query_count :: u64
  md_block_query_count :: u64
  md_request_drop_count :: u64
  md_fail_query_count :: u64
  md_avg_query_time :: f64
  md_cache_hit_rate :: f64
  md_cache_number :: u64
  md_cache_memory_size :: u64
  md_qps :: u32
  md_memory_usage :: u64
  md_is_metrics_suspended :: bool

record data_server_config =
  dc_db_file :: ustr
  dc_data_path :: ustr
  dc_max_log_age_ms :: u64

section \<open>Configuration\<close>

definition default_max_log_age :: u64 where "default_max_log_age = 30 * 24 * 60 * 60"
definition default_max_log_age_ms :: u64 where "default_max_log_age_ms = default_max_log_age * 1000"
definition max_log_age_value_min :: u64 where "max_log_age_value_min = 600"
definition max_log_age_value_max :: u64 where "max_log_age_value_max = 365 * 24 * 60 * 60 * 10"
definition min_free_disk_space :: u64 where "min_free_disk_space = 1024 * 1024 * 8"
definition db_file_name :: ustr where "db_file_name = lit ''smartdns.db''"

definition new_data_server_config :: "ustr \<Rightarrow> data_server_config" where
  "new_data_server_config data_dir =
     \<lparr>dc_db_file = data_dir @ lit ''/'' @ db_file_name, dc_data_path = data_dir,
      dc_max_log_age_ms = default_max_log_age_ms\<rparr>"

text \<open>\<open>load_config\<close>: the new configuration,
  and the log level to set if the setting names one.\<close>

definition load_config ::
    "(ustr \<Rightarrow> ustr) \<Rightarrow> (ustr \<Rightarrow> ustr option) \<Rightarrow> data_server_config \<Rightarrow>
      data_server_config \<times> log_level option" where
  "load_config lower get_server_config conf =
     (conf\<lparr>dc_max_log_age_ms :=
        parse_value (get_server_config (lit ''smartdns-plus-ui.max-query-log-age''))
          max_log_age_value_min max_log_age_value_max default_max_log_age * 1000\<rparr>,
      case get_server_config (lit ''log-level'') of
        None \<Rightarrow> None
      | Some level \<Rightarrow> log_level_of_text lower level)"

lemma max_log_age_ms_range:
  "unat (dc_max_log_age_ms (fst (load_config lower get conf))) \<in> {600000..315360000000}"
proof -
  let ?v = "parse_value (get (lit ''smartdns-plus-ui.max-query-log-age''))
    max_log_age_value_min max_log_age_value_max default_max_log_age"
  have "max_log_age_value_min \<le> ?v \<and> ?v \<le> max_log_age_value_max"
    by (rule parse_value_range)
      (simp_all add: max_log_age_value_min_def max_log_age_value_max_def default_max_log_age_def)
  then have r: "600 \<le> unat ?v" "unat ?v \<le> 315360000"
    by (simp_all add: word_le_nat_alt max_log_age_value_min_def max_log_age_value_max_def)
  then have "unat (?v * 1000) = unat ?v * 1000"
    by (subst unat_mult_lem [THEN iffD1]) simp_all
  then show ?thesis using r by (simp add: load_config_def)
qed

end
