(* ===== verification/Db_Query.thy ===== *)
theory Db_Query
  imports Effects "HOL-Library.Multiset"
begin

text \<open>
  Queries of \<open>src/src/db.rs\<close>: the parameters of the list requests, the conditions, orders and
  bound parameters \<open>get_domain_sql_where\<close> and \<open>get_client_sql_where\<close> build,
    the pages the list
  requests cut out, and the meaning SQLite gives to the statements so built. A condition is the
  SQL text the code pushes; it is represented by a constructor, \<open>cond_text\<close> is the text, and
  \<open>domain_cond\<close> and \<open>client_cond\<close> say when a row satisfies it with its bound parameter.
  \<open>str::to_lowercase\<close> is the parameter \<open>lower\<close>.
\<close>

section \<open>Rows and request parameters\<close>

record client_data =
  cd_id :: u32
  cd_hostname :: ustr
  cd_client_ip :: ustr
  cd_mac :: ustr
  cd_last_query_timestamp :: u64

record domain_data =
  dd_id :: u64
  dd_timestamp :: u64
  dd_domain :: ustr
  dd_domain_type :: u32
  dd_client :: ustr
  dd_domain_group :: ustr
  dd_reply_code :: u16
  dd_query_time :: i32
  dd_ping_time :: f64
  dd_is_blocked :: bool
  dd_is_cached :: bool

record list_cursor =
  lc_id :: "u64 option"
  lc_total_count :: u64
  lc_direction :: ustr

record client_list_param =
  cp_id :: "u64 option"
  cp_order :: "ustr option"
  cp_page_num :: u64
  cp_page_size :: u64
  cp_client_ip :: "ustr option"
  cp_mac :: "ustr option"
  cp_hostname :: "ustr option"
  cp_timestamp_before :: "u64 option"
  cp_timestamp_after :: "u64 option"
  cp_cursor :: "list_cursor option"

record domain_list_param =
  dp_id :: "u64 option"
  dp_order :: "ustr option"
  dp_page_num :: u64
  dp_page_size :: u64
  dp_domain :: "ustr option"
  dp_domain_filter_mode :: "ustr option"
  dp_domain_type :: "u32 option"
  dp_client :: "ustr option"
  dp_domain_group :: "ustr option"
  dp_reply_code :: "u16 option"
  dp_timestamp_before :: "u64 option"
  dp_timestamp_after :: "u64 option"
  dp_is_blocked :: "bool option"
  dp_is_cached :: "bool option"
  dp_cursor :: "list_cursor option"

definition new_client_list_param :: client_list_param where
  "new_client_list_param =
     \<lparr>cp_id = None, cp_order = None, cp_page_num = 1, cp_page_size = 10, cp_client_ip = None,
      cp_mac = None, cp_hostname = None, cp_timestamp_before = None, cp_timestamp_after = None,
      cp_cursor = None\<rparr>"

definition new_domain_list_param :: domain_list_param where
  "new_domain_list_param =
     \<lparr>dp_id = None, dp_order = None, dp_page_num = 1, dp_page_size = 10, dp_domain = None,
      dp_domain_filter_mode = None, dp_domain_type = None, dp_client = None,
      dp_domain_group = None, dp_reply_code = None, dp_timestamp_before = None,
      dp_timestamp_after = None, dp_is_blocked = None, dp_is_cached = None, dp_cursor = None\<rparr>"

section \<open>Conditions\<close>

datatype sql_cond =
    Id_Eq | Id_Lt | Id_Gt
  | Domain_Like | Domain_Eq | Domain_Not_Empty | Domain_Type_Eq | Client_Eq | Domain_Group_Eq
  | Reply_Code_Eq | Timestamp_Le | Timestamp_Ge | Is_Blocked bool | Is_Cached bool
  | Client_Ip_Eq | Mac_Eq | Hostname_Eq | Last_Query_Le | Last_Query_Ge

fun cond_text :: "sql_cond \<Rightarrow> ustr" where
  "cond_text Id_Eq = lit ''id = ?''"
| "cond_text Id_Lt = lit ''id < ?''"
| "cond_text Id_Gt = lit ''id > ?''"
| "cond_text Domain_Like = lit ''domain LIKE ?''"
| "cond_text Domain_Eq = lit ''domain = ?''"
| "cond_text Domain_Not_Empty = (lit ''domain IS NOT NULL AND domain <> '' @ [39, 39])"
| "cond_text Domain_Type_Eq = lit ''domain_type = ?''"
| "cond_text Client_Eq = lit ''client = ?''"
| "cond_text Domain_Group_Eq = lit ''domain_group = ?''"
| "cond_text Reply_Code_Eq = lit ''reply_code = ?''"
| "cond_text Timestamp_Le = lit ''timestamp <= ?''"
| "cond_text Timestamp_Ge = lit ''timestamp >= ?''"
| "cond_text (Is_Blocked b) = (if b then lit ''is_blocked = 1'' else lit ''is_blocked = 0'')"
| "cond_text (Is_Cached b) = (if b then lit ''is_cached = 1'' else lit ''is_cached = 0'')"
| "cond_text Client_Ip_Eq = lit ''client_ip = ?''"
| "cond_text Mac_Eq = lit ''mac = ?''"
| "cond_text Hostname_Eq = lit ''hostname = ?''"
| "cond_text Last_Query_Le = lit ''last_query_timestamp <= ?''"
| "cond_text Last_Query_Ge = lit ''last_query_timestamp >= ?''"

fun cond_binds :: "sql_cond \<Rightarrow> bool" where
  "cond_binds Domain_Not_Empty = False"
| "cond_binds (Is_Blocked b) = False"
| "cond_binds (Is_Cached b) = False"
| "cond_binds c = True"

text \<open>The builder: \<open>sql_where\<close>, \<open>sql_param\<close>,
  \<open>order_timestamp_first\<close> and
  \<open>cusor_with_timestamp\<close>.\<close>

record sql_build =
  sb_where :: "sql_cond list"
  sb_param :: "ustr list"
  sb_ts_first :: bool
  sb_cursor_ts :: bool

definition push_cond :: "sql_cond \<Rightarrow> ustr list \<Rightarrow> sql_build \<Rightarrow> sql_build" where
  "push_cond c ps b = b\<lparr>sb_where := sb_where b @ [c], sb_param := sb_param b @ ps\<rparr>"

definition by_id :: "sql_build \<Rightarrow> sql_build" where
  "by_id b = b\<lparr>sb_ts_first := False\<rparr>"

definition push_opt :: "sql_cond \<Rightarrow> ('a \<Rightarrow> ustr) \<Rightarrow> 'a option \<Rightarrow> sql_build \<Rightarrow> sql_build" where
  "push_opt c f v b = (case v of None \<Rightarrow> b | Some x \<Rightarrow> push_cond c [f x] b)"

definition push_exact :: "sql_cond \<Rightarrow> ('a \<Rightarrow> ustr) \<Rightarrow> 'a option \<Rightarrow> sql_build \<Rightarrow> sql_build" where
  "push_exact c f v b = (case v of None \<Rightarrow> b | Some x \<Rightarrow> by_id (push_cond c [f x] b))"

definition push_flag :: "(bool \<Rightarrow> sql_cond) \<Rightarrow> bool option \<Rightarrow> sql_build \<Rightarrow> sql_build" where
  "push_flag c v b = (case v of None \<Rightarrow> b | Some x \<Rightarrow> by_id (push_cond (c x) [] b))"

definition order_is_asc :: "ustr option \<Rightarrow> (ustr, bool) result" where
  "order_is_asc ord =
     (case ord of None \<Rightarrow> Inr False
      | Some v \<Rightarrow> if eq_ignore_ascii_case v (lit ''asc'') then Inr True
          else if eq_ignore_ascii_case v (lit ''desc'') then Inr False
          else Inl (lit ''order param error''))"

definition cursor_is_next :: "list_cursor option \<Rightarrow> (ustr, bool) result" where
  "cursor_is_next cur =
     (case cur of None \<Rightarrow> Inr True
      | Some v \<Rightarrow> if eq_ignore_ascii_case (lc_direction v) (lit ''prev'') then Inr False
          else if eq_ignore_ascii_case (lc_direction v) (lit ''next'') then Inr True
          else Inl (lit ''cursor direction param error''))"

definition domain_filter ::
    "(ustr \<Rightarrow> ustr) \<Rightarrow> ustr option \<Rightarrow> ustr option \<Rightarrow> sql_build \<Rightarrow> (ustr, sql_build) result" where
  "domain_filter lower pat mode b =
     (case pat of None \<Rightarrow> Inr b
      | Some v \<Rightarrow> (case mode of
          None \<Rightarrow> Inr (by_id (push_cond Domain_Eq [v] b))
        | Some m \<Rightarrow>
            (let m' = lower m in
             if m' = lit ''endswith'' then Inr (push_cond Domain_Like [v @ [37]] b)
             else if m' = lit ''startswith'' then Inr (push_cond Domain_Like [37 # v] b)
             else if m' = lit ''contains'' then Inr (push_cond Domain_Like [37 # v @ [37]] b)
             else if m' = lit ''equals'' then Inr (push_cond Domain_Eq [v] b)
             else if m' = lit ''notempty'' then Inr (push_cond Domain_Not_Empty [] b)
             else Inl (lit ''domain_filter_mode param error''))))"

text \<open>A time bound; with a cursor going the same way the bound is replaced by the cursor's id.\<close>

definition time_bound ::
    "sql_cond \<Rightarrow> sql_cond \<Rightarrow> bool \<Rightarrow> list_cursor option \<Rightarrow> u64 option \<Rightarrow> sql_build \<Rightarrow> sql_build" where
  "time_bound by_time by_cursor towards cur v b =
     (case v of None \<Rightarrow> b
      | Some t \<Rightarrow>
          (case (if towards then Option.bind cur lc_id else None) of
             Some i \<Rightarrow> (by_id (push_cond by_cursor [show_u i] b))\<lparr>sb_cursor_ts := True\<rparr>
           | None \<Rightarrow> push_cond by_time [show_u t] b))"

definition cursor_bound :: "bool \<Rightarrow> bool \<Rightarrow> list_cursor option \<Rightarrow> sql_build \<Rightarrow> sql_build" where
  "cursor_bound prev desc cur b =
     (if sb_cursor_ts b then b else
      case Option.bind cur lc_id of
        None \<Rightarrow> b
      | Some i \<Rightarrow>
          by_id (push_cond
            (if prev then (if desc then Id_Gt else Id_Lt) else (if desc then Id_Lt else Id_Gt))
            [show_u i] b))"

definition order_text :: "ustr \<Rightarrow> bool \<Rightarrow> bool \<Rightarrow> ustr" where
  "order_text col desc ts_first =
     (if desc
      then if ts_first then lit '' ORDER BY '' @ col @ lit '' DESC, id DESC''
           else lit '' ORDER BY id DESC, '' @ col @ lit '' DESC''
      else if ts_first then lit '' ORDER BY '' @ col @ lit '' ASC, id ASC''
           else lit '' ORDER BY id ASC, '' @ col @ lit '' ASC'')"

definition where_text :: "sql_cond list \<Rightarrow> ustr" where
  "where_text cs =
     (if cs = [] then [] else lit '' WHERE '' @ join (lit '' AND '') (map cond_text cs))"

section \<open>The two builders\<close>

text \<open>\<open>domain_where\<close> is \<open>get_domain_sql_where\<close> before the texts are joined: the conditions with
  their parameters, and whether the order is descending and by timestamp first.\<close>

definition domain_where ::
    "(ustr \<Rightarrow> ustr) \<Rightarrow> domain_list_param \<Rightarrow> (ustr,
      sql_build \<times> bool) result" where
  "domain_where lower p =
     (let b0 = push_exact Id_Eq show_u (dp_id p)
                 \<lparr>sb_where = [], sb_param = [], sb_ts_first = True, sb_cursor_ts = False\<rparr>
      in bind_result (order_is_asc (dp_order p)) (\<lambda>prev.
         bind_result (cursor_is_next (dp_cursor p)) (\<lambda>desc.
         bind_result (domain_filter lower (dp_domain p) (dp_domain_filter_mode p) b0) (\<lambda>b1.
         let b2 = push_exact Domain_Type_Eq show_u (dp_domain_type p) b1;
             b3 = push_exact Client_Eq id (dp_client p) b2;
             b4 = push_exact Domain_Group_Eq id (dp_domain_group p) b3;
             b5 = push_exact Reply_Code_Eq show_u (dp_reply_code p) b4;
             b6 = time_bound Timestamp_Le Id_Lt (desc \<or> prev) (dp_cursor p) (dp_timestamp_before p) b5;
             b7 = time_bound Timestamp_Ge Id_Gt (\<not> desc \<or> prev) (dp_cursor p) (dp_timestamp_after p) b6;
             b8 = cursor_bound prev desc (dp_cursor p) b7;
             b9 = push_flag Is_Blocked (dp_is_blocked p) b8;
             b10 = push_flag Is_Cached (dp_is_cached p) b9
         in Inr (b10, if prev then \<not> desc else desc)))))"

definition sql_texts :: "ustr \<Rightarrow> sql_build \<times> bool \<Rightarrow> ustr \<times> ustr \<times> ustr list" where
  "sql_texts col r =
     (where_text (sb_where (fst r)), order_text col (snd r) (sb_ts_first (fst r)), sb_param (fst r))"

definition get_domain_sql_where ::
    "(ustr \<Rightarrow> ustr) \<Rightarrow> domain_list_param option \<Rightarrow> (ustr,
      ustr \<times> ustr \<times> ustr list) result" where
  "get_domain_sql_where lower param =
     (case param of None \<Rightarrow> Inr ([], [], [])
      | Some p \<Rightarrow> bind_result (domain_where lower p) (\<lambda>r. Inr (sql_texts (lit ''timestamp'') r)))"

definition client_where :: "client_list_param \<Rightarrow> (ustr, sql_build \<times> bool) result" where
  "client_where p =
     (let b0 = push_exact Id_Eq show_u (cp_id p)
                 \<lparr>sb_where = [], sb_param = [], sb_ts_first = False, sb_cursor_ts = False\<rparr>
      in bind_result (order_is_asc (cp_order p)) (\<lambda>prev.
         bind_result (cursor_is_next (cp_cursor p)) (\<lambda>desc.
         let b1 = push_opt Client_Ip_Eq id (cp_client_ip p) b0;
             b2 = push_opt Mac_Eq id (cp_mac p) b1;
             b3 = push_opt Hostname_Eq id (cp_hostname p) b2;
             b4 = time_bound Last_Query_Le Id_Lt (desc \<or> prev) (cp_cursor p) (cp_timestamp_before p) b3;
             b5 = time_bound Last_Query_Ge Id_Gt (\<not> desc \<or> prev) (cp_cursor p) (cp_timestamp_after p) b4;
             b6 = cursor_bound prev desc (cp_cursor p) b5
         in Inr (b6, desc))))"

definition get_client_sql_where ::
    "client_list_param option \<Rightarrow> (ustr, ustr \<times> ustr \<times> ustr list) result" where
  "get_client_sql_where param =
     (case param of None \<Rightarrow> Inr ([], [], [])
      | Some p \<Rightarrow> bind_result (client_where p) (\<lambda>r. Inr (sql_texts (lit ''last_query_timestamp'') r)))"

section \<open>The page of a list request\<close>

text \<open>\<open>page_clause\<close> is the LIMIT clause of \<open>get_domain_list\<close> and \<open>get_client_list\<close> with its
  parameters, and whether the rows are reversed afterwards. \<open>(page_num - 1) * page_size\<close> is
  64-bit arithmetic.\<close>

definition page_clause :: "u64 \<Rightarrow> u64 \<Rightarrow> list_cursor option \<Rightarrow> ustr \<times> ustr list" where
  "page_clause num per cur =
     (if Option.bind cur lc_id \<noteq> None then (lit '' LIMIT ?'', [show_u per])
      else (lit '' LIMIT ? OFFSET ?'', [show_u per, show_u ((num - 1) * per)]))"

definition cursor_reverse :: "list_cursor option \<Rightarrow> bool" where
  "cursor_reverse cur =
     (case cur of None \<Rightarrow> False | Some c \<Rightarrow> eq_ignore_ascii_case (lc_direction c) (lit ''prev''))"

definition select_domain :: ustr where
  "select_domain =
     lit ''SELECT id, timestamp, domain, domain_type, client, domain_group, reply_code, '' @
     lit ''query_time, ping_time, is_blocked, is_cached FROM domain''"

definition select_client :: ustr where
  "select_client = lit ''SELECT id, client_ip, mac, hostname, last_query_timestamp FROM client''"

definition domain_list_sql ::
    "(ustr \<Rightarrow> ustr) \<Rightarrow> domain_list_param option \<Rightarrow> (ustr,
      ustr \<times> ustr list) result" where
  "domain_list_sql lower param =
     bind_result (get_domain_sql_where lower param) (\<lambda>(w, ord, ps).
       let sql = select_domain @ w @ ord
       in Inr (case param of None \<Rightarrow> (sql, ps)
          | Some p \<Rightarrow>
              (let (lim, lps) = page_clause (dp_page_num p) (dp_page_size p) (dp_cursor p)
               in (sql @ lim, ps @ lps))))"

definition client_list_sql ::
    "client_list_param option \<Rightarrow> (ustr, ustr \<times> ustr list) result" where
  "client_list_sql param =
     bind_result (get_client_sql_where param) (\<lambda>(w, ord, ps).
       let sql = select_client @ w @ ord
       in Inr (case param of None \<Rightarrow> (sql, ps)
          | Some p \<Rightarrow>
              (let (lim, lps) = page_clause (cp_page_num p) (cp_page_size p) (cp_cursor p)
               in (sql @ lim, ps @ lps))))"

section \<open>What the statements mean\<close>

text \<open>SQLite's LIKE: \<open>%\<close> (37) matches any text, \<open>_\<close> (95) one character,
  other characters
  match without regard to ASCII case.\<close>

fun like :: "ustr \<Rightarrow> ustr \<Rightarrow> bool" where
  "like [] s = (s = [])"
| "like (p # ps) [] = (p = 37 \<and> like ps [])"
| "like (p # ps) (c # s) =
     (if p = 37 then like ps (c # s) \<or> like (p # ps) s
      else (p = 95 \<or> ascii_lower p = ascii_lower c) \<and> like ps s)"

fun domain_cond :: "sql_cond \<Rightarrow> ustr \<Rightarrow> domain_data \<Rightarrow> bool" where
  "domain_cond Id_Eq v d = (unat (dd_id d) = dec_value v)"
| "domain_cond Id_Lt v d = (unat (dd_id d) < dec_value v)"
| "domain_cond Id_Gt v d = (unat (dd_id d) > dec_value v)"
| "domain_cond Domain_Like v d = like v (dd_domain d)"
| "domain_cond Domain_Eq v d = (dd_domain d = v)"
| "domain_cond Domain_Not_Empty v d = (dd_domain d \<noteq> [])"
| "domain_cond Domain_Type_Eq v d = (unat (dd_domain_type d) = dec_value v)"
| "domain_cond Client_Eq v d = (dd_client d = v)"
| "domain_cond Domain_Group_Eq v d = (dd_domain_group d = v)"
| "domain_cond Reply_Code_Eq v d = (unat (dd_reply_code d) = dec_value v)"
| "domain_cond Timestamp_Le v d = (unat (dd_timestamp d) \<le> dec_value v)"
| "domain_cond Timestamp_Ge v d = (unat (dd_timestamp d) \<ge> dec_value v)"
| "domain_cond (Is_Blocked b) v d = (dd_is_blocked d = b)"
| "domain_cond (Is_Cached b) v d = (dd_is_cached d = b)"
| "domain_cond _ v d = False"

fun client_cond :: "sql_cond \<Rightarrow> ustr \<Rightarrow> client_data \<Rightarrow> bool" where
  "client_cond Id_Eq v d = (unat (cd_id d) = dec_value v)"
| "client_cond Id_Lt v d = (unat (cd_id d) < dec_value v)"
| "client_cond Id_Gt v d = (unat (cd_id d) > dec_value v)"
| "client_cond Client_Ip_Eq v d = (cd_client_ip d = v)"
| "client_cond Mac_Eq v d = (cd_mac d = v)"
| "client_cond Hostname_Eq v d = (cd_hostname d = v)"
| "client_cond Last_Query_Le v d = (unat (cd_last_query_timestamp d) \<le> dec_value v)"
| "client_cond Last_Query_Ge v d = (unat (cd_last_query_timestamp d) \<ge> dec_value v)"
| "client_cond _ v d = False"

text \<open>The conditions of a WHERE clause take their bound parameters from left to right.\<close>

fun conds_hold ::
    "(sql_cond \<Rightarrow> ustr \<Rightarrow> 'r \<Rightarrow> bool) \<Rightarrow> sql_cond list \<Rightarrow> ustr list \<Rightarrow> 'r \<Rightarrow> bool" where
  "conds_hold sem [] ps r = True"
| "conds_hold sem (c # cs) ps r =
     (if cond_binds c
      then (case ps of [] \<Rightarrow> False | p # ps' \<Rightarrow> sem c p r \<and> conds_hold sem cs ps' r)
      else sem c [] r \<and> conds_hold sem cs ps r)"

definition order_rows ::
    "('r \<Rightarrow> u64) \<Rightarrow> ('r \<Rightarrow> nat) \<Rightarrow> bool \<Rightarrow> bool \<Rightarrow> 'r list \<Rightarrow> 'r list" where
  "order_rows time key desc ts_first rows =
     (let asc = (if ts_first then sort_key time (sort_key key rows)
                 else sort_key key (sort_key time rows))
      in if desc then rev asc else asc)"

text \<open>LIMIT and OFFSET accept what fits a signed 64-bit integer; another value is an error of the
  first step, which the row loop of the list requests skips.\<close>

definition sql_int :: "ustr \<Rightarrow> nat option" where
  "sql_int s = (if dec_value s < 2 ^ 63 then Some (dec_value s) else None)"

fun limit_rows :: "ustr list \<Rightarrow> 'r list \<Rightarrow> 'r list" where
  "limit_rows [n] rows = (case sql_int n of None \<Rightarrow> [] | Some k \<Rightarrow> take k rows)"
| "limit_rows [n, off] rows =
     (case sql_int n of None \<Rightarrow> [] | Some k \<Rightarrow>
        (case sql_int off of None \<Rightarrow> [] | Some j \<Rightarrow> take k (drop j rows)))"
| "limit_rows _ rows = []"

record domain_list_result =
  qd_domain_list :: "domain_data list"
  qd_total_count :: u64
  qd_step_by_cursor :: bool

record client_list_result =
  qc_client_list :: "client_data list"
  qc_total_count :: u64
  qc_step_by_cursor :: bool

text \<open>The rows of one page: selected, ordered, cut and reversed as the request says.\<close>

definition select_page ::
    "(sql_cond \<Rightarrow> ustr \<Rightarrow> 'r \<Rightarrow> bool) \<Rightarrow> ('r \<Rightarrow> u64) \<Rightarrow> ('r \<Rightarrow> nat) \<Rightarrow> sql_build \<times> bool \<Rightarrow>
      u64 \<Rightarrow> u64 \<Rightarrow> list_cursor option \<Rightarrow> 'r list \<Rightarrow> 'r list" where
  "select_page sem time key r num per cur rows =
     (let found = filter (conds_hold sem (sb_where (fst r)) (sb_param (fst r))) rows;
          page = limit_rows (snd (page_clause num per cur))
                   (order_rows time key (snd r) (sb_ts_first (fst r)) found)
      in if cursor_reverse cur then rev page else page)"

text \<open>\<open>get_domain_list_count\<close>: the same conditions,
  no page; a rejected parameter counts all.\<close>

definition domain_list_count ::
    "(ustr \<Rightarrow> ustr) \<Rightarrow> domain_list_param option \<Rightarrow> domain_data list \<Rightarrow> u64" where
  "domain_list_count lower param rows =
     (case param of None \<Rightarrow> of_nat (length rows)
      | Some p \<Rightarrow> (case domain_where lower p of
          Inl e \<Rightarrow> of_nat (length rows)
        | Inr r \<Rightarrow> of_nat (length (filter (conds_hold domain_cond (sb_where (fst r)) (sb_param (fst r))) rows))))"

definition domain_list ::
    "(ustr \<Rightarrow> ustr) \<Rightarrow> domain_list_param option \<Rightarrow> domain_data list \<Rightarrow>
      (ustr, domain_list_result) result" where
  "domain_list lower param rows =
     (case param of
        None \<Rightarrow> Inr \<lparr>qd_domain_list = rows, qd_total_count = 0,
          qd_step_by_cursor = False\<rparr>
      | Some p \<Rightarrow> bind_result (domain_where lower p) (\<lambda>r.
          let found = select_page domain_cond dd_timestamp (\<lambda>d. unat (dd_id d)) r (dp_page_num p) (dp_page_size p)
                        (dp_cursor p) rows
          in Inr (case dp_cursor p of
               Some c \<Rightarrow> \<lparr>qd_domain_list = found, qd_total_count = lc_total_count c,
                         qd_step_by_cursor = True\<rparr>
             | None \<Rightarrow> \<lparr>qd_domain_list = found,
               qd_total_count = domain_list_count lower param rows,
                        qd_step_by_cursor = False\<rparr>)))"

definition client_list_count :: "client_list_param option \<Rightarrow> client_data list \<Rightarrow> u64" where
  "client_list_count param rows =
     (case param of None \<Rightarrow> of_nat (length rows)
      | Some p \<Rightarrow> (case client_where p of
          Inl e \<Rightarrow> of_nat (length rows)
        | Inr r \<Rightarrow> of_nat (length (filter (conds_hold client_cond (sb_where (fst r)) (sb_param (fst r))) rows))))"

definition client_list ::
    "client_list_param option \<Rightarrow> client_data list \<Rightarrow> (ustr,
      client_list_result) result" where
  "client_list param rows =
     (case param of
        None \<Rightarrow> Inr \<lparr>qc_client_list = rows, qc_total_count = 0,
          qc_step_by_cursor = False\<rparr>
      | Some p \<Rightarrow> bind_result (client_where p) (\<lambda>r.
          let found = select_page client_cond cd_last_query_timestamp (\<lambda>c. unat (cd_id c)) r (cp_page_num p)
                        (cp_page_size p) (cp_cursor p) rows
          in Inr (case cp_cursor p of
               Some c \<Rightarrow> \<lparr>qc_client_list = found, qc_total_count = lc_total_count c,
                         qc_step_by_cursor = True\<rparr>
             | None \<Rightarrow> \<lparr>qc_client_list = found,
               qc_total_count = client_list_count param rows,
                        qc_step_by_cursor = False\<rparr>)))"

section \<open>Builders keep conditions and parameters in step\<close>

definition in_step :: "sql_build \<Rightarrow> bool" where
  "in_step b \<longleftrightarrow> length (filter cond_binds (sb_where b)) = length (sb_param b)"

definition selects :: "(sql_cond \<Rightarrow> ustr \<Rightarrow> 'r \<Rightarrow> bool) \<Rightarrow> sql_build \<Rightarrow> 'r \<Rightarrow> bool" where
  "selects sem b r \<longleftrightarrow> conds_hold sem (sb_where b) (sb_param b) r"

named_theorems build_simps \<open>effect of the builder's steps\<close>

lemma conds_hold_append:
  "length (filter cond_binds cs) = length ps \<Longrightarrow>
   conds_hold sem (cs @ ds) (ps @ qs) r \<longleftrightarrow> conds_hold sem cs ps r \<and> conds_hold sem ds qs r"
proof (induction cs arbitrary: ps)
  case (Cons c cs)
  show ?case
  proof (cases "cond_binds c")
    case True
    then obtain p ps' where "ps = p # ps'" using Cons.prems by (cases ps) auto
    then show ?thesis using True Cons by simp
  next
    case False
    then show ?thesis using Cons.IH [of ps] Cons.prems by simp
  qed
qed simp

lemma in_step_push:
  "in_step b \<Longrightarrow> length ps = (if cond_binds c then 1 else 0) \<Longrightarrow> in_step (push_cond c ps b)"
  by (simp add: in_step_def push_cond_def)

lemma selects_push:
  "in_step b \<Longrightarrow> selects sem (push_cond c ps b) r \<longleftrightarrow> selects sem b r \<and> conds_hold sem [c] ps r"
  by (simp add: in_step_def selects_def push_cond_def conds_hold_append)

lemma by_id_simps [build_simps]:
  "in_step (by_id b) = in_step b" "selects sem (by_id b) = selects sem b"
  "sb_ts_first (by_id b) = False" "sb_cursor_ts (by_id b) = sb_cursor_ts b"
  by (simp_all add: by_id_def in_step_def selects_def fun_eq_iff)

lemma cursor_ts_push [build_simps]: "sb_cursor_ts (push_cond c ps b) = sb_cursor_ts b"
  "sb_ts_first (push_cond c ps b) = sb_ts_first b"
  by (simp_all add: push_cond_def)

lemma set_cursor_ts_simps [build_simps]:
  "in_step (b\<lparr>sb_cursor_ts := v\<rparr>) = in_step b"
  "selects sem (b\<lparr>sb_cursor_ts := v\<rparr>) = selects sem b"
  by (simp_all add: in_step_def selects_def fun_eq_iff)

lemma push_opt_simps [build_simps]:
  assumes "in_step b" "cond_binds c"
  shows "in_step (push_opt c f v b)"
    "selects sem (push_opt c f v b) r \<longleftrightarrow> selects sem b r \<and> (\<forall>x. v = Some x \<longrightarrow> sem c (f x) r)"
    "sb_cursor_ts (push_opt c f v b) = sb_cursor_ts b"
    "sb_ts_first (push_opt c f v b) = sb_ts_first b"
  using assms by (auto simp: push_opt_def in_step_push selects_push build_simps split: option.splits)

lemma push_exact_simps [build_simps]:
  assumes "in_step b" "cond_binds c"
  shows "in_step (push_exact c f v b)"
    "selects sem (push_exact c f v b) r \<longleftrightarrow> selects sem b r \<and> (\<forall>x. v = Some x \<longrightarrow> sem c (f x) r)"
    "sb_cursor_ts (push_exact c f v b) = sb_cursor_ts b"
  using assms by (auto simp: push_exact_def in_step_push selects_push build_simps split: option.splits)

lemma push_flag_simps [build_simps]:
  assumes "in_step b" "\<And>x. \<not> cond_binds (c x)"
  shows "in_step (push_flag c v b)"
    "selects sem (push_flag c v b) r \<longleftrightarrow> selects sem b r \<and> (\<forall>x. v = Some x \<longrightarrow> sem (c x) [] r)"
    "sb_cursor_ts (push_flag c v b) = sb_cursor_ts b"
  using assms by (auto simp: push_flag_def in_step_push selects_push build_simps split: option.splits)

lemma time_bound_simps [build_simps]:
  assumes "in_step b" "cond_binds c" "cond_binds c'"
  shows "in_step (time_bound c c' towards cur v b)"
    "selects sem (time_bound c c' towards cur v b) r \<longleftrightarrow> selects sem b r \<and>
       (\<forall>t. v = Some t \<longrightarrow>
          (case (if towards then Option.bind cur lc_id else None) of
             Some i \<Rightarrow> sem c' (show_u i) r | None \<Rightarrow> sem c (show_u t) r))"
    "sb_cursor_ts (time_bound c c' towards cur v b) \<longleftrightarrow> sb_cursor_ts b \<or>
       (v \<noteq> None \<and> towards \<and> Option.bind cur lc_id \<noteq> None)"
  using assms by (auto simp: time_bound_def in_step_push selects_push build_simps split: option.splits)

lemma cursor_bound_simps [build_simps]:
  assumes "in_step b"
  shows "in_step (cursor_bound prev desc cur b)"
    "selects sem (cursor_bound prev desc cur b) r \<longleftrightarrow> selects sem b r \<and>
       (\<not> sb_cursor_ts b \<longrightarrow> (\<forall>i. Option.bind cur lc_id = Some i \<longrightarrow>
          sem (if prev = desc then Id_Gt else Id_Lt) (show_u i) r))"
  using assms by (auto simp: cursor_bound_def in_step_push selects_push build_simps split: option.splits)

lemma domain_filter_in_step:
  "domain_filter lower pat mode b = Inr b' \<Longrightarrow> in_step b \<Longrightarrow>
     in_step b' \<and> sb_cursor_ts b' = sb_cursor_ts b"
  by (auto simp: domain_filter_def Let_def in_step_push build_simps split: option.splits if_splits)

lemma in_step_empty [simp]:
  "in_step \<lparr>sb_where = [], sb_param = [], sb_ts_first = t, sb_cursor_ts = u\<rparr>"
  "selects sem \<lparr>sb_where = [], sb_param = [], sb_ts_first = t, sb_cursor_ts = u\<rparr> r"
  by (simp_all add: in_step_def selects_def)

lemma bind_result_Inr: "bind_result m f = Inr y \<longleftrightarrow> (\<exists>x. m = Inr x \<and> f x = Inr y)"
  by (auto simp: bind_result_def split: sum.splits)

lemma domain_where_in_step: "domain_where lower p = Inr (b, desc) \<Longrightarrow> in_step b"
  by (auto simp: domain_where_def Let_def bind_result_Inr build_simps
      dest!: domain_filter_in_step)

lemma client_where_in_step: "client_where p = Inr (b, desc) \<Longrightarrow> in_step b"
  by (auto simp: client_where_def Let_def bind_result_Inr build_simps)

section \<open>Text and parameters\<close>

text \<open>A condition has one placeholder if it binds a parameter and none otherwise.\<close>

lemma count_cond_text: "count_list (cond_text c) 63 = (if cond_binds c then 1 else 0)"
  by (cases c) (simp_all add: lit_Cons lit_def)

lemma count_join:
  "count_list (join sep xs) c =
     sum_list (map (\<lambda>x. count_list x c) xs) + (length xs - 1) * count_list sep c"
  by (induction xs rule: induct_list012) auto

lemma sum_binds: "(\<Sum>c\<leftarrow>cs. if cond_binds c then 1 else 0) = length (filter cond_binds cs)"
  by (induction cs) auto

lemma count_where_text: "count_list (where_text cs) 63 = length (filter cond_binds cs)"
  by (simp add: where_text_def count_join count_cond_text o_def sum_binds lit_Cons lit_def
      cong: map_cong)

lemma order_text_no_question: "63 \<notin> set col \<Longrightarrow> 63 \<notin> set (order_text col desc ts)"
  by (auto simp: order_text_def lit_def)
text \<open>Every statement text of a list request is put together from the fixed pieces of the
  source; request text never becomes SQL, it is only bound to a placeholder.\<close>

definition fixed_sql :: "ustr \<Rightarrow> ustr \<Rightarrow> ustr \<Rightarrow> bool" where
  "fixed_sql select col sql \<longleftrightarrow>
     (\<exists>cs desc first lim. lim \<in> set [lit '' LIMIT ?'', lit '' LIMIT ? OFFSET ?''] \<and>
        sql = select @ where_text cs @ order_text col desc first @ lim)"

lemma page_clause_cases:
  "page_clause num per cur = (lim, lps) \<Longrightarrow>
     lim \<in> set [lit '' LIMIT ?'', lit '' LIMIT ? OFFSET ?''] \<and> count_list lim 63 = length lps"
  by (auto simp: page_clause_def lit_def split: if_splits)

lemma built_sql_bound:
  assumes "in_step b" "63 \<notin> set select" "63 \<notin> set col" "page_clause num per cur = (lim, lps)"
  shows "fixed_sql select col
           (select @ where_text (sb_where b) @ order_text col desc (sb_ts_first b) @ lim) \<and>
         count_list (select @ where_text (sb_where b) @ order_text col desc (sb_ts_first b) @ lim) 63 =
           length (sb_param b @ lps)"
  using page_clause_cases [OF assms(4)] assms(1-3) order_text_no_question [of col desc "sb_ts_first b"]
  by (auto simp: fixed_sql_def count_where_text in_step_def)

lemma domain_list_sql_shape:
  assumes "domain_list_sql lower (Some p) = Inr (sql, ps)"
  shows "fixed_sql select_domain (lit ''timestamp'') sql \<and> count_list sql 63 = length ps"
proof -
  obtain b desc where w: "domain_where lower p = Inr (b, desc)"
    using assms by (auto simp: domain_list_sql_def get_domain_sql_where_def bind_result_Inr)
  obtain lim lps where l: "page_clause (dp_page_num p) (dp_page_size p) (dp_cursor p) = (lim, lps)"
    by fastforce
  have "63 \<notin> set select_domain" "63 \<notin> set (lit ''timestamp'')"
    by (simp_all add: select_domain_def lit_def)
  note b = built_sql_bound [OF domain_where_in_step [OF w] this l, of desc]
  have "sql = select_domain @ where_text (sb_where b) @ order_text (lit ''timestamp'') desc (sb_ts_first b) @ lim"
    "ps = sb_param b @ lps"
    using assms w l by (simp_all add: domain_list_sql_def get_domain_sql_where_def sql_texts_def)
  then show ?thesis using b by (simp only: )
qed

lemma client_list_sql_shape:
  assumes "client_list_sql (Some p) = Inr (sql, ps)"
  shows "fixed_sql select_client (lit ''last_query_timestamp'') sql \<and> count_list sql 63 = length ps"
proof -
  obtain b desc where w: "client_where p = Inr (b, desc)"
    using assms by (auto simp: client_list_sql_def get_client_sql_where_def bind_result_Inr)
  obtain lim lps where l: "page_clause (cp_page_num p) (cp_page_size p) (cp_cursor p) = (lim, lps)"
    by fastforce
  have "63 \<notin> set select_client" "63 \<notin> set (lit ''last_query_timestamp'')"
    by (simp_all add: select_client_def lit_def)
  note b = built_sql_bound [OF client_where_in_step [OF w] this l, of desc]
  have "sql = select_client @ where_text (sb_where b) @ order_text (lit ''last_query_timestamp'') desc (sb_ts_first b) @ lim"
    "ps = sb_param b @ lps"
    using assms w l by (simp_all add: client_list_sql_def get_client_sql_where_def sql_texts_def)
  then show ?thesis using b by (simp only: )
qed

text \<open>C22: The statement of a list request is put together from the fixed texts of the source,
  whatever texts the request carries, and has exactly one placeholder for each bound parameter.\<close>

theorem list_sql_placeholders:
  "domain_list_sql lower (Some p) = Inr (sql, ps) \<Longrightarrow>
   client_list_sql (Some q) = Inr (sql', ps') \<Longrightarrow>
     (fixed_sql select_domain (lit ''timestamp'') sql \<and> count_list sql 63 = length ps) \<and>
     (fixed_sql select_client (lit ''last_query_timestamp'') sql' \<and> count_list sql' 63 = length ps')"
  using domain_list_sql_shape client_list_sql_shape by blast

section \<open>LIKE patterns\<close>

definition plain_pattern :: "ustr \<Rightarrow> bool" where
  "plain_pattern v \<longleftrightarrow> 37 \<notin> set v \<and> 95 \<notin> set v"

lemma like_Nil [simp]: "like ps [] \<longleftrightarrow> (\<forall>p \<in> set ps. p = 37)"
  by (induction ps) auto

lemma like_percent: "like (37 # ps) s \<longleftrightarrow> (\<exists>a b. s = a @ b \<and> like ps b)"
proof (induction s)
  case (Cons c s)
  have "(\<exists>a b. c # s = a @ b \<and> like ps b) \<longleftrightarrow> like ps (c # s) \<or> (\<exists>a b. s = a @ b \<and> like ps b)"
    by (auto simp: Cons_eq_append_conv)
  then show ?case using Cons by simp
qed auto

lemma like_plain:
  "plain_pattern v \<Longrightarrow>
   like (v @ ps) s \<longleftrightarrow> (\<exists>a b. s = a @
     b \<and> eq_ignore_ascii_case v a \<and> like ps b)"
proof (induction v arbitrary: s)
  case Nil
  show ?case by (auto simp: eq_ignore_ascii_case_def)
next
  case (Cons p v)
  then have p: "p \<noteq> 37" "p \<noteq> 95" "plain_pattern v" by (auto simp: plain_pattern_def)
  show ?case
  proof (cases s)
    case Nil
    then show ?thesis using p by (auto simp: eq_ignore_ascii_case_def)
  next
    case (Cons c t)
    have "like (p # v @ ps) (c # t) \<longleftrightarrow> ascii_lower p = ascii_lower c \<and> like (v @
      ps) t"
      using p by simp
    also have "\<dots> \<longleftrightarrow> ascii_lower p = ascii_lower c \<and>
        (\<exists>a b. t = a @ b \<and> map ascii_lower v = map ascii_lower a \<and> like ps b)"
      using Cons.IH [OF p(3), of t] by (simp add: eq_ignore_ascii_case_def)
    also have "\<dots> \<longleftrightarrow> (\<exists>a b. c # t = a @
      b \<and> map ascii_lower (p # v) = map ascii_lower a \<and> like ps b)"
      (is "?l = ?r")
    proof
      assume ?l
      then obtain a b where "ascii_lower p = ascii_lower c" "t = a @ b"
        "map ascii_lower v = map ascii_lower a" "like ps b" by blast
      then have "c # t = (c # a) @ b \<and> map ascii_lower (p # v) = map ascii_lower (c # a) \<and> like ps b"
        by simp
      then show ?r by blast
    next
      assume ?r
      then show ?l by (auto simp: append_eq_Cons_conv Cons_eq_append_conv)
    qed
    finally show ?thesis using Cons by (simp add: eq_ignore_ascii_case_def)
  qed
qed

lemma like_starts:
  "plain_pattern v \<Longrightarrow> like (v @ [37]) s \<longleftrightarrow> (\<exists>a b. s = a @
    b \<and> eq_ignore_ascii_case v a)"
  using like_plain [of v "[37]" s] like_percent [of "[]"] by simp

lemma like_ends:
  "plain_pattern v \<Longrightarrow> like (37 # v) s \<longleftrightarrow> (\<exists>a b. s = a @
    b \<and> eq_ignore_ascii_case v b)"
  using like_plain [of v "[]"] by (simp add: like_percent)

lemma like_contains:
  "plain_pattern v \<Longrightarrow>
   like (37 # v @ [37]) s \<longleftrightarrow> (\<exists>a m b. s = a @ m @
     b \<and> eq_ignore_ascii_case v m)"
  by (simp add: like_percent like_plain) blast
section \<open>Pages of an ordered table\<close>

text \<open>Both lists are ordered by id once a cursor is used. \<open>id_order\<close> is that order,
  \<open>comes_before\<close> the order of two ids in it.\<close>

definition id_order :: "('r \<Rightarrow> nat) \<Rightarrow> bool \<Rightarrow> 'r list \<Rightarrow> 'r list" where
  "id_order key desc rows = (if desc then rev (sort_key key rows) else sort_key key rows)"

definition comes_before :: "bool \<Rightarrow> nat \<Rightarrow> nat \<Rightarrow> bool" where
  "comes_before desc a b = (if desc then b < a else a < b)"

lemma id_order_set [simp]: "set (id_order key desc rows) = set rows"
  "length (id_order key desc rows) = length rows"
  by (simp_all add: id_order_def)

lemma id_order_filter: "filter P (id_order key desc rows) = id_order key desc (filter P rows)"
  by (simp add: id_order_def filter_sort [symmetric] rev_filter)

lemma id_order_flip: "id_order key desc rows = rev (id_order key (\<not> desc) rows)"
  by (simp add: id_order_def)

lemma comes_before_flip: "comes_before desc a b = comes_before (\<not> desc) b a"
  by (simp add: comes_before_def)

lemma id_order_sorted:
  assumes "distinct (map key rows)"
  shows "sorted_wrt (\<lambda>x y. comes_before desc (key x) (key y)) (id_order key desc rows)"
proof -
  have "distinct (map key (sort_key key rows))"
    using assms by (simp add: distinct_map)
  then have "sorted_wrt (<) (map key (sort_key key rows))"
    by (simp add: strict_sorted_iff)
  then show ?thesis
    by (simp add: id_order_def comes_before_def sorted_wrt_map sorted_wrt_rev)
qed

lemma sort_key_any_order:
  assumes "distinct (map key xs)" "mset ys = mset xs"
  shows "sort_key key ys = sort_key key xs"
proof (rule sort_key_inj_key_eq)
  show "mset ys = mset (sort_key key xs)" using assms by simp
  show "inj_on key (set ys)" using assms by (metis distinct_map mset_eq_setD)
  show "sorted (map key (sort_key key xs))" by simp
qed

lemma order_rows_by_id:
  "distinct (map key rows) \<Longrightarrow> order_rows time key desc False rows = id_order key desc rows"
  using sort_key_any_order [of key rows "sort_key time rows"]
  by (simp add: order_rows_def id_order_def Let_def)

text \<open>In a list sorted by a strict order, what comes before and after the \<open>k\<close>th element is the
  list cut at \<open>k\<close>.\<close>

lemma sorted_cut:
  assumes "sorted_wrt r xs" "k < length xs" "\<And>x y. r x y \<Longrightarrow> \<not> r y x"
  shows "filter (\<lambda>x. r x (xs ! k)) xs = take k xs"
    and "filter (\<lambda>x. r (xs ! k) x) xs = drop (Suc k) xs"
proof -
  let ?a = "take k xs" and ?x = "xs ! k" and ?b = "drop (Suc k) xs"
  have xs: "xs = ?a @ ?x # ?b" using assms(2) by (rule id_take_nth_drop)
  have s0: "sorted_wrt r (?a @ ?x # ?b)" using assms(1) by (subst (asm) xs)
  have s: "\<forall>x \<in> set ?a. r x ?x" "\<forall>y \<in> set ?b. r ?x y" "\<not> r ?x ?x"
    using s0 assms(3) by (auto simp: sorted_wrt_append)
  have f: "filter (\<lambda>x. r x ?x) ?a = ?a" "filter (\<lambda>x. r x ?x) ?b = []"
    "filter (\<lambda>x. r ?x x) ?a = []" "filter (\<lambda>x. r ?x x) ?b = ?b"
    using s assms(3) by (auto simp: filter_empty_conv filter_id_conv)
  show "filter (\<lambda>x. r x ?x) xs = ?a" by (subst (2) xs) (simp only: filter_append filter.simps f s if_False append_Nil2)
  show "filter (\<lambda>x. r ?x x) xs = ?b" by (subst (2) xs) (simp only: filter_append filter.simps f s if_False append_Nil)
qed

text \<open>
  What a list request owes its client: the builder selects the wanted rows, beyond the cursor in
  the order it asks for, and that order is the requested one, turned round when stepping back.
  \<open>covered\<close> says for which requests the builder keeps this contract.
\<close>

locale keyset_pages =
  fixes sem :: "sql_cond \<Rightarrow> ustr \<Rightarrow> 'r \<Rightarrow> bool"
    and time :: "'r \<Rightarrow> u64"
    and key :: "'r \<Rightarrow> nat"
    and build :: "'p \<Rightarrow> (ustr, sql_build \<times> bool) result"
    and cursor :: "'p \<Rightarrow> list_cursor option"
    and covered :: "'p \<Rightarrow> bool"
    and ascending :: "'p \<Rightarrow> bool"
    and wanted :: "'p \<Rightarrow> 'r \<Rightarrow> bool"
  assumes build_selects:
      "\<lbrakk>build p = Inr (b, desc); covered p; Option.bind (cursor p) lc_id = Some i\<rbrakk> \<Longrightarrow>
        selects sem b r \<longleftrightarrow> wanted p r \<and> comes_before desc (unat i) (key r)"
    and build_order:
      "\<lbrakk>build p = Inr (b, desc); covered p\<rbrakk> \<Longrightarrow> desc \<longleftrightarrow> cursor_reverse (cursor p) = ascending p"
    and build_by_id:
      "\<lbrakk>build p = Inr (b, desc); covered p; Option.bind (cursor p) lc_id = Some i\<rbrakk> \<Longrightarrow> \<not> sb_ts_first b"
begin

definition listing :: "'p \<Rightarrow> 'r list \<Rightarrow> 'r list" where
  "listing p rows = id_order key (\<not> ascending p) (filter (wanted p) rows)"

lemma cursor_page:
  assumes build: "build p = Inr r" and cov: "covered p"
    and ids: "distinct (map key rows)"
    and cur: "Option.bind (cursor p) lc_id = Some i" "unat i = key (listing p rows ! k)"
    and k: "k < length (listing p rows)" and per: "unat per < 2 ^ 63"
  shows "select_page sem time key r num per (cursor p) rows =
    (if cursor_reverse (cursor p) then drop (k - unat per) (take k (listing p rows))
     else take (unat per) (drop (Suc k) (listing p rows)))"
proof -
  obtain b desc where r: "r = (b, desc)" by fastforce
  let ?L = "listing p rows" and ?asc = "ascending p"
  note sel = build_selects [OF build [unfolded r] cov cur(1)]
  have first: "sb_ts_first b = False" using build_by_id [OF build [unfolded r] cov cur(1)] by simp
  have dsc: "desc = (cursor_reverse (cursor p) = ?asc)" by (rule build_order [OF build [unfolded r] cov])
  have beyond: "filter (conds_hold sem (sb_where b) (sb_param b)) rows =
      filter (\<lambda>x. comes_before desc (key (?L ! k)) (key x)) (filter (wanted p) rows)"
    unfolding filter_filter by (rule filter_cong) (use sel cur(2) in \<open>auto simp: selects_def\<close>)
  have ids': "distinct (map key (filter P rows))" for P
    using ids by (simp add: distinct_map_filter)
  have sorted: "sorted_wrt (\<lambda>x y. comes_before (\<not> ?asc) (key x) (key y)) ?L"
    unfolding listing_def by (rule id_order_sorted) (rule ids')
  have asym: "\<And>x y. comes_before (\<not> ?asc) (key x) (key y) \<Longrightarrow> \<not> comes_before (\<not> ?asc) (key y) (key x)"
    by (auto simp: comes_before_def split: if_splits)
  have cut: "filter (\<lambda>x. comes_before (\<not> ?asc) (key x) (key (?L ! k))) ?L = take k ?L"
    "filter (\<lambda>x. comes_before (\<not> ?asc) (key (?L ! k)) (key x)) ?L = drop (Suc k) ?L"
    using sorted_cut [OF sorted k] asym by blast+
  have n: "sql_int (show_u per) = Some (unat per)" using per by (simp add: sql_int_def show_u_def dec_value_digits)
  have ord: "order_rows time key desc False (filter (conds_hold sem (sb_where b) (sb_param b)) rows) =
      filter (\<lambda>x. comes_before desc (key (?L ! k)) (key x)) (id_order key desc (filter (wanted p) rows))"
    unfolding beyond id_order_filter
    by (rule order_rows_by_id) (simp add: distinct_map_filter ids')
  show ?thesis
  proof (cases "cursor_reverse (cursor p)")
    case False
    then have "desc = (\<not> ?asc)" using dsc by simp
    then show ?thesis using False n first ord cut(2) cur(1)
      by (simp add: select_page_def r Let_def page_clause_def listing_def)
  next
    case True
    then have d: "desc = ?asc" using dsc by simp
    have "filter (\<lambda>x. comes_before desc (key (?L ! k)) (key x)) (id_order key desc (filter (wanted p) rows))
        = rev (take k ?L)"
      unfolding d comes_before_flip [of ?asc] id_order_flip [of key ?asc] rev_filter [symmetric]
      by (simp only: cut(1) listing_def [symmetric])
    then show ?thesis using True n first ord cur(1) k
      by (simp add: select_page_def r Let_def page_clause_def take_rev)
  qed
qed

end


text \<open>What the fields of a request name: a domain's text is compared without regard to ASCII
  case, except for equality.\<close>

definition domain_matches :: "ustr option \<Rightarrow> ustr \<Rightarrow> ustr \<Rightarrow> bool" where
  "domain_matches mode v s =
     (case mode of None \<Rightarrow> s = v
      | Some m \<Rightarrow>
          if m = lit ''endswith'' then ends_with (map ascii_lower v) (map ascii_lower s)
          else if m = lit ''startswith'' then starts_with (map ascii_lower v) (map ascii_lower s)
          else if m = lit ''contains'' then str_contains (map ascii_lower v) (map ascii_lower s)
          else if m = lit ''equals'' then s = v
          else m = lit ''notempty'' \<and> s \<noteq> [])"

definition opt_is :: "'a option \<Rightarrow> 'a \<Rightarrow> bool" where
  "opt_is v x \<longleftrightarrow> v = None \<or> v = Some x"

definition opt_all :: "('a \<Rightarrow> bool) \<Rightarrow> 'a option \<Rightarrow> bool" where
  "opt_all P v = (case v of None \<Rightarrow> True | Some x \<Rightarrow> P x)"

lemma opt_all_iff: "opt_all P v \<longleftrightarrow> (\<forall>x. v = Some x \<longrightarrow> P x)"
  by (auto simp: opt_all_def split: option.split)

definition domain_wanted :: "(ustr \<Rightarrow> ustr) \<Rightarrow> domain_list_param \<Rightarrow> domain_data \<Rightarrow> bool" where
  "domain_wanted lower p d \<longleftrightarrow>
     opt_is (dp_id p) (dd_id d) \<and>
     opt_all (\<lambda>v. domain_matches (map_option lower (dp_domain_filter_mode p)) v (dd_domain d))
       (dp_domain p) \<and>
     opt_is (dp_domain_type p) (dd_domain_type d) \<and> opt_is (dp_client p) (dd_client d) \<and>
     opt_is (dp_domain_group p) (dd_domain_group d) \<and> opt_is (dp_reply_code p) (dd_reply_code d) \<and>
     opt_all (\<lambda>t. dd_timestamp d \<le> t) (dp_timestamp_before p) \<and>
     opt_all (\<lambda>t. t \<le> dd_timestamp d) (dp_timestamp_after p) \<and>
     opt_is (dp_is_blocked p) (dd_is_blocked d) \<and> opt_is (dp_is_cached p) (dd_is_cached d)"

definition client_wanted :: "client_list_param \<Rightarrow> client_data \<Rightarrow> bool" where
  "client_wanted p c \<longleftrightarrow>
     opt_all (\<lambda>x. unat (cd_id c) = unat x) (cp_id p) \<and>
     opt_is (cp_client_ip p) (cd_client_ip c) \<and> opt_is (cp_mac p) (cd_mac c) \<and>
     opt_is (cp_hostname p) (cd_hostname c) \<and>
     opt_all (\<lambda>t. cd_last_query_timestamp c \<le> t) (cp_timestamp_before p) \<and>
     opt_all (\<lambda>t. t \<le> cd_last_query_timestamp c) (cp_timestamp_after p)"

definition is_ascending :: "ustr option \<Rightarrow> bool" where
  "is_ascending ord = (case ord of None \<Rightarrow> False | Some v \<Rightarrow> eq_ignore_ascii_case v (lit ''asc''))"

text \<open>Requests for which the builder selects what the fields name: no text match by suffix or
  prefix, no wildcards in a substring, and no time bound together with a cursor.\<close>

definition mode_as_named :: "(ustr \<Rightarrow> ustr) \<Rightarrow> domain_list_param \<Rightarrow> bool" where
  "mode_as_named lower p \<longleftrightarrow>
     (case map_option lower (dp_domain_filter_mode p) of None \<Rightarrow> True
      | Some m \<Rightarrow> m \<notin> set [lit ''endswith'', lit ''startswith''] \<and>
          (m = lit ''contains'' \<longrightarrow> (case dp_domain p of None \<Rightarrow> True | Some v \<Rightarrow> plain_pattern v)))"

definition domain_covered :: "(ustr \<Rightarrow> ustr) \<Rightarrow> domain_list_param \<Rightarrow> bool" where
  "domain_covered lower p \<longleftrightarrow> mode_as_named lower p \<and>
     (Option.bind (dp_cursor p) lc_id = None \<or>
      dp_timestamp_before p = None \<and> dp_timestamp_after p = None)"

definition client_covered :: "client_list_param \<Rightarrow> bool" where
  "client_covered p \<longleftrightarrow> \<not> is_ascending (cp_order p) \<and>
     (Option.bind (cp_cursor p) lc_id = None \<or>
      cp_timestamp_before p = None \<and> cp_timestamp_after p = None)"

lemma map_prefix: "(\<exists>b. map f s = map f v @ b) \<longleftrightarrow> (\<exists>a b. s = a @
  b \<and> map f v = map f a)"
  by (metis map_append map_eq_append_conv)

lemma map_suffix: "(\<exists>a. map f s = a @ map f v) \<longleftrightarrow> (\<exists>a b. s = a @
  b \<and> map f v = map f b)"
  by (metis map_append map_eq_append_conv)

lemma map_infix:
  "(\<exists>a b. map f s = a @ map f v @ b) \<longleftrightarrow> (\<exists>a m b. s = a @ m @
    b \<and> map f v = map f m)"
proof
  assume "\<exists>a b. map f s = a @ map f v @ b"
  then obtain a b where "map f s = a @ (map f v @ b)" by auto
  then obtain us vs where "s = us @ vs" "map f vs = map f v @ b" by (metis map_eq_append_conv)
  moreover from this(2) obtain m t where "vs = m @ t" "map f v = map f m"
    using map_prefix by blast
  ultimately show "\<exists>a m b. s = a @ m @ b \<and> map f v = map f m" by blast
next
  assume "\<exists>a m b. s = a @ m @ b \<and> map f v = map f m"
  then show "\<exists>a b. map f s = a @ map f v @ b" by (metis map_append)
qed

lemma like_contains_lower:
  "plain_pattern v \<Longrightarrow>
     like (37 # v @ [37]) s \<longleftrightarrow> str_contains (map ascii_lower v) (map ascii_lower s)"
  by (simp only: like_contains str_contains_iff eq_ignore_ascii_case_def map_infix)

lemma like_starts_lower:
  "plain_pattern v \<Longrightarrow> like (v @ [37]) s \<longleftrightarrow> starts_with (map ascii_lower v) (map ascii_lower s)"
  by (simp only: like_starts starts_with_iff eq_ignore_ascii_case_def map_prefix)

lemma like_ends_lower:
  "plain_pattern v \<Longrightarrow> like (37 # v) s \<longleftrightarrow> ends_with (map ascii_lower v) (map ascii_lower s)"
  by (simp only: like_ends ends_with_iff eq_ignore_ascii_case_def map_suffix)

lemma dec_value_show [simp]: "dec_value (show_u w) = unat w"
  by (simp add: show_u_def dec_value_digits)

lemma domain_filter_selects:
  assumes "domain_filter lower (dp_domain p) (dp_domain_filter_mode p) b = Inr b'" "in_step b"
    "mode_as_named lower p"
  shows "selects domain_cond b' d \<longleftrightarrow> selects domain_cond b d \<and>
    (\<forall>v. dp_domain p = Some v \<longrightarrow>
       domain_matches (map_option lower (dp_domain_filter_mode p)) v (dd_domain d))"
  using assms
  by (auto simp: domain_filter_def domain_matches_def mode_as_named_def Let_def selects_push
      build_simps like_contains_lower split: option.splits if_splits)

lemma order_is_asc_Inr: "order_is_asc ord = Inr a \<Longrightarrow> a = is_ascending ord"
  by (auto simp: order_is_asc_def is_ascending_def split: option.splits if_splits)

lemma cursor_is_next_Inr: "cursor_is_next cur = Inr a \<Longrightarrow> a = (\<not> cursor_reverse cur)"
  by (auto simp: cursor_is_next_def cursor_reverse_def split: option.splits if_splits)

lemma ex_all_opt: "(\<forall>x. v = Some x \<longrightarrow> y = x) \<longleftrightarrow> opt_is v y"
  by (cases v) (auto simp: opt_is_def)

text \<open>A successful builder run, step by step.\<close>

lemma domain_where_steps:
  assumes "domain_where lower p = Inr (b, desc)"
  obtains b0 b1 prev nxt where
    "in_step b0" "\<not> sb_cursor_ts b0"
    "\<And>r. selects domain_cond b0 r \<longleftrightarrow> (\<forall>x. dp_id p = Some x \<longrightarrow> dd_id r = x)"
    "domain_filter lower (dp_domain p) (dp_domain_filter_mode p) b0 = Inr b1"
    "in_step b1" "\<not> sb_cursor_ts b1"
    "prev = is_ascending (dp_order p)" "nxt = (\<not> cursor_reverse (dp_cursor p))"
    "desc = (nxt \<noteq> prev)"
    "b = push_flag Is_Cached (dp_is_cached p) (push_flag Is_Blocked (dp_is_blocked p)
      (cursor_bound prev nxt (dp_cursor p)
        (time_bound Timestamp_Ge Id_Gt (\<not> nxt \<or> prev) (dp_cursor p) (dp_timestamp_after p)
          (time_bound Timestamp_Le Id_Lt (nxt \<or> prev) (dp_cursor p) (dp_timestamp_before p)
            (push_exact Reply_Code_Eq show_u (dp_reply_code p)
              (push_exact Domain_Group_Eq id (dp_domain_group p)
                (push_exact Client_Eq id (dp_client p)
                  (push_exact Domain_Type_Eq show_u (dp_domain_type p) b1))))))))"
proof -
  define b0 where "b0 = push_exact Id_Eq show_u (dp_id p)
    \<lparr>sb_where = [], sb_param = [], sb_ts_first = True, sb_cursor_ts = False\<rparr>"
  from assms(1) obtain prev nxt b1 where o: "order_is_asc (dp_order p) = Inr prev"
    and c: "cursor_is_next (dp_cursor p) = Inr nxt"
    and f: "domain_filter lower (dp_domain p) (dp_domain_filter_mode p) b0 = Inr b1"
    by (auto simp: domain_where_def Let_def bind_result_Inr b0_def)
  note u = assms(1) [unfolded domain_where_def Let_def b0_def [symmetric] o c f bind_result_simps]
  have b0: "in_step b0" "\<not> sb_cursor_ts b0"
    "\<And>r. selects domain_cond b0 r \<longleftrightarrow> (\<forall>x. dp_id p = Some x \<longrightarrow> dd_id r = x)"
    by (auto simp: b0_def build_simps unsigned_word_eqI)
  show ?thesis
    by (rule that [of b0 b1 prev nxt])
      (use b0 f u domain_filter_in_step [OF f b0(1)] order_is_asc_Inr [OF o] cursor_is_next_Inr [OF c]
       in auto)
qed

lemma domain_where_selects:
  assumes "domain_where lower p = Inr (b, desc)" "domain_covered lower p"
  shows "selects domain_cond b d \<longleftrightarrow> domain_wanted lower p d \<and>
      (\<forall>i. Option.bind (dp_cursor p) lc_id = Some i \<longrightarrow> comes_before desc (unat i) (unat (dd_id d)))"
  using assms(1)
proof (rule domain_where_steps)
  let ?cur = "Option.bind (dp_cursor p) lc_id"
  fix b0 b1 prev nxt
  assume b0: "in_step b0" "\<not> sb_cursor_ts b0"
    "\<And>r. selects domain_cond b0 r \<longleftrightarrow> (\<forall>x. dp_id p = Some x \<longrightarrow> dd_id r = x)"
    and f: "domain_filter lower (dp_domain p) (dp_domain_filter_mode p) b0 = Inr b1"
    and b1: "in_step b1" "\<not> sb_cursor_ts b1"
    and desc: "desc = (nxt \<noteq> prev)"
    and b: "b = push_flag Is_Cached (dp_is_cached p) (push_flag Is_Blocked (dp_is_blocked p)
      (cursor_bound prev nxt (dp_cursor p)
        (time_bound Timestamp_Ge Id_Gt (\<not> nxt \<or> prev) (dp_cursor p) (dp_timestamp_after p)
          (time_bound Timestamp_Le Id_Lt (nxt \<or> prev) (dp_cursor p) (dp_timestamp_before p)
            (push_exact Reply_Code_Eq show_u (dp_reply_code p)
              (push_exact Domain_Group_Eq id (dp_domain_group p)
                (push_exact Client_Eq id (dp_client p)
                  (push_exact Domain_Type_Eq show_u (dp_domain_type p) b1))))))))"
  have s1: "selects domain_cond b1 d \<longleftrightarrow> (\<forall>x. dp_id p = Some x \<longrightarrow> dd_id d = x) \<and>
      (\<forall>v. dp_domain p = Some v \<longrightarrow>
         domain_matches (map_option lower (dp_domain_filter_mode p)) v (dd_domain d))"
    using domain_filter_selects [OF f b0(1), of d] assms(2) by (simp add: domain_covered_def b0(3))
  have times: "?cur = None \<or> dp_timestamp_before p = None \<and> dp_timestamp_after p = None"
    using assms(2) by (simp add: domain_covered_def)
  have sel: "selects domain_cond b d \<longleftrightarrow> selects domain_cond b1 d \<and>
      (\<forall>x. dp_domain_type p = Some x \<longrightarrow> domain_cond Domain_Type_Eq (show_u x) d) \<and>
      (\<forall>x. dp_client p = Some x \<longrightarrow> domain_cond Client_Eq x d) \<and>
      (\<forall>x. dp_domain_group p = Some x \<longrightarrow> domain_cond Domain_Group_Eq x d) \<and>
      (\<forall>x. dp_reply_code p = Some x \<longrightarrow> domain_cond Reply_Code_Eq (show_u x) d) \<and>
      (\<forall>t. dp_timestamp_before p = Some t \<longrightarrow> domain_cond Timestamp_Le (show_u t) d) \<and>
      (\<forall>t. dp_timestamp_after p = Some t \<longrightarrow> domain_cond Timestamp_Ge (show_u t) d) \<and>
      (\<forall>i. ?cur = Some i \<longrightarrow> domain_cond (if prev = nxt then Id_Gt else Id_Lt) (show_u i) d) \<and>
      (\<forall>x. dp_is_blocked p = Some x \<longrightarrow> domain_cond (Is_Blocked x) [] d) \<and>
      (\<forall>x. dp_is_cached p = Some x \<longrightarrow> domain_cond (Is_Cached x) [] d)"
    using times unfolding b by (cases ?cur) (simp_all add: build_simps b1)
  show ?thesis
    unfolding sel s1 domain_wanted_def opt_all_iff
    by (simp add: ex_all_opt word_unat_eq_iff [symmetric] desc comes_before_def word_le_nat_alt conj_ac)
qed

lemma domain_where_order:
  assumes "domain_where lower p = Inr (b, desc)"
  shows "desc \<longleftrightarrow> cursor_reverse (dp_cursor p) = is_ascending (dp_order p)"
  by (rule domain_where_steps [OF assms]) auto

lemma ts_first_flag: "\<not> sb_ts_first b \<Longrightarrow> \<not> sb_ts_first (push_flag c v b)"
  by (auto simp: push_flag_def build_simps split: option.splits)

lemma ts_first_cursor:
  "\<not> sb_cursor_ts b \<Longrightarrow> Option.bind cur lc_id = Some i \<Longrightarrow>
     \<not> sb_ts_first (cursor_bound prev desc cur b)"
  by (auto simp: cursor_bound_def build_simps)

lemma domain_where_by_id:
  assumes "domain_where lower p = Inr (b, desc)" "domain_covered lower p"
    "Option.bind (dp_cursor p) lc_id = Some i"
  shows "\<not> sb_ts_first b"
proof (rule domain_where_steps [OF assms(1)])
  have times: "dp_timestamp_before p = None" "dp_timestamp_after p = None"
    using assms(2,3) by (simp_all add: domain_covered_def)
  fix b0 b1 prev nxt
  assume b1: "in_step b1" "\<not> sb_cursor_ts b1"
    and b: "b = push_flag Is_Cached (dp_is_cached p) (push_flag Is_Blocked (dp_is_blocked p)
      (cursor_bound prev nxt (dp_cursor p)
        (time_bound Timestamp_Ge Id_Gt (\<not> nxt \<or> prev) (dp_cursor p) (dp_timestamp_after p)
          (time_bound Timestamp_Le Id_Lt (nxt \<or> prev) (dp_cursor p) (dp_timestamp_before p)
            (push_exact Reply_Code_Eq show_u (dp_reply_code p)
              (push_exact Domain_Group_Eq id (dp_domain_group p)
                (push_exact Client_Eq id (dp_client p)
                  (push_exact Domain_Type_Eq show_u (dp_domain_type p) b1))))))))"
  show ?thesis
    unfolding b by (rule ts_first_flag ts_first_cursor [OF _ assms(3)])+ (simp add: times build_simps b1)
qed

interpretation domain_pages:
  keyset_pages domain_cond dd_timestamp "\<lambda>d. unat (dd_id d)" "domain_where lower" dp_cursor
    "domain_covered lower" "\<lambda>p. is_ascending (dp_order p)" "domain_wanted lower" for lower
  by unfold_locales (simp_all add: domain_where_selects domain_where_order domain_where_by_id)

lemma client_where_contract:
  assumes "client_where p = Inr (b, desc)" "client_covered p"
  shows "selects client_cond b c \<longleftrightarrow> client_wanted p c \<and>
      (\<forall>i. Option.bind (cp_cursor p) lc_id = Some i \<longrightarrow> comes_before desc (unat i) (unat (cd_id c)))"
      (is ?sel)
    and "desc \<longleftrightarrow> \<not> cursor_reverse (cp_cursor p)" (is ?ord)
    and "Option.bind (cp_cursor p) lc_id = Some i \<Longrightarrow> \<not> sb_ts_first b"
proof -
  let ?cur = "Option.bind (cp_cursor p) lc_id"
  define b0 where "b0 = push_exact Id_Eq show_u (cp_id p)
    \<lparr>sb_where = [], sb_param = [], sb_ts_first = False, sb_cursor_ts = False\<rparr>"
  from assms(1) obtain prev nxt where o: "order_is_asc (cp_order p) = Inr prev"
    and c: "cursor_is_next (cp_cursor p) = Inr nxt"
    by (auto simp: client_where_def Let_def bind_result_Inr b0_def)
  note u = assms(1) [unfolded client_where_def Let_def b0_def [symmetric] o c bind_result_simps]
  have prev: "\<not> prev" using order_is_asc_Inr [OF o] assms(2) by (simp add: client_covered_def)
  have times: "?cur = None \<or> cp_timestamp_before p = None \<and> cp_timestamp_after p = None"
    using assms(2) by (simp add: client_covered_def)
  show ?ord using u cursor_is_next_Inr [OF c] by simp
  have b0: "in_step b0" "\<not> sb_cursor_ts b0"
    "\<And>r. selects client_cond b0 r \<longleftrightarrow> (\<forall>x. cp_id p = Some x \<longrightarrow> unat (cd_id r) = unat x)"
    by (auto simp: b0_def build_simps)
  have b: "b = cursor_bound prev nxt (cp_cursor p)
      (time_bound Last_Query_Ge Id_Gt (\<not> nxt \<or> prev) (cp_cursor p) (cp_timestamp_after p)
        (time_bound Last_Query_Le Id_Lt (nxt \<or> prev) (cp_cursor p) (cp_timestamp_before p)
          (push_opt Hostname_Eq id (cp_hostname p) (push_opt Mac_Eq id (cp_mac p)
            (push_opt Client_Ip_Eq id (cp_client_ip p) b0)))))" and nxt: "desc = nxt"
    using u by auto
  have sel: "selects client_cond b c \<longleftrightarrow> selects client_cond b0 c \<and>
      (\<forall>x. cp_client_ip p = Some x \<longrightarrow> client_cond Client_Ip_Eq x c) \<and>
      (\<forall>x. cp_mac p = Some x \<longrightarrow> client_cond Mac_Eq x c) \<and>
      (\<forall>x. cp_hostname p = Some x \<longrightarrow> client_cond Hostname_Eq x c) \<and>
      (\<forall>t. cp_timestamp_before p = Some t \<longrightarrow> client_cond Last_Query_Le (show_u t) c) \<and>
      (\<forall>t. cp_timestamp_after p = Some t \<longrightarrow> client_cond Last_Query_Ge (show_u t) c) \<and>
      (\<forall>i. ?cur = Some i \<longrightarrow> client_cond (if prev = nxt then Id_Gt else Id_Lt) (show_u i) c)"
    using times unfolding b by (cases ?cur) (simp_all add: build_simps b0)
  show ?sel
    unfolding sel b0(3) client_wanted_def opt_all_iff
    using prev by (simp add: ex_all_opt nxt comes_before_def word_le_nat_alt conj_ac)
  assume "?cur = Some i"
  then show "\<not> sb_ts_first b"
    using times unfolding b by (intro ts_first_cursor) (simp_all add: build_simps b0)
qed

interpretation client_pages:
  keyset_pages client_cond cd_last_query_timestamp "\<lambda>c. unat (cd_id c)" client_where cp_cursor
    client_covered "\<lambda>p. False" client_wanted
  by unfold_locales (simp_all add: client_where_contract)
section \<open>What the requests list\<close>

lemma domain_list_cases:
  assumes "domain_list lower (Some p) rows = Inr res"
  obtains r where "domain_where lower p = Inr r"
    "qd_domain_list res = select_page domain_cond dd_timestamp (\<lambda>d. unat (dd_id d)) r
       (dp_page_num p) (dp_page_size p) (dp_cursor p) rows"
    "dp_cursor p = None \<Longrightarrow> qd_total_count res = domain_list_count lower (Some p) rows"
  using assms
  by (cases "dp_cursor p") (auto simp: domain_list_def Let_def bind_result_Inr intro: that)


text \<open>Without a cursor, page n of a domain list is the n-th slice of the rows the request's
  fields name, in the requested order, with their number as the total.\<close>

theorem domain_numbered_page:
  assumes res: "domain_list lower (Some p) rows = Inr res" and cov: "domain_covered lower p"
    and "dp_cursor p = None" "0 < dp_page_num p"
    and small: "unat (dp_page_num p) * unat (dp_page_size p) < 2 ^ 63" "unat (dp_page_size p) < 2 ^ 63"
    and found: "found = filter (domain_wanted lower p) rows"
  shows "(\<exists>first. qd_domain_list res =
      take (unat (dp_page_size p)) (drop ((unat (dp_page_num p) - 1) * unat (dp_page_size p))
        (order_rows dd_timestamp (\<lambda>d. unat (dd_id d)) (\<not> is_ascending (dp_order p)) first found))) \<and>
    qd_total_count res = of_nat (length found)"
proof -
  obtain b desc where w: "domain_where lower p = Inr (b, desc)"
    and page: "qd_domain_list res = select_page domain_cond dd_timestamp (\<lambda>d. unat (dd_id d)) (b, desc)
       (dp_page_num p) (dp_page_size p) (dp_cursor p) rows"
    and count: "qd_total_count res = domain_list_count lower (Some p) rows"
    using domain_list_cases [OF res] assms(3) by (metis prod.collapse)
  have sel: "filter (conds_hold domain_cond (sb_where b) (sb_param b)) rows = found"
    unfolding found
    by (rule filter_cong) (use domain_where_selects [OF w cov] assms(3) in \<open>auto simp: selects_def\<close>)
  have desc: "desc = (\<not> is_ascending (dp_order p))"
    using domain_where_order [OF w] assms(3) by (simp add: cursor_reverse_def)
  let ?n = "unat (dp_page_num p)" and ?s = "unat (dp_page_size p)"
  have n: "unat (dp_page_num p - 1) = ?n - 1"
    using assms(4) by (simp add: word_minus_small word_less_nat_alt)
  have "(?n - 1) * ?s < 2 ^ 63"
    by (rule le_less_trans [OF _ small(1)]) simp
  then have off: "unat ((dp_page_num p - 1) * dp_page_size p) = (?n - 1) * ?s"
    by (simp add: unat_word_ariths n)
  have "sql_int (show_u (dp_page_size p)) = Some ?s"
    "sql_int (show_u ((dp_page_num p - 1) * dp_page_size p)) = Some ((?n - 1) * ?s)"
    using small(2) \<open>(?n - 1) * ?s < 2 ^ 63\<close> off by (simp_all add: sql_int_def)
  then have "\<exists>first. qd_domain_list res = take ?s (drop ((?n - 1) * ?s)
        (order_rows dd_timestamp (\<lambda>d. unat (dd_id d)) (\<not> is_ascending (dp_order p)) first found))"
    using page sel desc assms(3)
    by (auto simp: select_page_def Let_def page_clause_def cursor_reverse_def)
  moreover have "qd_total_count res = of_nat (length found)"
    using count w sel by (simp add: domain_list_count_def)
  ultimately show ?thesis by simp
qed

lemma limit_rows_set: "set (limit_rows ps rows) \<subseteq> set rows"
  by (cases "(ps, rows)" rule: limit_rows.cases)
    (auto split: option.splits dest: in_set_takeD in_set_dropD)

lemma select_page_set:
  "set (select_page sem time key (b, desc) num per cur rows) \<subseteq> {d \<in> set rows. selects sem b d}"
proof -
  let ?f = "filter (conds_hold sem (sb_where b) (sb_param b)) rows"
  have "set (order_rows time key desc t ?f) = set ?f" for t
    by (simp add: order_rows_def Let_def)
  then show ?thesis
    using limit_rows_set [of "snd (page_clause num per cur)" "order_rows time key desc (sb_ts_first b) ?f"]
    by (auto simp: select_page_def Let_def selects_def)
qed

lemma domain_where_filter:
  assumes "domain_where lower p = Inr (b, desc)" "selects domain_cond b d"
  shows "\<exists>b0 b1. in_step b0 \<and> domain_filter lower (dp_domain p) (dp_domain_filter_mode p) b0 = Inr b1 \<and>
     selects domain_cond b1 d"
  by (rule domain_where_steps [OF assms(1)]) (use assms(2) in \<open>auto simp: build_simps\<close>)

text \<open>The filter mode endswith lists domains that start with the text: the two LIKE patterns
  are swapped.\<close>

theorem suffix_mode_matches_prefix:
  assumes res: "domain_list lower (Some p) rows = Inr res" and "dp_domain p = Some v" "plain_pattern v"
    and "dp_domain_filter_mode p = Some m" "lower m = lit ''endswith''" and d: "d \<in> set (qd_domain_list res)"
  shows "starts_with (map ascii_lower v) (map ascii_lower (dd_domain d))"
proof (rule domain_list_cases [OF res])
  fix r assume w: "domain_where lower p = Inr r"
    and q: "qd_domain_list res = select_page domain_cond dd_timestamp (\<lambda>d. unat (dd_id d)) r
       (dp_page_num p) (dp_page_size p) (dp_cursor p) rows"
  obtain b desc where r: "r = (b, desc)" by fastforce
  have "selects domain_cond b d" using d select_page_set unfolding q r by fast
  then obtain b0 b1 where "in_step b0" "selects domain_cond b1 d"
    "domain_filter lower (dp_domain p) (dp_domain_filter_mode p) b0 = Inr b1"
    using domain_where_filter [OF w [unfolded r]] by blast
  then show ?thesis
    using assms(2-5) by (auto simp: domain_filter_def Let_def selects_push like_starts_lower)
qed

text \<open>An ascending request with both time bounds and a cursor lists nothing: each bound is
  replaced by a condition on the cursor's id and the two contradict each other.\<close>

theorem range_with_ascending_cursor_empty:
  assumes res: "domain_list lower (Some p) rows = Inr res" and asc: "is_ascending (dp_order p)"
    and "dp_timestamp_before p = Some t" "dp_timestamp_after p = Some t'"
    and "Option.bind (dp_cursor p) lc_id = Some i"
  shows "qd_domain_list res = []"
proof (rule domain_list_cases [OF res])
  fix r assume w: "domain_where lower p = Inr r"
    and q: "qd_domain_list res = select_page domain_cond dd_timestamp (\<lambda>d. unat (dd_id d)) r
       (dp_page_num p) (dp_page_size p) (dp_cursor p) rows"
  obtain b desc where r: "r = (b, desc)" by fastforce
  have "\<not> selects domain_cond b d" for d
    by (rule domain_where_steps [OF w [unfolded r]]) (use asc assms(3-5) in \<open>auto simp: build_simps\<close>)
  then show ?thesis
    using select_page_set [of domain_cond dd_timestamp "\<lambda>d. unat (dd_id d)" b desc "dp_page_num p"
        "dp_page_size p" "dp_cursor p" rows]
    unfolding q r by (auto simp del: set_empty simp: set_empty [symmetric])
qed

lemma no_cursor_bounds:
  "time_bound c c' towards None v b = push_opt c show_u v b" "cursor_bound prev desc None b = b"
proof -
  have n: "Option.bind None lc_id = None" by auto
  show "time_bound c c' towards None v b = push_opt c show_u v b" "cursor_bound prev desc None b = b"
    by (simp_all add: time_bound_def cursor_bound_def push_opt_def n split: option.split)
qed

lemma client_where_order:
  assumes "cp_cursor p = None"
  shows "client_where (p\<lparr>cp_order := Some (lit ''asc'')\<rparr>) = client_where (p\<lparr>cp_order := Some (lit ''desc'')\<rparr>)"
proof -
  have "order_is_asc (Some (lit ''asc'')) = Inr True" "order_is_asc (Some (lit ''desc'')) = Inr False"
    by code_simp+
  then show ?thesis
    using assms by (simp add: client_where_def no_cursor_bounds cursor_is_next_def Let_def)
qed

text \<open>The order of a client list request has no effect without a cursor: ascending and
  descending requests list the same rows in the same order.\<close>

theorem client_order_without_cursor:
  "cp_cursor p = None \<Longrightarrow>
   client_list (Some (p\<lparr>cp_order := Some (lit ''asc'')\<rparr>)) rows =
   client_list (Some (p\<lparr>cp_order := Some (lit ''desc'')\<rparr>)) rows"
  using client_where_order [of p] by (simp add: client_list_def client_list_count_def)

section \<open>Witnesses\<close>

definition sample_row :: "u64 \<Rightarrow> string \<Rightarrow> domain_data" where
  "sample_row i name = \<lparr>dd_id = i, dd_timestamp = 1000 + i, dd_domain = lit name, dd_domain_type = 1,
     dd_client = lit ''c'', dd_domain_group = lit ''default'', dd_reply_code = 0, dd_query_time = 3,
     dd_ping_time = 0, dd_is_blocked = False, dd_is_cached = False\<rparr>"

definition sample_rows :: "domain_data list" where
  "sample_rows = [sample_row 1 ''a.com'', sample_row 2 ''b.org'', sample_row 3 ''A.net'',
    sample_row 4 ''c.a'']"

definition cursor_at :: "u64 \<Rightarrow> string \<Rightarrow> list_cursor option" where
  "cursor_at i dir = Some \<lparr>lc_id = Some i, lc_total_count = 4, lc_direction = lit dir\<rparr>"

lemma not_isl_obtain: "\<not> isl x \<Longrightarrow> \<exists>y. x = Inr y"
  by (cases x) auto

theorem list_sql_placeholders_witness:
  "\<exists>sql ps sql' ps'. domain_list_sql id (Some (new_domain_list_param\<lparr>dp_domain := Some (lit ''a'' @ [39] @ lit '' OR 1=1'')\<rparr>))
       = Inr (sql, ps) \<and>
     client_list_sql (Some (new_client_list_param\<lparr>cp_mac := Some (lit ''?'')\<rparr>)) = Inr (sql', ps') \<and>
     count_list sql 63 = 3 \<and> count_list sql' 63 = 3"
proof -
  let ?p = "new_domain_list_param\<lparr>dp_domain := Some (lit ''a'' @ [39] @ lit '' OR 1=1'')\<rparr>"
    and ?q = "new_client_list_param\<lparr>cp_mac := Some (lit ''?'')\<rparr>"
  have "\<not> isl (domain_list_sql id (Some ?p))" "\<not> isl (client_list_sql (Some ?q))" by code_simp+
  then obtain sql ps sql' ps' where d: "domain_list_sql id (Some ?p) = Inr (sql, ps)"
    and c: "client_list_sql (Some ?q) = Inr (sql', ps')" by (metis not_isl_obtain prod.collapse)
  have "length (snd (projr (domain_list_sql id (Some ?p)))) = 3"
    "length (snd (projr (client_list_sql (Some ?q)))) = 3" by code_simp+
  then show ?thesis using list_sql_placeholders [OF d c] d c by simp
qed


theorem domain_numbered_page_witness:
  "\<exists>res. domain_list id (Some (new_domain_list_param\<lparr>dp_domain := Some (lit ''A''),
    dp_page_size := 1, dp_page_num := 2,
       dp_domain_filter_mode := Some (lit ''contains'')\<rparr>)) sample_rows = Inr res \<and> qd_total_count res = 3"
proof -
  let ?p = "new_domain_list_param\<lparr>dp_domain := Some (lit ''A''), dp_page_size := 1, dp_page_num := 2,
       dp_domain_filter_mode := Some (lit ''contains'')\<rparr>"
  have "\<not> isl (domain_list id (Some ?p) sample_rows)" by code_simp
  then obtain res where r: "domain_list id (Some ?p) sample_rows = Inr res" by (blast dest: not_isl_obtain)
  have "qd_total_count res = of_nat (length [sample_row 1 ''a.com'', sample_row 3 ''A.net'',
    sample_row 4 ''c.a''])"
    by (rule domain_numbered_page [OF r, THEN conjunct2]) code_simp+
  then show ?thesis using r by simp
qed

theorem suffix_mode_matches_prefix_witness:
  "\<exists>res. domain_list id (Some (new_domain_list_param\<lparr>dp_domain := Some (lit ''a''),
       dp_domain_filter_mode := Some (lit ''endswith'')\<rparr>)) sample_rows = Inr res \<and>
     starts_with (lit ''a'') (map ascii_lower (dd_domain (hd (qd_domain_list res))))"
proof -
  let ?p = "new_domain_list_param\<lparr>dp_domain := Some (lit ''a''),
    dp_domain_filter_mode := Some (lit ''endswith'')\<rparr>"
  have "\<not> isl (domain_list id (Some ?p) sample_rows)" by code_simp
  then obtain res where r: "domain_list id (Some ?p) sample_rows = Inr res" by (blast dest: not_isl_obtain)
  have "qd_domain_list (projr (domain_list id (Some ?p) sample_rows)) =
      [sample_row 3 ''A.net'', sample_row 1 ''a.com'']" by code_simp
  then have l: "qd_domain_list res = [sample_row 3 ''A.net'', sample_row 1 ''a.com'']" using r by simp
  have "starts_with (map ascii_lower (lit ''a'')) (map ascii_lower (dd_domain (sample_row 3 ''A.net'')))"
    by (rule suffix_mode_matches_prefix [OF r, where m = "lit ''endswith''"]) (simp add: l | code_simp)+
  then show ?thesis using r l by (simp add: lit_def ascii_lower_def)
qed

theorem range_with_ascending_cursor_empty_witness:
  "\<exists>res. domain_list id (Some (new_domain_list_param\<lparr>dp_order := Some (lit ''asc''),
    dp_timestamp_before := Some 9000,
       dp_timestamp_after := Some 1, dp_cursor := cursor_at 2 ''next''\<rparr>)) sample_rows = Inr res \<and>
     qd_domain_list res = []"
proof -
  let ?p = "new_domain_list_param\<lparr>dp_order := Some (lit ''asc''), dp_timestamp_before := Some 9000,
       dp_timestamp_after := Some 1, dp_cursor := cursor_at 2 ''next''\<rparr>"
  have "\<not> isl (domain_list id (Some ?p) sample_rows)" by code_simp
  then obtain res where r: "domain_list id (Some ?p) sample_rows = Inr res" by (blast dest: not_isl_obtain)
  have "qd_domain_list res = []"
    by (rule range_with_ascending_cursor_empty [OF r, where t = 9000 and t' = 1 and i = 2]) code_simp+
  then show ?thesis using r by simp
qed

theorem client_order_without_cursor_witness:
  "client_list (Some (new_client_list_param\<lparr>cp_order := Some (lit ''asc'')\<rparr>)) [] =
   client_list (Some (new_client_list_param\<lparr>cp_order := Some (lit ''desc'')\<rparr>)) []"
  by (rule client_order_without_cursor) code_simp
end
