(* ===== verification/Db_Store.thy ===== *)
theory Db_Store
  imports Db_Query
begin

text \<open>
  The database of \<open>src/src/db.rs\<close>: its tables and every operation that reads or changes them. A
  table is the list of its rows in rowid order (a map for the two key/value tables); a statement
  of the source is the operation it describes on those tables. Each call into SQLite may fail:
  \<open>db_calls\<close> holds the outcomes of the calls to come, all of them successes once it is empty. A
  transaction that is not committed leaves the tables as they were. The clock and the local time
  zone are arguments. Client ids are 32-bit as in \<open>ClientData\<close>.
\<close>

section \<open>Tables and connection\<close>

record query_count =
  qt_name :: ustr
  qt_count :: u32
  qt_timestamp_start :: u64
  qt_timestamp_end :: u64

record count_item =
  ci_time :: ustr
  ci_query_count :: u32

record db_tables =
  tb_version :: "int option"
  tb_config :: "ustr \<Rightarrow> ustr option"
  tb_status :: "ustr \<Rightarrow> ustr option"
  tb_domain :: "domain_data list"
  tb_domain_seq :: nat
  tb_hourly :: "(u64 \<times> nat) list"
  tb_daily :: "(u64 \<times> nat) list"
  tb_top_domain :: "query_count list"
  tb_top_client :: "query_count list"
  tb_client :: "client_data list"

record db =
  db_exists :: bool
  db_is_open :: bool
  db_auto_vacuum :: int
  db_tables :: db_tables
  db_calls :: "bool list"

datatype db_error = Not_Open | Sqlite | Db_Message ustr | Db_Panic

type_synonym 'a db_act = "(db, db_error, 'a) act"

definition empty_tables :: db_tables where
  "empty_tables = \<lparr>tb_version = None, tb_config = (\<lambda>_. None),
    tb_status = (\<lambda>_. None), tb_domain = [],
     tb_domain_seq = 0, tb_hourly = [], tb_daily = [], tb_top_domain = [], tb_top_client = [],
     tb_client = []\<rparr>"

definition try_call :: "bool db_act" where
  "try_call d = (case db_calls d of [] \<Rightarrow> (Inr True, d) | ok # rest \<Rightarrow> (Inr ok,
    d\<lparr>db_calls := rest\<rparr>))"

definition call_or :: "db_error \<Rightarrow> unit db_act" where
  "call_or e = act_bind try_call (\<lambda>ok. if ok then act_return () else act_fail e)"

abbreviation sqlite_call :: "unit db_act" where
  "sqlite_call \<equiv> call_or Sqlite"

definition in_tables :: "(db_tables \<Rightarrow> db_tables) \<Rightarrow> unit db_act" where
  "in_tables f = act_upd (\<lambda>d. d\<lparr>db_tables := f (db_tables d)\<rparr>)"

definition with_conn :: "'a db_act \<Rightarrow> 'a db_act" where
  "with_conn m d = (if db_is_open d then m d else (Inl Not_Open, d))"

text \<open>\<open>conn.transaction()\<close>, the body, \<open>tx.commit()\<close>; leaving the body early rolls back.\<close>

definition transaction :: "'a db_act \<Rightarrow> 'a db_act" where
  "transaction body = act_bind sqlite_call (\<lambda>_ d.
     case act_bind body (\<lambda>x. act_bind sqlite_call (\<lambda>_. act_return x)) d of
       (Inl e, d') \<Rightarrow> (Inl e, d'\<lparr>db_tables := db_tables d\<rparr>)
     | (Inr x, d') \<Rightarrow> (Inr x, d'))"

text \<open>Binding a \<open>u64\<close> that does not fit SQLite's signed integers is an error.\<close>

definition bind_u64 :: "u64 \<Rightarrow> unit db_act" where
  "bind_u64 v = (if unat v < 2 ^ 63 then act_return () else act_fail Sqlite)"

section \<open>Opening and closing\<close>

definition db_version :: int where "db_version = 10000"

definition create_table :: "unit db_act" where
  "create_table =
     act_bind (act_each (\<lambda>_. sqlite_call) [0..<11]) (\<lambda>_.
     act_bind sqlite_call (\<lambda>_. in_tables (\<lambda>_. empty_tables\<lparr>tb_version := Some db_version\<rparr>)))"

definition migrate_db :: "unit db_act" where
  "migrate_db = act_fail (Db_Message
     (lit ''Currently Not Support Migrate Database, Please Backup DB File, And Restart Server.''))"

definition init_db :: "unit db_act" where
  "init_db =
     act_bind sqlite_call (\<lambda>_.
     act_bind try_call (\<lambda>ok.
     act_bind (act_get (\<lambda>d. if ok then tb_version (db_tables d) else None)) (\<lambda>v.
       if db_version \<le> (case v of None \<Rightarrow> db_version | Some n \<Rightarrow> n) then create_table else migrate_db)))"

definition tune_connection :: "unit db_act" where
  "tune_connection =
     act_bind (act_each (\<lambda>_. sqlite_call) [0..<5]) (\<lambda>_.
     act_bind (act_get db_auto_vacuum) (\<lambda>v.
     act_bind (if v = 2 then act_return ()
               else act_bind sqlite_call (\<lambda>_.
                    act_bind (act_upd (\<lambda>d. d\<lparr>db_auto_vacuum := 2\<rparr>)) (\<lambda>_. sqlite_call))) (\<lambda>_.
     act_bind sqlite_call (\<lambda>_. sqlite_call))))"

text \<open>\<open>open\<close>: a file that opens for writing is taken as it is; otherwise it is created and
  initialised, and removed again when that fails.\<close>

definition open_db :: "unit db_act" where
  "open_db =
     act_bind try_call (\<lambda>ok d.
       if ok \<and> db_exists d then act_bind (act_upd (\<lambda>d. d\<lparr>db_is_open := True\<rparr>)) (\<lambda>_. tune_connection) d
       else act_bind sqlite_call (\<lambda>_ d.
         let fresh = (if db_exists d then d else d\<lparr>db_exists := True,
           db_tables := empty_tables\<rparr>)
         in case init_db fresh of
              (Inl e, d') \<Rightarrow> (Inl e, d'\<lparr>db_exists := False\<rparr>)
            | (Inr _, d') \<Rightarrow>
                act_bind (act_upd (\<lambda>d. d\<lparr>db_is_open := True\<rparr>)) (\<lambda>_. tune_connection) d') d)"

definition close_db :: "db \<Rightarrow> db" where
  "close_db d = d\<lparr>db_is_open := False\<rparr>"

text \<open>\<open>get_readonly_conn\<close>: a second connection on the open file.\<close>

definition get_readonly_conn :: "bool db_act" where
  "get_readonly_conn d = (if db_is_open d then try_call d else (Inr False, d))"

definition with_readonly :: "'a db_act \<Rightarrow> 'a db_act" where
  "with_readonly m = act_bind get_readonly_conn (\<lambda>ok. if ok then m else act_fail Not_Open)"

text \<open>\<open>run_vacuum\<close> changes no row; the failure of its last query is ignored.\<close>

definition run_vacuum :: "unit db_act" where
  "run_vacuum = with_conn (act_bind sqlite_call (\<lambda>_. act_bind sqlite_call (\<lambda>_. act_bind try_call (\<lambda>_. act_return ()))))"

section \<open>Key/value tables\<close>

definition set_config :: "ustr \<Rightarrow> ustr \<Rightarrow> unit db_act" where
  "set_config key val = with_conn (act_bind sqlite_call (\<lambda>_. act_bind sqlite_call (\<lambda>_.
     in_tables (\<lambda>t. t\<lparr>tb_config := (tb_config t)(key \<mapsto> val)\<rparr>))))"

definition set_status_data :: "ustr \<Rightarrow> ustr \<Rightarrow> unit db_act" where
  "set_status_data key val = with_conn (act_bind sqlite_call (\<lambda>_. act_bind sqlite_call (\<lambda>_.
     in_tables (\<lambda>t. t\<lparr>tb_status := (tb_status t)(key \<mapsto> val)\<rparr>))))"

definition get_config :: "ustr \<Rightarrow> ustr option db_act" where
  "get_config key = with_conn (act_bind (call_or Db_Panic) (\<lambda>_. act_bind try_call (\<lambda>ok.
     act_get (\<lambda>d. if ok then tb_config (db_tables d) key else None))))"

definition get_config_list :: "(ustr \<Rightarrow> ustr option) db_act" where
  "get_config_list = with_conn (act_bind (call_or Db_Panic) (\<lambda>_. act_bind try_call (\<lambda>ok.
     act_get (\<lambda>d. if ok then tb_config (db_tables d) else (\<lambda>_. None)))))"

definition get_status_data_list :: "(ustr \<Rightarrow> ustr option) db_act" where
  "get_status_data_list = with_conn (act_bind sqlite_call (\<lambda>_. act_bind try_call (\<lambda>ok.
     act_get (\<lambda>d. if ok then tb_status (db_tables d) else (\<lambda>_. None)))))"

section \<open>Recording queries\<close>

text \<open>The start of the local hour or day a time stamp falls into; the offset of local time is a
  signed number of seconds, extended to 64 bits.\<close>

definition bucket_start :: "u64 \<Rightarrow> i32 \<Rightarrow> u64 \<Rightarrow> u64" where
  "bucket_start width off ts =
     (let shift = scast off * 1000; local = ts + shift in local - local mod width - shift)"

definition hour_bucket :: "i32 \<Rightarrow> u64 \<Rightarrow> u64" where "hour_bucket = bucket_start 3600000"

definition day_bucket :: "i32 \<Rightarrow> u64 \<Rightarrow> u64" where "day_bucket = bucket_start 86400000"

fun add_count :: "'k \<Rightarrow> nat \<Rightarrow> ('k \<times> nat) list \<Rightarrow> ('k \<times> nat) list" where
  "add_count k n [] = [(k, n)]"
| "add_count k n ((k', m) # xs) = (if k' = k then (k', m + n) # xs else (k', m) # add_count k n xs)"

definition count_all :: "'k list \<Rightarrow> ('k \<times> nat) list" where
  "count_all ks = fold (\<lambda>k m. add_count k 1 m) ks []"

definition update_domain_hourly_count :: "(u64 \<times> nat) list \<Rightarrow> unit db_act" where
  "update_domain_hourly_count counts = act_bind sqlite_call (\<lambda>_.
     act_each (\<lambda>(k, n). act_bind (bind_u64 k) (\<lambda>_. act_bind sqlite_call (\<lambda>_.
       in_tables (\<lambda>t. t\<lparr>tb_hourly := add_count k n (tb_hourly t)\<rparr>)))) counts)"

definition update_domain_daily_count :: "(u64 \<times> nat) list \<Rightarrow> unit db_act" where
  "update_domain_daily_count counts = act_bind sqlite_call (\<lambda>_.
     act_each (\<lambda>(k, n). act_bind (bind_u64 k) (\<lambda>_. act_bind sqlite_call (\<lambda>_.
       in_tables (\<lambda>t. t\<lparr>tb_daily := add_count k n (tb_daily t)\<rparr>)))) counts)"

definition insert_domain_row :: "domain_data \<Rightarrow> unit db_act" where
  "insert_domain_row row = act_bind sqlite_call (\<lambda>_ d.
     let next = Suc (tb_domain_seq (db_tables d))
     in if next < 2 ^ 63
        then in_tables (\<lambda>t. t\<lparr>tb_domain := tb_domain t @
          [row\<lparr>dd_id := of_nat next\<rparr>], tb_domain_seq := next\<rparr>) d
        else (Inl Sqlite, d))"

definition insert_domain :: "i32 \<Rightarrow> domain_data list \<Rightarrow> unit db_act" where
  "insert_domain off rows = with_conn (transaction (
     act_bind sqlite_call (\<lambda>_.
     act_bind (act_each insert_domain_row rows) (\<lambda>_.
     act_bind (update_domain_hourly_count (count_all (map (\<lambda>d. hour_bucket off (dd_timestamp d)) rows))) (\<lambda>_.
       update_domain_daily_count (count_all (map (\<lambda>d. day_bucket off (dd_timestamp d)) rows)))))))"

section \<open>Reading and deleting queries\<close>

definition get_domain_list_count ::
    "(ustr \<Rightarrow> ustr) \<Rightarrow> domain_list_param option \<Rightarrow> u64 db_act" where
  "get_domain_list_count lower param = act_bind get_readonly_conn (\<lambda>ok.
     if \<not> ok then act_return 0
     else act_bind (call_or Db_Panic) (\<lambda>_. act_bind try_call (\<lambda>ok'.
       act_get (\<lambda>d. if ok' then domain_list_count lower param (tb_domain (db_tables d)) else 0))))"

definition get_domain_list ::
    "(ustr \<Rightarrow> ustr) \<Rightarrow> domain_list_param option \<Rightarrow> domain_list_result db_act" where
  "get_domain_list lower param = with_readonly (\<lambda>d.
     case domain_list lower param (tb_domain (db_tables d)) of
       Inl e \<Rightarrow> (Inl (Db_Message e), d)
     | Inr res \<Rightarrow>
         act_bind (call_or (Db_Message (lit ''get_domain_list error''))) (\<lambda>_.
         act_bind sqlite_call (\<lambda>_.
           case Option.bind param dp_cursor of
             Some c \<Rightarrow> act_return res
           | None \<Rightarrow>
               if param = None then act_return res
               else act_bind (get_domain_list_count lower param) (\<lambda>n. act_return (res\<lparr>qd_total_count := n\<rparr>)))) d)"

definition delete_where ::
    "(db_tables \<Rightarrow> 'r list) \<Rightarrow> ('r list \<Rightarrow> db_tables \<Rightarrow> db_tables) \<Rightarrow> ('r \<Rightarrow> bool) \<Rightarrow> u64 db_act" where
  "delete_where get put gone = act_bind sqlite_call (\<lambda>_ d.
     let rows = get (db_tables d)
     in (Inr (of_nat (length (filter gone rows))),
         d\<lparr>db_tables := put (filter (\<lambda>r. \<not> gone r) rows) (db_tables d)\<rparr>))"

definition delete_domain_by_id :: "u64 \<Rightarrow> u64 db_act" where
  "delete_domain_by_id i = with_conn (act_bind (bind_u64 i) (\<lambda>_.
     delete_where tb_domain (\<lambda>rs t. t\<lparr>tb_domain := rs\<rparr>) (\<lambda>r. dd_id r = i)))"

definition delete_domain_before_timestamp :: "u64 \<Rightarrow> u64 db_act" where
  "delete_domain_before_timestamp ts =
     act_bind (with_conn (act_bind (bind_u64 ts) (\<lambda>_.
       delete_where tb_domain (\<lambda>rs t. t\<lparr>tb_domain := rs\<rparr>) (\<lambda>r. dd_timestamp r \<le> ts)))) (\<lambda>n.
     act_bind run_vacuum (\<lambda>_. act_return n))"

definition delete_hourly_query_count_before_timestamp :: "u64 \<Rightarrow> u64 db_act" where
  "delete_hourly_query_count_before_timestamp ts = with_conn (act_bind (bind_u64 ts) (\<lambda>_.
     delete_where tb_hourly (\<lambda>rs t. t\<lparr>tb_hourly := rs\<rparr>) (\<lambda>r. fst r \<le> ts)))"

definition delete_daily_query_count_before_timestamp :: "u64 \<Rightarrow> u64 db_act" where
  "delete_daily_query_count_before_timestamp ts = with_conn (act_bind (bind_u64 ts) (\<lambda>_.
     delete_where tb_daily (\<lambda>rs t. t\<lparr>tb_daily := rs\<rparr>) (\<lambda>r. fst r \<le> ts)))"

text \<open>Recent counts, newest first: \<open>past\<close> periods of \<open>period\<close> seconds back from the next full
  hour (\<open>to_hour\<close> seconds away), in 32-bit arithmetic; \<open>now\<close> is in seconds.\<close>

definition count_window :: "u32 \<Rightarrow> u32 \<Rightarrow> nat \<Rightarrow> u32" where
  "count_window period past to_hour = period * past - of_nat to_hour"

definition count_items :: "(u64 \<Rightarrow> ustr) \<Rightarrow> int \<Rightarrow> u32 \<Rightarrow> (u64 \<times> nat) list \<Rightarrow> count_item list" where
  "count_items fmt now secs counts =
     map (\<lambda>(k, n). \<lparr>ci_time = fmt k, ci_query_count = of_nat n\<rparr>)
       (filter (\<lambda>(k, n). n < 2 ^ 32 \<and> now * 1000 - int (unat secs) * 1000 \<le> int (unat k))
         (rev (sort_key fst counts)))"

definition get_hourly_query_count ::
    "(u64 \<Rightarrow> ustr) \<Rightarrow> int \<Rightarrow> nat \<Rightarrow> u32 \<Rightarrow> count_item list db_act" where
  "get_hourly_query_count fmt now to_hour past = with_readonly (
     act_bind sqlite_call (\<lambda>_. act_bind try_call (\<lambda>ok.
       act_get (\<lambda>d. if ok then count_items fmt now (count_window 3600 past to_hour) (tb_hourly (db_tables d))
                    else []))))"

definition get_daily_query_count ::
    "(u64 \<Rightarrow> ustr) \<Rightarrow> int \<Rightarrow> nat \<Rightarrow> u32 \<Rightarrow> count_item list db_act" where
  "get_daily_query_count fmt now to_hour past = with_readonly (
     act_bind sqlite_call (\<lambda>_. act_bind try_call (\<lambda>ok.
       act_get (\<lambda>d. if ok then count_items fmt now (count_window 86400 past to_hour) (tb_daily (db_tables d))
                    else []))))"

section \<open>Top lists\<close>

text \<open>GROUP BY, ORDER BY COUNT(*) DESC and LIMIT 20. Equal counts have no order in SQL; the model
  keeps the order in which the names first occur.\<close>

definition descending_by :: "('r \<Rightarrow> 'k::linorder) \<Rightarrow> 'r list \<Rightarrow> 'r list" where
  "descending_by key rows = rev (sort_key key (rev rows))"

definition top_counts :: "nat \<Rightarrow> ustr list \<Rightarrow> (ustr \<times> nat) list" where
  "top_counts n names = take n (descending_by snd (count_all names))"

definition top_rows :: "u64 \<Rightarrow> u64 \<Rightarrow> (ustr \<times> nat) list \<Rightarrow> query_count list" where
  "top_rows from now counts =
     map (\<lambda>(k, n). \<lparr>qt_name = k, qt_count = of_nat n, qt_timestamp_start = from,
       qt_timestamp_end = now\<rparr>)
       (filter (\<lambda>(k, n). n < 2 ^ 32) counts)"

definition refresh_top ::
    "(domain_data \<Rightarrow> ustr) \<Rightarrow> (query_count list \<Rightarrow> db_tables \<Rightarrow> db_tables) \<Rightarrow>
      (query_count \<Rightarrow> db_tables \<Rightarrow> db_tables) \<Rightarrow> u64 \<Rightarrow> u64 \<Rightarrow> unit db_act" where
  "refresh_top name clear add now from = with_readonly (
     act_bind sqlite_call (\<lambda>_. act_bind try_call (\<lambda>ok.
     act_bind (act_get (\<lambda>d. if ok then top_rows from now (top_counts 20
         (map name (filter (\<lambda>r. from \<le> dd_timestamp r) (tb_domain (db_tables d))))) else [])) (\<lambda>rows.
     with_conn (transaction (
       act_bind sqlite_call (\<lambda>_. act_bind sqlite_call (\<lambda>_. act_bind (in_tables (clear [])) (\<lambda>_.
       act_bind sqlite_call (\<lambda>_.
         act_each (\<lambda>r. act_bind (bind_u64 (qt_timestamp_start r)) (\<lambda>_. act_bind sqlite_call (\<lambda>_.
           in_tables (add r)))) rows))))))))))"

definition refresh_client_top_list :: "u64 \<Rightarrow> u64 \<Rightarrow> unit db_act" where
  "refresh_client_top_list = refresh_top dd_client (\<lambda>rs t. t\<lparr>tb_top_client := rs\<rparr>)
     (\<lambda>r t. t\<lparr>tb_top_client := tb_top_client t @ [r]\<rparr>)"

definition refresh_domain_top_list :: "u64 \<Rightarrow> u64 \<Rightarrow> unit db_act" where
  "refresh_domain_top_list = refresh_top dd_domain (\<lambda>rs t. t\<lparr>tb_top_domain := rs\<rparr>)
     (\<lambda>r t. t\<lparr>tb_top_domain := tb_top_domain t @ [r]\<rparr>)"

definition get_client_top_list :: "u32 \<Rightarrow> query_count list db_act" where
  "get_client_top_list n = with_readonly (act_bind sqlite_call (\<lambda>_. act_bind try_call (\<lambda>ok.
     act_get (\<lambda>d. if ok then take (unat n) (descending_by qt_count (tb_top_client (db_tables d))) else []))))"

text \<open>The statement reads \<open>FROM top_domain_list DESC LIMIT ?\<close>: \<open>DESC\<close> is an alias, not an order.\<close>

definition get_domain_top_list :: "u32 \<Rightarrow> query_count list db_act" where
  "get_domain_top_list n = with_readonly (act_bind sqlite_call (\<lambda>_. act_bind sqlite_call (\<lambda>_.
     act_get (\<lambda>d. take (unat n) (tb_top_domain (db_tables d))))))"

section \<open>Clients\<close>

definition client_key :: "client_data \<Rightarrow> ustr \<times> ustr" where
  "client_key c = (cd_client_ip c, cd_mac c)"

definition next_client_id :: "client_data list \<Rightarrow> u32" where
  "next_client_id rows = (if rows = [] then 1 else of_nat (Max (set (map (\<lambda>c. unat (cd_id c)) rows)) + 1))"

definition upsert_client :: "client_data \<Rightarrow> client_data list \<Rightarrow> client_data list" where
  "upsert_client c rows =
     (if client_key c \<in> set (map client_key rows)
      then map (\<lambda>r. if client_key r = client_key c
                    then r\<lparr>cd_last_query_timestamp := cd_last_query_timestamp c\<rparr> else r) rows
      else rows @ [c\<lparr>cd_id := next_client_id rows\<rparr>])"

definition insert_client :: "client_data list \<Rightarrow> unit db_act" where
  "insert_client clients = with_conn (transaction (act_bind sqlite_call (\<lambda>_.
     act_each (\<lambda>c. act_bind (bind_u64 (cd_last_query_timestamp c)) (\<lambda>_. act_bind sqlite_call (\<lambda>_.
       in_tables (\<lambda>t. t\<lparr>tb_client := upsert_client c (tb_client t)\<rparr>)))) clients)))"

definition get_client_list_count :: "client_list_param option \<Rightarrow> u64 db_act" where
  "get_client_list_count param = act_bind get_readonly_conn (\<lambda>ok.
     if \<not> ok then act_return 0
     else act_bind (call_or Db_Panic) (\<lambda>_. act_bind try_call (\<lambda>ok'.
       act_get (\<lambda>d. if ok' then client_list_count param (tb_client (db_tables d)) else 0))))"

definition get_client_list :: "client_list_param option \<Rightarrow> client_list_result db_act" where
  "get_client_list param = with_readonly (\<lambda>d.
     case client_list param (tb_client (db_tables d)) of
       Inl e \<Rightarrow> (Inl (Db_Message e), d)
     | Inr res \<Rightarrow>
         act_bind (call_or (Db_Message (lit ''get_client_list error''))) (\<lambda>_.
         act_bind sqlite_call (\<lambda>_.
           case Option.bind param cp_cursor of
             Some c \<Rightarrow> act_return res
           | None \<Rightarrow>
               if param = None then act_return res
               else act_bind (get_client_list_count param) (\<lambda>n. act_return (res\<lparr>qc_total_count := n\<rparr>)))) d)"

definition delete_client_by_id :: "u64 \<Rightarrow> u64 db_act" where
  "delete_client_by_id i = with_conn (act_bind (bind_u64 i) (\<lambda>_.
     delete_where tb_client (\<lambda>rs t. t\<lparr>tb_client := rs\<rparr>) (\<lambda>r. unat (cd_id r) = unat i)))"

definition get_db_size :: "(u64 option \<times> u64 option) \<Rightarrow> db \<Rightarrow> u64" where
  "get_db_size sizes d =
     (if \<not> db_is_open d then 0
      else case fst sizes of None \<Rightarrow> 0
           | Some n \<Rightarrow> n + (case snd sizes of None \<Rightarrow> 0 | Some w \<Rightarrow> w))"

section \<open>What a call can change\<close>

named_theorems act_inv \<open>inversion of successful and failing operations\<close>

lemmas [act_inv] = act_bind_Inr act_bind_Inl

definition spent :: "db \<Rightarrow> db \<Rightarrow> bool" where
  "spent d d' \<longleftrightarrow> (\<exists>c. d' = d\<lparr>db_calls := c\<rparr>)"

lemma spent_refl [simp]: "spent d d"
  unfolding spent_def by (rule exI [of _ "db_calls d"]) simp

lemma spent_trans: "spent a b \<Longrightarrow> spent b c \<Longrightarrow> spent a c"
  by (auto simp: spent_def)

lemma spent_fields:
  "spent d d' \<Longrightarrow> db_tables d' = db_tables d \<and> db_is_open d' = db_is_open d \<and> db_exists d' = db_exists d"
  by (auto simp: spent_def)

lemma try_call_spent: "try_call d = (r, d') \<Longrightarrow> spent d d'"
  by (cases "db_calls d") (auto simp: try_call_def spent_def intro: spent_refl [unfolded spent_def])

lemma try_call_never_fails [simp]: "try_call d \<noteq> (Inl e, d')"
  by (auto simp: try_call_def split: list.splits)

lemma call_or_spent: "call_or e d = (r, d') \<Longrightarrow> spent d d'"
  using try_call_spent
  by (fastforce simp: call_or_def act_bind_def act_return_def act_fail_def split: prod.splits sum.splits if_splits)

lemma in_tables_result [simp]:
  "in_tables f d = (r, d') \<longleftrightarrow> r = Inr () \<and> d' = d\<lparr>db_tables := f (db_tables d)\<rparr>"
  by (auto simp: in_tables_def act_upd_def)

lemma bind_u64_result: "bind_u64 v d = (r, d') \<Longrightarrow> d' = d \<and> (r = Inr () \<longleftrightarrow> unat v < 2 ^ 63)"
  by (auto simp: bind_u64_def act_return_def act_fail_def split: if_splits)

lemma with_conn_result:
  "with_conn m d = (r, d') \<longleftrightarrow> (if db_is_open d then m d = (r,
    d') else r = Inl Not_Open \<and> d' = d)"
  by (auto simp: with_conn_def)

text \<open>A call followed by a change of the tables: what \<open>prepare\<close> and \<open>execute\<close> do.\<close>

lemma call_then_tables:
  "act_bind (call_or e) (\<lambda>_. in_tables f) d = (Inr u,
    d') \<Longrightarrow> db_tables d' = f (db_tables d)"
  by (auto simp: act_bind_Inr dest!: call_or_spent spent_fields)

lemma transaction_error: "transaction body d = (Inl e, d') \<Longrightarrow> db_tables d' = db_tables d"
proof -
  assume t: "transaction body d = (Inl e, d')"
  obtain r1 d1 where c: "sqlite_call d = (r1, d1)" by fastforce
  obtain r2 d2 where b: "act_bind body (\<lambda>x. act_bind sqlite_call (\<lambda>_. act_return x)) d1 = (r2, d2)"
    by fastforce
  show ?thesis
    using t call_or_spent [OF c, THEN spent_fields]
    by (cases r1; cases r2) (auto simp: transaction_def c b act_bind_def [of sqlite_call])
qed

lemma transaction_ok:
  assumes "transaction body d = (Inr x, d')"
  obtains d1 d2 where "spent d d1" "body d1 = (Inr x, d2)" "spent d2 d'"
proof -
  obtain d1 where d1: "sqlite_call d = (Inr (), d1)"
    and b: "(case act_bind body (\<lambda>x. act_bind sqlite_call (\<lambda>_. act_return x)) d1 of
        (Inl e, d') \<Rightarrow> (Inl e, d'\<lparr>db_tables := db_tables d1\<rparr>) | (Inr x,
          d') \<Rightarrow> (Inr x, d')) = (Inr x, d')"
    using assms by (auto simp: transaction_def act_bind_Inr)
  then have "act_bind body (\<lambda>x. act_bind sqlite_call (\<lambda>_. act_return x)) d1 = (Inr x, d')"
    by (auto split: prod.splits sum.splits)
  then obtain d2 where "body d1 = (Inr x, d2)" "sqlite_call d2 = (Inr (), d')"
    by (auto simp: act_bind_Inr)
  then show thesis using that d1 by (blast dest: call_or_spent)
qed

lemma transaction_frame:
  assumes "transaction body d = (r, d')" "\<And>d1 r1 d2. body d1 = (r1,
    d2) \<Longrightarrow> db_is_open d2 = db_is_open d1"
  shows "db_is_open d' = db_is_open d"
  using assms(1)
  by (auto simp: transaction_def act_bind_def act_return_def split: prod.splits sum.splits
      dest!: call_or_spent spent_fields assms(2))
section \<open>Buckets\<close>

lemma scast_word_of_int: "(scast (off :: i32) :: u64) = word_of_int (sint off)"
  by simp

text \<open>C28: The 64-bit arithmetic of the time buckets is exact for every local offset: a bucket
  starts on a full local hour or day, not after the time stamp and less than its width before
  it.\<close>

theorem bucket_start_bounds:
  assumes "abs (sint off) \<le> 86400" "86400000 \<le> ts" "ts < 2 ^ 63" "width = 3600000 \<or> width = 86400000"
  shows "uint (bucket_start width off ts) \<le> uint ts \<and>
    uint ts < uint (bucket_start width off ts) + uint width \<and>
    (uint (bucket_start width off ts) + sint off * 1000) mod uint width = 0"
proof -
  let ?shift = "scast off * 1000 :: u64"
  let ?local = "ts + ?shift"
  let ?x = "uint ts + sint off * 1000"
  have ts: "86400000 \<le> uint ts" "uint ts < 2 ^ 63"
    using assms(2,3) by (simp_all add: word_le_def word_less_def)
  have w: "0 < uint width" "uint width \<le> 86400000" using assms(4) by auto
  have "?local = word_of_int ?x" by simp
  then have "uint ?local = ?x mod 2 ^ 64"
    by (simp only: uint_word_of_int) simp
  then have local: "uint ?local = ?x" using assms(1) ts by simp
  have m: "uint (?local mod width) = ?x mod uint width" by (simp add: uint_mod local)
  have "bucket_start width off ts = ts - ?local mod width"
    by (simp add: bucket_start_def Let_def)
  moreover have "?x mod uint width < uint width" "0 \<le> ?x mod uint width" using w by simp_all
  moreover from this have "uint (?local mod width) \<le> uint ts" using ts w m by linarith
  then have "uint (ts - ?local mod width) = uint ts - uint (?local mod width)"
    by (rule uint_sub_lem [THEN iffD1])
  ultimately have u: "uint (bucket_start width off ts) = uint ts - ?x mod uint width"
    using m by simp
  have "(uint ts - ?x mod uint width + sint off * 1000) mod uint width = (?x - ?x mod uint width) mod uint width"
    by (simp add: algebra_simps)
  also have "\<dots> = 0" by simp
  finally show ?thesis
    using u \<open>?x mod uint width < uint width\<close> \<open>0 \<le> ?x mod uint width\<close> by simp
qed

section \<open>Counting\<close>

definition count_of :: "'k \<Rightarrow> ('k \<times> nat) list \<Rightarrow> nat" where
  "count_of k xs = (case map_of xs k of None \<Rightarrow> 0 | Some n \<Rightarrow> n)"

lemma count_of_Nil [simp]: "count_of k [] = 0"
  by (simp add: count_of_def)

lemma count_of_Cons: "count_of k ((k', n) # xs) = (if k = k' then n else count_of k xs)"
  by (simp add: count_of_def)

lemma count_of_add: "count_of h (add_count k n xs) = count_of h xs + (if h = k then n else 0)"
  by (induction k n xs rule: add_count.induct) (auto simp: count_of_Cons)

lemma add_count_keys: "fst ` set (add_count k n xs) = insert k (fst ` set xs)"
  by (induction k n xs rule: add_count.induct) auto

lemma add_count_distinct: "distinct (map fst xs) \<Longrightarrow> distinct (map fst (add_count k n xs))"
  by (induction k n xs rule: add_count.induct) (auto simp: add_count_keys)

lemma fold_count_of:
  "count_of h (fold (\<lambda>k m. add_count k 1 m) ks m) = count_of h m + count_list ks h"
  by (induction ks arbitrary: m) (auto simp: count_of_add)

lemma fold_count_distinct:
  "distinct (map fst m) \<Longrightarrow> distinct (map fst (fold (\<lambda>k m. add_count k 1 m) ks m))"
  by (induction ks arbitrary: m) (auto intro: add_count_distinct)

lemma count_all_of: "count_of h (count_all ks) = count_list ks h"
  unfolding count_all_def fold_count_of by simp

lemma count_all_distinct: "distinct (map fst (count_all ks))"
  unfolding count_all_def by (rule fold_count_distinct) simp

lemma fold_add_counts:
  "distinct (map fst counts) \<Longrightarrow>
   count_of h (fold (\<lambda>(k, n). add_count k n) counts m) = count_of h m + count_of h counts"
proof (induction counts arbitrary: m)
  case (Cons c counts)
  obtain k n where c: "c = (k, n)" by fastforce
  have "k \<notin> fst ` set counts" using Cons.prems c by simp
  then have "count_of k counts = 0" by (simp add: count_of_def map_of_eq_None_iff [THEN iffD2])
  then show ?case using Cons by (simp add: c count_of_Cons count_of_add)
qed simp

lemma fold_add_counts_distinct:
  "distinct (map fst m) \<Longrightarrow> distinct (map fst (fold (\<lambda>(k, n). add_count k n) counts m))"
  by (induction counts arbitrary: m) (auto intro: add_count_distinct)

section \<open>Inserting queries\<close>

fun numbered :: "nat \<Rightarrow> domain_data list \<Rightarrow> domain_data list" where
  "numbered n [] = []"
| "numbered n (r # rs) = r\<lparr>dd_id := of_nat (Suc n)\<rparr> # numbered (Suc n) rs"

definition add_row :: "domain_data \<Rightarrow> db_tables \<Rightarrow> db_tables" where
  "add_row r t = t\<lparr>tb_domain := tb_domain t @ [r\<lparr>dd_id := of_nat (Suc (tb_domain_seq t))\<rparr>],
     tb_domain_seq := Suc (tb_domain_seq t)\<rparr>"

lemma fold_add_row:
  "fold add_row rs t = t\<lparr>tb_domain := tb_domain t @ numbered (tb_domain_seq t) rs,
     tb_domain_seq := tb_domain_seq t + length rs\<rparr>"
  by (induction rs arbitrary: t) (simp_all add: add_row_def)

lemma insert_domain_row_ok:
  "insert_domain_row r d = (Inr (), d') \<Longrightarrow>
     db_tables d' = add_row r (db_tables d) \<and> tb_domain_seq (db_tables d') < 2 ^ 63"
  by (auto simp: insert_domain_row_def act_bind_Inr Let_def add_row_def split: if_splits
      dest!: call_or_spent spent_fields)

lemma count_row_ok:
  "act_bind (bind_u64 k) (\<lambda>_. act_bind sqlite_call (\<lambda>_. in_tables f)) d = (Inr (),
    d') \<Longrightarrow>
     db_tables d' = f (db_tables d)"
  by (auto simp: act_bind_Inr dest!: bind_u64_result call_or_spent spent_fields)

lemma fold_hourly:
  "fold (\<lambda>(k, n) t. t\<lparr>tb_hourly := add_count k n (tb_hourly t)\<rparr>) counts t =
     t\<lparr>tb_hourly := fold (\<lambda>(k, n). add_count k n) counts (tb_hourly t)\<rparr>"
  by (induction counts arbitrary: t) auto

lemma fold_daily:
  "fold (\<lambda>(k, n) t. t\<lparr>tb_daily := add_count k n (tb_daily t)\<rparr>) counts t =
     t\<lparr>tb_daily := fold (\<lambda>(k, n). add_count k n) counts (tb_daily t)\<rparr>"
  by (induction counts arbitrary: t) auto

lemma update_hourly_ok:
  assumes "update_domain_hourly_count counts d = (Inr (), d')"
  shows "db_tables d' = (db_tables d)\<lparr>tb_hourly := fold (\<lambda>(k,
    n). add_count k n) counts (tb_hourly (db_tables d))\<rparr>"
proof -
  from assms obtain d1 where d1: "sqlite_call d = (Inr (), d1)"
    and loop: "act_each (\<lambda>(k, n). act_bind (bind_u64 k) (\<lambda>_. act_bind sqlite_call (\<lambda>_.
       in_tables (\<lambda>t. t\<lparr>tb_hourly := add_count k n (tb_hourly t)\<rparr>)))) counts d1 = (Inr (), d')"
    by (auto simp: update_domain_hourly_count_def act_bind_Inr)
  have "db_tables d' = fold (\<lambda>(k, n) t. t\<lparr>tb_hourly := add_count k n (tb_hourly t)\<rparr>) counts (db_tables d1)"
    by (rule act_each_fold [OF _ loop]) (simp add: count_row_ok split_beta)
  then show ?thesis
    using call_or_spent [OF d1, THEN spent_fields] by (simp add: fold_hourly)
qed

lemma update_daily_ok:
  assumes "update_domain_daily_count counts d = (Inr (), d')"
  shows "db_tables d' = (db_tables d)\<lparr>tb_daily := fold (\<lambda>(k,
    n). add_count k n) counts (tb_daily (db_tables d))\<rparr>"
proof -
  from assms obtain d1 where d1: "sqlite_call d = (Inr (), d1)"
    and loop: "act_each (\<lambda>(k, n). act_bind (bind_u64 k) (\<lambda>_. act_bind sqlite_call (\<lambda>_.
       in_tables (\<lambda>t. t\<lparr>tb_daily := add_count k n (tb_daily t)\<rparr>)))) counts d1 = (Inr (), d')"
    by (auto simp: update_domain_daily_count_def act_bind_Inr)
  have "db_tables d' = fold (\<lambda>(k, n) t. t\<lparr>tb_daily := add_count k n (tb_daily t)\<rparr>) counts (db_tables d1)"
    by (rule act_each_fold [OF _ loop]) (simp add: count_row_ok split_beta)
  then show ?thesis
    using call_or_spent [OF d1, THEN spent_fields] by (simp add: fold_daily)
qed

definition inserted :: "i32 \<Rightarrow> domain_data list \<Rightarrow> db_tables \<Rightarrow> db_tables" where
  "inserted off rows t =
     t\<lparr>tb_domain := tb_domain t @ numbered (tb_domain_seq t) rows,
       tb_domain_seq := tb_domain_seq t + length rows,
       tb_hourly := fold (\<lambda>(k, n). add_count k n)
         (count_all (map (\<lambda>d. hour_bucket off (dd_timestamp d)) rows)) (tb_hourly t),
       tb_daily := fold (\<lambda>(k, n). add_count k n)
         (count_all (map (\<lambda>d. day_bucket off (dd_timestamp d)) rows)) (tb_daily t)\<rparr>"

lemma insert_domain_ok:
  assumes "insert_domain off rows d = (Inr (), d')"
  shows "db_tables d' = inserted off rows (db_tables d) \<and> db_is_open d"
proof -
  from assms have open_d: "db_is_open d" by (auto simp: insert_domain_def with_conn_result split: if_splits)
  from assms open_d obtain d1 d2 where sp: "spent d d1" "spent d2 d'"
    and body: "act_bind sqlite_call (\<lambda>_.
     act_bind (act_each insert_domain_row rows) (\<lambda>_.
     act_bind (update_domain_hourly_count (count_all (map (\<lambda>d. hour_bucket off (dd_timestamp d)) rows))) (\<lambda>_.
       update_domain_daily_count (count_all (map (\<lambda>d. day_bucket off (dd_timestamp d)) rows))))) d1 = (Inr (), d2)"
    unfolding insert_domain_def with_conn_def by (auto elim: transaction_ok)
  from body obtain d3 d4 d5 where "sqlite_call d1 = (Inr (), d3)"
    and rows: "act_each insert_domain_row rows d3 = (Inr (), d4)"
    and hours: "update_domain_hourly_count (count_all (map (\<lambda>d. hour_bucket off (dd_timestamp d)) rows)) d4 = (Inr (), d5)"
    and days: "update_domain_daily_count (count_all (map (\<lambda>d. day_bucket off (dd_timestamp d)) rows)) d5 = (Inr (), d2)"
    by (auto simp: act_bind_Inr)
  have "db_tables d4 = fold add_row rows (db_tables d3)"
    by (rule act_each_fold [OF _ rows]) (simp add: insert_domain_row_ok)
  moreover have "db_tables d3 = db_tables d"
    using sp(1) call_or_spent [OF \<open>sqlite_call d1 = _\<close>] by (simp add: spent_fields)
  ultimately show ?thesis
    using update_hourly_ok [OF hours] update_daily_ok [OF days] spent_fields [OF sp(2)] open_d
    by (simp add: inserted_def fold_add_row)
qed

text \<open>C5: Recording queries is atomic: an error leaves every table as it was, success appends the
  numbered rows and adds to the count of each local hour and day the number of recorded queries
  that fall into it.\<close>

theorem insert_domain_outcome:
  "insert_domain off rows d = (r, d') \<Longrightarrow>
     (case r of
        Inl e \<Rightarrow> db_tables d' = db_tables d
      | Inr _ \<Rightarrow> db_tables d' = inserted off rows (db_tables d) \<and>
          (\<forall>h. count_of h (tb_hourly (db_tables d')) = count_of h (tb_hourly (db_tables d)) +
             length (filter (\<lambda>x. hour_bucket off (dd_timestamp x) = h) rows)) \<and>
          (\<forall>h. count_of h (tb_daily (db_tables d')) = count_of h (tb_daily (db_tables d)) +
             length (filter (\<lambda>x. day_bucket off (dd_timestamp x) = h) rows)))"
proof (cases r)
  case (Inl e)
  assume "insert_domain off rows d = (r, d')"
  then show ?thesis
    using Inl by (auto simp: insert_domain_def with_conn_result split: if_splits dest: transaction_error)
next
  case (Inr u)
  assume i: "insert_domain off rows d = (r, d')"
  have count_list_map: "count_list (map f xs) h = length (filter (\<lambda>x. f x = h) xs)" for f :: "domain_data \<Rightarrow> u64" and xs h
    by (induction xs) auto
  have "db_tables d' = inserted off rows (db_tables d)"
    using insert_domain_ok i Inr by simp
  then show ?thesis
    using Inr by (simp add: inserted_def fold_add_counts count_all_distinct count_all_of count_list_map)
qed
section \<open>Clients are a map from address and MAC to the last query\<close>

text \<open>The contract of the client table: it stands for a finite map, and recording a client is an
  update of that map.\<close>

definition client_seen :: "client_data list \<Rightarrow> ustr \<times> ustr \<Rightarrow> u64 option" where
  "client_seen rows = map_of (map (\<lambda>c. (client_key c, cd_last_query_timestamp c)) rows)"

definition clients_ok :: "client_data list \<Rightarrow> bool" where
  "clients_ok rows \<longleftrightarrow> distinct (map client_key rows) \<and> distinct (map cd_id rows)"

definition max_client_id :: "client_data list \<Rightarrow> nat" where
  "max_client_id rows = Max (insert 0 (set (map (\<lambda>c. unat (cd_id c)) rows)))"

lemma next_client_id_max: "next_client_id rows = of_nat (max_client_id rows + 1)"
proof (cases "rows = []")
  case False
  then have "Max (insert 0 (set (map (\<lambda>c. unat (cd_id c)) rows))) = Max (set (map (\<lambda>c. unat (cd_id c)) rows))"
    by (subst Max_insert) auto
  then show ?thesis using False by (simp add: next_client_id_def max_client_id_def)
qed (simp add: next_client_id_def max_client_id_def)

lemma max_client_id_le: "c \<in> set rows \<Longrightarrow> unat (cd_id c) \<le> max_client_id rows"
  by (simp add: max_client_id_def)

lemma client_key_touch [simp]: "client_key (r\<lparr>cd_last_query_timestamp := t\<rparr>) = client_key r"
  "client_key (r\<lparr>cd_id := i\<rparr>) = client_key r"
  by (simp_all add: client_key_def)

lemma upsert_keys:
  "map client_key (upsert_client c rows) =
     (if client_key c \<in> set (map client_key rows) then map client_key rows else map client_key rows @ [client_key c])"
  by (auto simp: upsert_client_def)

lemma upsert_ids:
  "map cd_id (upsert_client c rows) =
     (if client_key c \<in> set (map client_key rows) then map cd_id rows else map cd_id rows @
       [next_client_id rows])"
  by (auto simp: upsert_client_def)

lemma client_seen_simps [simp]:
  "client_seen [] = (\<lambda>_. None)"
  "client_seen (c # rows) = (client_seen rows)(client_key c \<mapsto> cd_last_query_timestamp c)"
  by (simp_all add: client_seen_def)

lemma client_seen_map:
  "client_seen (map (\<lambda>r. if client_key r = k then r\<lparr>cd_last_query_timestamp := t\<rparr> else r) rows) j =
     (if j = k \<and> k \<in> set (map client_key rows) then Some t else client_seen rows j)"
  by (induction rows) auto

lemma client_seen_new: "k \<notin> set (map client_key rows) \<Longrightarrow> client_seen rows k = None"
  by (induction rows) auto

lemma client_seen_snoc:
  "client_key c \<notin> set (map client_key rows) \<Longrightarrow>
     client_seen (rows @ [c]) = (client_seen rows)(client_key c \<mapsto> cd_last_query_timestamp c)"
  by (induction rows) (auto simp: fun_upd_twist)

lemma upsert_seen:
  "client_seen (upsert_client c rows) = (client_seen rows)(client_key c \<mapsto> cd_last_query_timestamp c)"
proof (cases "client_key c \<in> set (map client_key rows)")
  case True
  then show ?thesis using client_seen_map [of "client_key c" "cd_last_query_timestamp c" rows]
    by (auto simp: upsert_client_def fun_eq_iff)
next
  case False
  then show ?thesis using client_seen_snoc [of "c\<lparr>cd_id := next_client_id rows\<rparr>" rows]
    by (simp add: upsert_client_def)
qed

lemma unat_of_nat_32: "m < 2 ^ 32 \<Longrightarrow> unat (of_nat m :: u32) = m"
  by (simp add: unsigned_of_nat take_bit_nat_eq_self)

lemma upsert_ok:
  assumes "clients_ok rows" "max_client_id rows + 1 < 2 ^ 32"
  shows "clients_ok (upsert_client c rows) \<and> max_client_id (upsert_client c rows) \<le> max_client_id rows + 1"
proof -
  have n: "unat (next_client_id rows) = max_client_id rows + 1"
    unfolding next_client_id_max using assms(2) by (rule unat_of_nat_32)
  then have "next_client_id rows \<notin> set (map cd_id rows)"
    using max_client_id_le [of _ rows] by fastforce
  then have "clients_ok (upsert_client c rows)"
    using assms(1) unfolding clients_ok_def upsert_keys upsert_ids by simp
  moreover have "max_client_id (upsert_client c rows) \<le> max_client_id rows + 1"
  proof -
    have "set (map (\<lambda>c. unat (cd_id c)) (upsert_client c rows)) = unat ` set (map cd_id (upsert_client c rows))"
      by auto
    also have "\<dots> \<subseteq> insert (max_client_id rows + 1) (set (map (\<lambda>c. unat (cd_id c)) rows))"
      unfolding upsert_ids using n by auto
    finally have s: "set (map (\<lambda>c. unat (cd_id c)) (upsert_client c rows)) \<subseteq>
        insert (max_client_id rows + 1) (set (map (\<lambda>c. unat (cd_id c)) rows))" .
    show ?thesis
      unfolding max_client_id_def [of "upsert_client c rows"]
      by (rule Max.boundedI) (use s max_client_id_le [of _ rows] in \<open>fastforce simp: le_SucI\<close>)+
  qed
  ultimately show ?thesis by simp
qed

lemma fold_upsert_ok:
  "clients_ok rows \<Longrightarrow> max_client_id rows + length cs < 2 ^ 32 \<Longrightarrow> clients_ok (fold upsert_client cs rows)"
proof (induction cs arbitrary: rows)
  case (Cons c cs)
  then show ?case using upsert_ok [of rows c] by simp
qed simp

text \<open>The client table implements a map from address and MAC to the time of the last query.\<close>

interpretation seen_clients: simulation upsert_client "\<lambda>rows. True" client_seen
  "\<lambda>c m. m(client_key c \<mapsto> cd_last_query_timestamp c)"
  by unfold_locales (simp_all add: upsert_seen)

lemma fold_client_update:
  "fold (\<lambda>c t. t\<lparr>tb_client := upsert_client c (tb_client t)\<rparr>) cs t =
     t\<lparr>tb_client := fold upsert_client cs (tb_client t)\<rparr>"
  by (induction cs arbitrary: t) simp_all

lemma insert_client_ok:
  assumes "insert_client cs d = (Inr (), d')"
  shows "db_tables d' = (db_tables d)\<lparr>tb_client := fold upsert_client cs (tb_client (db_tables d))\<rparr>"
proof -
  from assms have "db_is_open d" by (auto simp: insert_client_def with_conn_result split: if_splits)
  with assms obtain d1 d2 where sp: "spent d d1" "spent d2 d'"
    and body: "act_bind sqlite_call (\<lambda>_.
     act_each (\<lambda>c. act_bind (bind_u64 (cd_last_query_timestamp c)) (\<lambda>_. act_bind sqlite_call (\<lambda>_.
       in_tables (\<lambda>t. t\<lparr>tb_client := upsert_client c (tb_client t)\<rparr>)))) cs) d1 = (Inr (), d2)"
    unfolding insert_client_def with_conn_def by (auto elim: transaction_ok)
  from body obtain d3 where d3: "sqlite_call d1 = (Inr (), d3)"
    and loop: "act_each (\<lambda>c. act_bind (bind_u64 (cd_last_query_timestamp c)) (\<lambda>_. act_bind sqlite_call (\<lambda>_.
       in_tables (\<lambda>t. t\<lparr>tb_client := upsert_client c (tb_client t)\<rparr>)))) cs d3 = (Inr (), d2)"
    by (auto simp: act_bind_Inr)
  have "db_tables d2 = fold (\<lambda>c t. t\<lparr>tb_client := upsert_client c (tb_client t)\<rparr>) cs (db_tables d3)"
    by (rule act_each_fold [OF _ loop]) (rule count_row_ok)
  then show ?thesis
    using spent_fields [OF sp(1)] spent_fields [OF sp(2)] call_or_spent [OF d3, THEN spent_fields]
    by (simp add: fold_client_update)
qed

text \<open>C15: The client table implements a map from address and MAC to the time of the last query:
  recording clients is the sequence of map updates, or nothing when it fails.\<close>

theorem insert_client_refines_map:
  assumes "insert_client cs d = (r, d')"
  shows "client_seen (tb_client (db_tables d')) =
    (case r of
       Inl e \<Rightarrow> client_seen (tb_client (db_tables d))
     | Inr _ \<Rightarrow> fold (\<lambda>c m. m(client_key c \<mapsto> cd_last_query_timestamp c)) cs (client_seen (tb_client (db_tables d))))"
proof (cases r)
  case (Inl e)
  then have "db_tables d' = db_tables d"
    using assms by (auto simp: insert_client_def with_conn_result split: if_splits dest: transaction_error)
  then show ?thesis using Inl by simp
next
  case (Inr u)
  then show ?thesis using insert_client_ok [of cs d d'] assms by (simp add: seen_clients.run_abs)
qed
section \<open>An invariant of the tables\<close>

text \<open>Query rows are in id order and numbered up to the sequence; every bucket has one row; a
  client is listed once, under one id.\<close>

definition tables_ok :: "db_tables \<Rightarrow> bool" where
  "tables_ok t \<longleftrightarrow>
     sorted_wrt (<) (map (\<lambda>r. unat (dd_id r)) (tb_domain t)) \<and>
     (\<forall>r \<in> set (tb_domain t). unat (dd_id r) \<le> tb_domain_seq t) \<and> tb_domain_seq t < 2 ^ 63 \<and>
     distinct (map fst (tb_hourly t)) \<and> distinct (map fst (tb_daily t)) \<and> clients_ok (tb_client t)"

definition keeps :: "(db_tables \<Rightarrow> bool) \<Rightarrow> 'a db_act \<Rightarrow> bool" where
  "keeps P m \<longleftrightarrow> (\<forall>d r d'. P (db_tables d) \<longrightarrow> m d = (r,
    d') \<longrightarrow> P (db_tables d'))"

named_theorems keeps_intros \<open>operations that keep a property of the tables\<close>

lemma keepsI: "(\<And>d r d'. P (db_tables d) \<Longrightarrow> m d = (r,
  d') \<Longrightarrow> P (db_tables d')) \<Longrightarrow> keeps P m"
  by (auto simp: keeps_def)

lemma keepsD: "keeps P m \<Longrightarrow> m d = (r, d') \<Longrightarrow> P (db_tables d) \<Longrightarrow> P (db_tables d')"
  by (auto simp: keeps_def)

lemma keeps_bind [keeps_intros]: "keeps P m \<Longrightarrow> (\<And>x. keeps P (f x)) \<Longrightarrow> keeps P (act_bind m f)"
proof (rule keepsI)
  fix d r d' assume m: "keeps P m" and f: "\<And>x. keeps P (f x)" and d: "P (db_tables d)"
    and b: "act_bind m f d = (r, d')"
  obtain r1 d1 where m1: "m d = (r1, d1)" by fastforce
  note d1 = keepsD [OF m m1 d]
  show "P (db_tables d')"
  proof (cases r1)
    case (Inl e)
    then show ?thesis using b m1 d1 by (simp add: act_bind_def)
  next
    case (Inr x)
    then have "f x d1 = (r, d')" using b m1 by (simp add: act_bind_def)
    then show ?thesis by (rule keepsD [OF f _ d1])
  qed
qed

lemma keeps_basic [keeps_intros]:
  "keeps P (act_return x)" "keeps P (act_fail e)" "keeps P (act_get g)" "keeps P (bind_u64 v)"
  by (auto simp: keeps_def act_defs bind_u64_def)

lemma keeps_try_call [keeps_intros]: "keeps P try_call"
  by (rule keepsI) (auto dest!: try_call_spent spent_fields)

lemma keeps_call [keeps_intros]: "keeps P (call_or e)"
  by (rule keepsI) (auto dest!: call_or_spent spent_fields)

lemma keeps_readonly [keeps_intros]: "keeps P get_readonly_conn"
  by (rule keepsI)
    (auto simp: get_readonly_conn_def split: if_splits dest: try_call_spent [THEN spent_fields])

lemma keeps_in_tables [keeps_intros]: "(\<And>t. P t \<Longrightarrow> P (f t)) \<Longrightarrow> keeps P (in_tables f)"
  by (simp add: keeps_def)

lemma keeps_each [keeps_intros]: "(\<And>x. x \<in> set xs \<Longrightarrow> keeps P (f x)) \<Longrightarrow> keeps P (act_each f xs)"
  by (induction xs) (auto intro: keeps_intros)

lemma keeps_if [keeps_intros]: "(c \<Longrightarrow> keeps P a) \<Longrightarrow> (\<not> c \<Longrightarrow> keeps P b) \<Longrightarrow> keeps P (if c then a else b)"
  by simp

lemma keeps_case_prod [keeps_intros]: "(\<And>a b. keeps P (f a b)) \<Longrightarrow> keeps P (case x of (a, b) \<Rightarrow> f a b)"
  by (cases x) simp

lemma keeps_case_option [keeps_intros]:
  "keeps P a \<Longrightarrow> (\<And>x. keeps P (f x)) \<Longrightarrow> keeps P (case v of None \<Rightarrow> a | Some x \<Rightarrow> f x)"
  by (cases v) auto

lemma keeps_with_conn [keeps_intros]: "keeps P m \<Longrightarrow> keeps P (with_conn m)"
  by (auto simp: keeps_def with_conn_def split: if_splits)

lemma keeps_transaction [keeps_intros]:
  assumes "keeps P m"
  shows "keeps P (transaction m)"
proof (rule keepsI)
  fix d r d' assume p: "P (db_tables d)" and t: "transaction m d = (r, d')"
  show "P (db_tables d')"
  proof (cases r)
    case (Inl e)
    then show ?thesis using t p transaction_error by metis
  next
    case (Inr x)
    with t obtain d1 d2 where "spent d d1" "m d1 = (Inr x, d2)" "spent d2 d'"
      by (auto elim: transaction_ok)
    then show ?thesis using p assms spent_fields by (metis keepsD)
  qed
qed

lemma keeps_delete_where [keeps_intros]:
  "(\<And>t. P t \<Longrightarrow> P (put (filter (\<lambda>r. \<not> gone r) (get t)) t)) \<Longrightarrow> keeps P (delete_where get put gone)"
  unfolding delete_where_def by (rule keeps_bind [OF keeps_call]) (auto simp: keeps_def Let_def)

lemma keeps_with_readonly [keeps_intros]: "keeps P m \<Longrightarrow> keeps P (with_readonly m)"
  unfolding with_readonly_def by (intro keeps_intros)

text \<open>The operations, one by one.\<close>

lemma keeps_vacuum [keeps_intros]: "keeps P run_vacuum"
  unfolding run_vacuum_def by (intro keeps_intros)

lemma keeps_set_config: "keeps tables_ok (set_config k v)" "keeps tables_ok (set_status_data k v)"
  unfolding set_config_def set_status_data_def
  by (intro keeps_intros; simp add: tables_ok_def)+

lemma keeps_reads:
  "keeps P (get_config k)" "keeps P get_config_list" "keeps P get_status_data_list"
  "keeps P (get_hourly_query_count fmt now h past)" "keeps P (get_daily_query_count fmt now h past)"
  "keeps P (get_client_top_list n)" "keeps P (get_domain_top_list n)"
  unfolding get_config_def get_config_list_def get_status_data_list_def get_hourly_query_count_def
    get_daily_query_count_def get_client_top_list_def get_domain_top_list_def
  by (intro keeps_intros)+

lemma add_row_ok: "tables_ok t \<Longrightarrow> Suc (tb_domain_seq t) < 2 ^ 63 \<Longrightarrow> tables_ok (add_row r t)"
proof -
  assume t: "tables_ok t" and s: "Suc (tb_domain_seq t) < 2 ^ 63"
  have "unat (of_nat (Suc (tb_domain_seq t)) :: u64) = Suc (tb_domain_seq t)"
    using s by (simp add: unsigned_of_nat take_bit_nat_eq_self del: of_nat_Suc)
  then show ?thesis
    using t s by (auto simp: tables_ok_def add_row_def sorted_wrt_append simp del: of_nat_Suc)
qed

lemma keeps_insert_row [keeps_intros]: "keeps tables_ok (insert_domain_row r)"
proof (rule keepsI)
  fix d u d' assume ok: "tables_ok (db_tables d)" and i: "insert_domain_row r d = (u, d')"
  obtain u1 d1 where c: "sqlite_call d = (u1, d1)" by fastforce
  then show "tables_ok (db_tables d')"
    using i ok call_or_spent [OF c, THEN spent_fields] add_row_ok [OF ok]
    by (cases u1) (auto simp: insert_domain_row_def act_bind_def Let_def add_row_def split: if_splits)
qed

lemma keeps_insert_domain: "keeps tables_ok (insert_domain off rows)"
  unfolding insert_domain_def update_domain_hourly_count_def update_domain_daily_count_def
  by (intro keeps_intros) (simp_all add: tables_ok_def add_count_distinct)

lemma filter_id_order:
  "sorted_wrt (<) (map f xs) \<Longrightarrow> sorted_wrt (<) (map f (filter P xs))"
  by (induction xs) auto

lemma keeps_deletes:
  "keeps tables_ok (delete_domain_by_id i)" "keeps tables_ok (delete_domain_before_timestamp ts)"
  "keeps tables_ok (delete_hourly_query_count_before_timestamp ts)"
  "keeps tables_ok (delete_daily_query_count_before_timestamp ts)"
  "keeps tables_ok (delete_client_by_id i)"
  unfolding delete_domain_by_id_def delete_domain_before_timestamp_def
    delete_hourly_query_count_before_timestamp_def delete_daily_query_count_before_timestamp_def
    delete_client_by_id_def
  by (intro keeps_intros; simp add: tables_ok_def filter_id_order distinct_map_filter clients_ok_def)+

lemma keeps_refresh:
  "keeps tables_ok (refresh_client_top_list now from)" "keeps tables_ok (refresh_domain_top_list now from)"
  unfolding refresh_client_top_list_def refresh_domain_top_list_def refresh_top_def
  by (intro keeps_intros; simp add: tables_ok_def)+

lemma keeps_insert_client:
  "tables_ok (db_tables d) \<Longrightarrow> max_client_id (tb_client (db_tables d)) + length cs < 2 ^ 32 \<Longrightarrow>
     insert_client cs d = (r, d') \<Longrightarrow> tables_ok (db_tables d')"
proof (cases r)
  case (Inl e)
  assume "tables_ok (db_tables d)" "insert_client cs d = (r, d')"
  then show ?thesis
    using Inl by (auto simp: insert_client_def with_conn_result split: if_splits dest!: transaction_error)
next
  case (Inr u)
  assume "tables_ok (db_tables d)" "max_client_id (tb_client (db_tables d)) + length cs < 2 ^ 32"
    "insert_client cs d = (r, d')"
  then show ?thesis using Inr insert_client_ok [of cs d d'] fold_upsert_ok by (simp add: tables_ok_def)
qed
section \<open>Reachable databases\<close>

inductive db_step :: "db \<Rightarrow> db \<Rightarrow> bool" where
  Opened: "open_db d = (r, d') \<Longrightarrow> db_step d d'"
| Closed: "db_step d (close_db d)"
| Vacuumed: "run_vacuum d = (r, d') \<Longrightarrow> db_step d d'"
| Config_Set: "set_config k v d = (r, d') \<Longrightarrow> db_step d d'"
| Status_Set: "set_status_data k v d = (r, d') \<Longrightarrow> db_step d d'"
| Queries_Inserted: "insert_domain off rows d = (r, d') \<Longrightarrow> db_step d d'"
| Query_Deleted: "delete_domain_by_id i d = (r, d') \<Longrightarrow> db_step d d'"
| Queries_Expired: "delete_domain_before_timestamp ts d = (r', d') \<Longrightarrow> db_step d d'"
| Hours_Expired: "delete_hourly_query_count_before_timestamp ts d = (r', d') \<Longrightarrow> db_step d d'"
| Days_Expired: "delete_daily_query_count_before_timestamp ts d = (r', d') \<Longrightarrow> db_step d d'"
| Top_Clients: "refresh_client_top_list now from d = (r, d') \<Longrightarrow> db_step d d'"
| Top_Domains: "refresh_domain_top_list now from d = (r, d') \<Longrightarrow> db_step d d'"
| Clients_Inserted: "insert_client cs d = (r, d') \<Longrightarrow>
    max_client_id (tb_client (db_tables d)) + length cs < 2 ^ 32 \<Longrightarrow> db_step d d'"
| Client_Deleted: "delete_client_by_id i d = (r', d') \<Longrightarrow> db_step d d'"
| Read: "spent d d' \<Longrightarrow> db_step d d'"

inductive_cases db_step_cases: "db_step d d'"

lemma empty_tables_ok [simp]: "tables_ok empty_tables" "tables_ok (empty_tables\<lparr>tb_version := v\<rparr>)"
  by (simp_all add: tables_ok_def empty_tables_def clients_ok_def)

lemma keeps_tune: "keeps P tune_connection"
  unfolding tune_connection_def
  by (intro keeps_intros) (auto simp: keeps_def act_upd_def intro: keeps_intros)

lemma keeps_init: "keeps tables_ok init_db"
  unfolding init_db_def create_table_def migrate_db_def by (intro keeps_intros) simp

lemma keeps_opened: "keeps P (act_bind (act_upd (\<lambda>d. d\<lparr>db_is_open := v\<rparr>)) (\<lambda>_. tune_connection))"
  by (rule keeps_bind) (auto simp: keeps_def act_upd_def dest: keepsD [OF keeps_tune])

lemma open_db_ok:
  assumes "open_db d = (r, d')" "tables_ok (db_tables d)"
  shows "tables_ok (db_tables d')"
proof -
  let ?go = "act_bind (act_upd (\<lambda>d. d\<lparr>db_is_open := True\<rparr>)) (\<lambda>_. tune_connection)"
  obtain ok d1 where t: "try_call d = (Inr ok, d1)" by (metis old.sum.exhaust surj_pair try_call_never_fails)
  have ok1: "tables_ok (db_tables d1)" using assms(2) try_call_spent [OF t, THEN spent_fields] by simp
  show ?thesis
  proof (cases "ok \<and> db_exists d1")
    case True
    then have "?go d1 = (r, d')" using assms(1) t by (simp add: open_db_def act_bind_def)
    from this ok1 show ?thesis by (rule keepsD [where P = tables_ok, OF keeps_opened])
  next
    case False
    obtain r2 d2 where c: "sqlite_call d1 = (r2, d2)" by fastforce
    have ok2: "tables_ok (db_tables d2)" using ok1 call_or_spent [OF c, THEN spent_fields] by simp
    let ?fresh = "if db_exists d2 then d2 else d2\<lparr>db_exists := True, db_tables := empty_tables\<rparr>"
    obtain r3 d3 where i: "init_db ?fresh = (r3, d3)" by fastforce
    have ok3: "tables_ok (db_tables d3)"
      by (rule keepsD [OF keeps_init i]) (use ok2 in simp)
    show ?thesis
    proof (cases r2)
      case (Inl e)
      then show ?thesis using assms(1) False t c ok2 by (auto simp: open_db_def act_bind_def)
    next
      case (Inr u)
      note r2 = this
      show ?thesis
      proof (cases r3)
        case (Inl e)
        then show ?thesis using assms(1) False t c r2 i ok3
          by (auto simp: open_db_def act_bind_def Let_def)
      next
        case (Inr u)
        then have "?go d3 = (r, d')" using assms(1) False t c r2 i
          by (auto simp: open_db_def act_bind_def Let_def)
        from this ok3 show ?thesis by (rule keepsD [where P = tables_ok, OF keeps_opened])
      qed
    qed
  qed
qed

lemma db_step_ok: "db_step d d' \<Longrightarrow> tables_ok (db_tables d) \<Longrightarrow> tables_ok (db_tables d')"
proof (induction rule: db_step.induct)
  case (Closed d)
  then show ?case by (simp add: close_db_def)
next
  case (Read d d')
  then show ?case using spent_fields by metis
qed (blast intro: keepsD open_db_ok keeps_vacuum keeps_set_config keeps_insert_domain keeps_deletes
    keeps_refresh keeps_insert_client)+

text \<open>C12: Through every sequence of database operations, failing ones included, query rows stay in
  id order below the sequence number, every bucket has one row and every client has one row and
  its own id.\<close>

theorem reachable_tables_ok:
  "rtranclp db_step d d' \<Longrightarrow> tables_ok (db_tables d) \<Longrightarrow> tables_ok (db_tables d')"
  by (induction rule: rtranclp_induct) (auto intro: db_step_ok)

section \<open>Recent counts\<close>

text \<open>The window of the hourly and daily counts reaches back to the full hour for one or more
  periods; for zero periods the 32-bit subtraction wraps and the window covers almost 2^32
  seconds.\<close>

theorem count_window_bounds:
  assumes "unat period * unat past < 2 ^ 32" "0 < to_hour" "to_hour \<le> 3600"
    and "period = 3600 \<or> period = 86400"
  shows "unat (count_window period past to_hour) =
    (if past = 0 then 2 ^ 32 - to_hour else unat period * unat past - to_hour)"
proof -
  have h: "unat (of_nat to_hour :: u32) = to_hour" using assms(3) by (intro unat_of_nat_32) simp
  have p: "unat (period * past) = unat period * unat past"
    using assms(1) by (simp add: unat_word_ariths)
  show ?thesis
  proof (cases "past = 0")
    case True
    have "uint (of_nat to_hour :: u32) = int to_hour" using h by (metis uint_nat)
    then have "uint (- of_nat to_hour :: u32) = - int to_hour mod 2 ^ 32"
      by (simp only: uint_word_ariths(4)) simp
    also have "\<dots> = 2 ^ 32 - int to_hour" using assms(2,3) by (simp add: zmod_zminus1_eq_if)
    finally have "unat (- of_nat to_hour :: u32) = 2 ^ 32 - to_hour"
      using assms(3) by (simp add: unat_eq_nat_uint)
    then show ?thesis using True by (simp add: count_window_def)
  next
    case False
    then have "1 \<le> unat past" by (simp add: Suc_leI unat_gt_0)
    then have "to_hour \<le> unat period * unat past"
      using assms(3,4) by auto
    then show ?thesis using False h p by (simp add: count_window_def word_minus_small)
  qed
qed

section \<open>Errors after a change\<close>

text \<open>Expiring queries reports an error when the vacuum after it fails although the rows are
  gone.\<close>

theorem expire_error_after_delete:
  assumes "db_is_open d" "db_calls d = [True, False]" "unat ts < 2 ^ 63"
  shows "\<exists>d'. delete_domain_before_timestamp ts d = (Inl Sqlite, d') \<and>
    tb_domain (db_tables d') = filter (\<lambda>r. \<not> dd_timestamp r \<le> ts) (tb_domain (db_tables d))"
  using assms
  by (simp add: delete_domain_before_timestamp_def with_conn_def bind_u64_def delete_where_def
      run_vacuum_def call_or_def try_call_def act_bind_def act_defs Let_def)

text \<open>Opening an existing database never looks at its schema version: a file of an older
  version is opened as it is.\<close>

theorem existing_file_not_migrated:
  assumes "db_exists d" "db_calls d = []"
  shows "\<exists>d'. open_db d = (Inr (), d') \<and> db_is_open d' \<and> db_tables d' = db_tables d"
  using assms
  by (simp add: open_db_def tune_connection_def call_or_def try_call_def act_bind_def act_defs numeral_eq_Suc)
section \<open>Key/value tables as an interface\<close>

text \<open>What the server configuration and the statistics rely on: a stored value is the one read
  back, in a database that is open and whose calls succeed; a failed store changes nothing.\<close>

locale kv_table =
  fixes put :: "'k \<Rightarrow> 'v \<Rightarrow> ('s, 'e, unit) act"
    and get_all :: "('s, 'e, 'k \<Rightarrow> 'v option) act"
    and content :: "'s \<Rightarrow> 'k \<Rightarrow> 'v option"
    and healthy :: "'s \<Rightarrow> bool"
  assumes put_ok: "healthy s \<Longrightarrow> \<exists>s'. put k v s = (Inr (),
    s') \<and> healthy s' \<and> content s' = (content s)(k \<mapsto> v)"
    and put_error: "put k v s = (Inl e, s') \<Longrightarrow> content s' = content s"
    and get_all_ok: "healthy s \<Longrightarrow> get_all s = (Inr (content s), s)"
begin

lemma put_each:
  "healthy s \<Longrightarrow> \<exists>s'. act_each (\<lambda>(k, v). put k v) kvs s = (Inr (),
    s') \<and> healthy s' \<and>
     content s' = content s ++ map_of (rev kvs)"
proof (induction kvs arbitrary: s)
  case (Cons kv kvs)
  obtain k v where kv: "kv = (k, v)" by fastforce
  obtain s1 where s1: "put k v s = (Inr (), s1)" "healthy s1" "content s1 = (content s)(k \<mapsto> v)"
    using put_ok [OF Cons.prems] by blast
  obtain s2 where "act_each (\<lambda>(k, v). put k v) kvs s1 = (Inr (), s2)" "healthy s2"
    "content s2 = content s1 ++ map_of (rev kvs)"
    using Cons.IH [OF s1(2)] by blast
  then show ?case
    using s1 by (simp add: kv act_bind_def map_add_def fun_eq_iff split: option.split)
qed simp

lemma put_each_read_back:
  assumes "healthy s" "distinct (map fst kvs)"
  shows "\<exists>s' m. act_bind (act_each (\<lambda>(k, v). put k v) kvs) (\<lambda>_. get_all) s = (Inr m, s') \<and>
    (\<forall>(k, v) \<in> set kvs. m k = Some v) \<and> (\<forall>k. k \<notin> fst ` set kvs \<longrightarrow> m k = content s k)"
proof -
  obtain s' where s': "act_each (\<lambda>(k, v). put k v) kvs s = (Inr (), s')" "healthy s'"
    "content s' = content s ++ map_of (rev kvs)"
    using put_each [OF assms(1)] by blast
  have "distinct (map fst (rev kvs))" using assms(2) by (simp add: rev_map [symmetric])
  then have "\<forall>(k, v) \<in> set kvs. content s' k = Some v"
    using s'(3) by (auto simp: map_add_Some_iff)
  moreover have "content s' k = content s k" if "k \<notin> fst ` set kvs" for k
    using that s'(3) map_of_eq_None_iff [of "rev kvs" k] by (simp add: map_add_def)
  ultimately show ?thesis using s'(1) get_all_ok [OF s'(2)] by (simp add: act_bind_def)
qed

end

definition db_healthy :: "db \<Rightarrow> bool" where
  "db_healthy d \<longleftrightarrow> db_is_open d \<and> db_calls d = []"

lemma healthy_calls [simp]:
  "db_calls d = [] \<Longrightarrow> try_call d = (Inr True, d)" "db_calls d = [] \<Longrightarrow> call_or e d = (Inr (), d)"
  by (simp_all add: try_call_def call_or_def act_bind_def act_return_def)

interpretation config_kv: kv_table set_config get_config_list "\<lambda>d. tb_config (db_tables d)" db_healthy
proof
  fix d k v
  assume "db_healthy d"
  then show "\<exists>d'. set_config k v d = (Inr (), d') \<and> db_healthy d' \<and>
      tb_config (db_tables d') = (tb_config (db_tables d))(k \<mapsto> v)"
    by (simp add: db_healthy_def set_config_def with_conn_def act_bind_def in_tables_def act_upd_def)
next
  fix d k v e d'
  assume "set_config k v d = (Inl e, d')"
  then show "tb_config (db_tables d') = tb_config (db_tables d)"
    by (auto simp: set_config_def with_conn_result act_bind_Inl split: if_splits
        dest!: call_or_spent spent_fields)
next
  fix d assume "db_healthy d"
  then show "get_config_list d = (Inr (tb_config (db_tables d)), d)"
    by (simp add: db_healthy_def get_config_list_def with_conn_def act_bind_def act_get_def)
qed

interpretation status_kv: kv_table set_status_data get_status_data_list "\<lambda>d. tb_status (db_tables d)" db_healthy
proof
  fix d k v
  assume "db_healthy d"
  then show "\<exists>d'. set_status_data k v d = (Inr (), d') \<and> db_healthy d' \<and>
      tb_status (db_tables d') = (tb_status (db_tables d))(k \<mapsto> v)"
    by (simp add: db_healthy_def set_status_data_def with_conn_def act_bind_def in_tables_def act_upd_def)
next
  fix d k v e d'
  assume "set_status_data k v d = (Inl e, d')"
  then show "tb_status (db_tables d') = tb_status (db_tables d)"
    by (auto simp: set_status_data_def with_conn_result act_bind_Inl split: if_splits
        dest!: call_or_spent spent_fields)
next
  fix d assume "db_healthy d"
  then show "get_status_data_list d = (Inr (tb_status (db_tables d)), d)"
    by (simp add: db_healthy_def get_status_data_list_def with_conn_def act_bind_def act_get_def)
qed

section \<open>The list of the busiest clients\<close>

lemma bind_steps:
  "db_calls d = [] \<Longrightarrow> act_bind (call_or e) f d = f () d"
  "db_calls d = [] \<Longrightarrow> act_bind try_call g d = g True d"
  "act_bind (in_tables h) f d = f () (d\<lparr>db_tables := h (db_tables d)\<rparr>)"
  "act_bind (act_get p) q d = q (p d) d"
  "db_calls d = [] \<Longrightarrow> db_is_open d \<Longrightarrow> act_bind get_readonly_conn g d = g True d"
  by (simp_all add: act_bind_def in_tables_def act_upd_def act_get_def get_readonly_conn_def)

lemma each_in_tables:
  assumes "db_calls d = []" "\<forall>x \<in> set xs. unat (num x) < 2 ^ 63"
  shows "act_each (\<lambda>x. act_bind (bind_u64 (num x)) (\<lambda>_. act_bind sqlite_call (\<lambda>_. in_tables (add x)))) xs d
    = (Inr (), d\<lparr>db_tables := fold add xs (db_tables d)\<rparr>)"
  using assms
proof (induction xs arbitrary: d)
  case (Cons x xs)
  have "act_bind (bind_u64 (num x)) (\<lambda>_. act_bind sqlite_call (\<lambda>_. in_tables (add x))) d =
      (Inr (), d\<lparr>db_tables := add x (db_tables d)\<rparr>)"
    using Cons.prems by (simp add: act_bind_def bind_u64_def act_return_def in_tables_def act_upd_def)
  then show ?case
    using Cons.IH [of "d\<lparr>db_tables := add x (db_tables d)\<rparr>"] Cons.prems
    by (simp add: act_bind_def [of "act_bind (bind_u64 k) g" for k g])
qed (simp add: act_return_def)

lemma descending_by_mset [simp]: "mset (descending_by key xs) = mset xs"
  "set (descending_by key xs) = set xs" "length (descending_by key xs) = length xs"
  by (simp_all add: descending_by_def)

lemma descending_by_sorted: "sorted_wrt (\<ge>) (map key (descending_by key xs))"
  by (simp add: descending_by_def sorted_wrt_map sorted_wrt_rev) (simp add: sorted_wrt_map [symmetric])

lemma descending_by_id: "sorted_wrt (\<ge>) (map key xs) \<Longrightarrow> descending_by key xs = xs"
proof -
  assume "sorted_wrt (\<ge>) (map key xs)"
  then have "sorted (map key (rev xs))" by (simp add: rev_map [symmetric] sorted_wrt_rev)
  then show ?thesis by (simp add: descending_by_def sort_key_id_if_sorted)
qed

lemma top_counts_true:
  "(k, n) \<in> set (top_counts m names) \<Longrightarrow> n = count_list names k"
proof -
  assume "(k, n) \<in> set (top_counts m names)"
  then have "(k, n) \<in> set (count_all names)"
    unfolding top_counts_def by (metis descending_by_mset(2) in_set_takeD)
  then have "count_of k (count_all names) = n"
    using count_all_distinct [of names] by (simp add: count_of_def)
  then show ?thesis by (simp add: count_all_of)
qed

lemma top_rows_sorted: "sorted_wrt (\<ge>) (map qt_count (top_rows from now (top_counts m names)))"
proof -
  have s: "sorted_wrt (\<lambda>x y. snd y \<le> snd x) (top_counts m names)"
    using descending_by_sorted [of snd "count_all names"]
    by (simp add: top_counts_def sorted_wrt_map sorted_wrt_take)
  let ?f = "filter (\<lambda>(k, n). n < 2 ^ 32) (top_counts m names)"
  have "sorted_wrt (\<lambda>x y. (of_nat (snd y) :: u32) \<le> of_nat (snd x)) ?f"
    by (rule sorted_wrt_mono_rel [OF _ sorted_wrt_filter [OF s]]) (auto simp: word_le_nat_alt unat_of_nat_32)
  then show ?thesis by (simp add: top_rows_def sorted_wrt_map split_beta)
qed

lemma fold_top_client:
  "fold (\<lambda>r t. t\<lparr>tb_top_client := tb_top_client t @ [r]\<rparr>) rs t =
     t\<lparr>tb_top_client := tb_top_client t @ rs\<rparr>"
  by (induction rs arbitrary: t) simp_all

definition recent_clients :: "u64 \<Rightarrow> db \<Rightarrow> ustr list" where
  "recent_clients from d = map dd_client (filter (\<lambda>r. from \<le> dd_timestamp r) (tb_domain (db_tables d)))"

section \<open>Witnesses\<close>

definition sample_db :: db where
  "sample_db = \<lparr>db_exists = True, db_is_open = True, db_auto_vacuum = 2,
     db_tables = empty_tables\<lparr>tb_version := Some 9000\<rparr>, db_calls = []\<rparr>"

definition sample_client :: "string \<Rightarrow> string \<Rightarrow> u64 \<Rightarrow> client_data" where
  "sample_client ip mac ts = \<lparr>cd_id = 0, cd_hostname = [], cd_client_ip = lit ip, cd_mac = lit mac,
     cd_last_query_timestamp = ts\<rparr>"

theorem bucket_start_bounds_witness:
  "uint (bucket_start 3600000 (- 10800) 1700000000000) \<le> 1700000000000 \<and>
   (uint (bucket_start 3600000 (- 10800) 1700000000000) - 10800000) mod 3600000 = 0"
proof -
  have s: "sint (- 10800 :: i32) = - 10800" by simp
  have "uint (bucket_start 3600000 (- 10800) 1700000000000) \<le> uint (1700000000000 :: u64) \<and>
    uint (1700000000000 :: u64) < uint (bucket_start 3600000 (- 10800) 1700000000000) + uint (3600000 :: u64) \<and>
    (uint (bucket_start 3600000 (- 10800) 1700000000000) + sint (- 10800 :: i32) * 1000) mod uint (3600000 :: u64) = 0"
    by (rule bucket_start_bounds) simp_all
  then show ?thesis using s by simp
qed

theorem insert_domain_outcome_witness:
  "count_of (hour_bucket 0 1001) (tb_hourly (db_tables (snd (insert_domain 0 [sample_row 1 ''a''] sample_db)))) = 1"
proof -
  let ?r = "insert_domain 0 [sample_row 1 ''a''] sample_db"
  have "fst ?r = Inr ()" by code_simp
  then have "?r = (Inr (), snd ?r)" by (metis prod.collapse)
  then have "count_of (hour_bucket 0 1001) (tb_hourly (db_tables (snd ?r))) =
      count_of (hour_bucket 0 1001) (tb_hourly (db_tables sample_db)) +
      length (filter (\<lambda>x. hour_bucket 0 (dd_timestamp x) = hour_bucket 0 1001) [sample_row 1 ''a''])"
    using insert_domain_outcome by fastforce
  then show ?thesis by (simp add: sample_db_def empty_tables_def sample_row_def)
qed

theorem insert_client_refines_map_witness:
  "client_seen (tb_client (db_tables (snd (insert_client
      [sample_client ''i'' ''m'' 5, sample_client ''i'' ''m'' 9] sample_db)))) (lit ''i'',
        lit ''m'') = Some 9"
proof -
  let ?cs = "[sample_client ''i'' ''m'' 5, sample_client ''i'' ''m'' 9]"
  let ?r = "insert_client ?cs sample_db"
  have "fst ?r = Inr ()" by code_simp
  then have "?r = (Inr (), snd ?r)" by (metis prod.collapse)
  from insert_client_refines_map [OF this] show ?thesis by (simp add: sample_client_def client_key_def)
qed

theorem reachable_tables_ok_witness:
  "tables_ok (db_tables (close_db (snd (insert_client [sample_client ''i'' ''m'' 5] sample_db))))"
proof (rule reachable_tables_ok)
  have "max_client_id (tb_client (db_tables sample_db)) + length [sample_client ''i'' ''m'' 5] < 2 ^ 32"
    by (simp add: sample_db_def empty_tables_def max_client_id_def)
  then have "db_step sample_db (snd (insert_client [sample_client ''i'' ''m'' 5] sample_db))"
    by (rule Clients_Inserted [OF prod.collapse [symmetric]])
  then show "rtranclp db_step sample_db (close_db (snd (insert_client [sample_client ''i'' ''m'' 5] sample_db)))"
    by (meson Closed converse_rtranclp_into_rtranclp r_into_rtranclp)
  show "tables_ok (db_tables sample_db)" by (simp add: sample_db_def)
qed

theorem count_window_bounds_witness:
  "unat (count_window 3600 0 60) = 4294967236 \<and> unat (count_window 3600 24 60) = 86340"
  using count_window_bounds [of 3600 0 60] count_window_bounds [of 3600 24 60] by simp

theorem expire_error_after_delete_witness:
  "\<exists>d'. delete_domain_before_timestamp 1002
        (sample_db\<lparr>db_calls := [True, False], db_tables := empty_tables\<lparr>tb_domain := sample_rows\<rparr>\<rparr>) = (Inl Sqlite, d') \<and>
     length (tb_domain (db_tables d')) = 2"
proof -
  let ?d = "sample_db\<lparr>db_calls := [True, False], db_tables := empty_tables\<lparr>tb_domain := sample_rows\<rparr>\<rparr>"
  obtain d' where d': "delete_domain_before_timestamp 1002 ?d = (Inl Sqlite, d')"
    "tb_domain (db_tables d') = filter (\<lambda>r. \<not> dd_timestamp r \<le> 1002) (tb_domain (db_tables ?d))"
    using expire_error_after_delete [of ?d 1002] by (auto simp: sample_db_def)
  then show ?thesis by (simp add: sample_rows_def sample_row_def)
qed

theorem existing_file_not_migrated_witness:
  "\<exists>d'. open_db (close_db sample_db) = (Inr (), d') \<and> tb_version (db_tables d') = Some 9000"
proof -
  have "db_exists (close_db sample_db)" "db_calls (close_db sample_db) = []"
    by (simp_all add: close_db_def sample_db_def)
  from existing_file_not_migrated [OF this] show ?thesis
    by (auto simp: close_db_def sample_db_def)
qed

end
