(* ===== verification/Data_Stats.thy ===== *)
theory Data_Stats
  imports Db_Store
begin

text \<open>
  The statistics of \<open>src/src/data_stats.rs\<close>: the counters (64-bit atomics,
    so each operation is one
  step), their persistence in the status table, the hourly clean-up and the flag that keeps two
  clean-ups from running at once. The clock is an argument; the worker's timers are the events of
  \<open>stats_step\<close>. Memory usage is read from the text of \<open>/proc/self/statm\<close>.
\<close>

unbundle bit_operations_syntax

section \<open>Counters\<close>

record data_stats_item =
  si_total_request :: u64
  si_total_blocked_request :: u64
  si_total_failed_request :: u64
  si_qps :: u32
  si_qps_count :: u32
  si_request_dropped :: u64

definition new_stats_item :: data_stats_item where
  "new_stats_item = \<lparr>si_total_request = 0, si_total_blocked_request = 0, si_total_failed_request = 0,
     si_qps = 0, si_qps_count = 0, si_request_dropped = 0\<rparr>"

definition add_qps_count :: "u32 \<Rightarrow> data_stats_item \<Rightarrow> data_stats_item" where
  "add_qps_count n s = s\<lparr>si_qps_count := si_qps_count s + n\<rparr>"

text \<open>\<open>fetch_and(0)\<close> reads and clears the count of the second.\<close>

definition update_qps :: "data_stats_item \<Rightarrow> data_stats_item" where
  "update_qps s = (let qps = si_qps_count s
     in (s\<lparr>si_qps_count := si_qps_count s AND 0\<rparr>)\<lparr>si_qps := qps\<rparr>)"

definition add_request_drop :: "u64 \<Rightarrow> data_stats_item \<Rightarrow> data_stats_item" where
  "add_request_drop n s = s\<lparr>si_request_dropped := si_request_dropped s AND n\<rparr>"

definition add_total_request :: "u64 \<Rightarrow> data_stats_item \<Rightarrow> data_stats_item" where
  "add_total_request n s = s\<lparr>si_total_request := si_total_request s + n\<rparr>"

definition add_total_blocked_request :: "u64 \<Rightarrow> data_stats_item \<Rightarrow> data_stats_item" where
  "add_total_blocked_request n s = s\<lparr>si_total_blocked_request := si_total_blocked_request s + n\<rparr>"

definition add_total_failed_request :: "u64 \<Rightarrow> data_stats_item \<Rightarrow> data_stats_item" where
  "add_total_failed_request n s = s\<lparr>si_total_failed_request := si_total_failed_request s + n\<rparr>"

text \<open>\<open>get_memory_usage\<close>: the second number of the text, in pages.\<close>

definition get_memory_usage :: "ustr option \<Rightarrow> u64 \<Rightarrow> u64" where
  "get_memory_usage statm page_size =
     (case statm of None \<Rightarrow> 0
      | Some text \<Rightarrow>
          (case split_whitespace text of
             _ # pages # _ \<Rightarrow>
               (case parse_u64 pages of None \<Rightarrow> 0 | Some n \<Rightarrow> of_nat n * page_size)
           | _ \<Rightarrow> 0))"

section \<open>Loading and saving\<close>

record data_stats =
  ds_data :: data_stats_item
  ds_db :: db
  ds_hourly_work_running :: bool
  ds_is_run :: bool

definition status_count :: "(ustr \<Rightarrow> ustr option) \<Rightarrow> ustr \<Rightarrow> u64" where
  "status_count status key =
     (case status key of None \<Rightarrow> 0
      | Some v \<Rightarrow> (case parse_u64 v of None \<Rightarrow> 0 | Some n \<Rightarrow> of_nat n))"

text \<open>An operation on the database whose error is handled: the value to go on with.\<close>

definition db_value :: "'a db_act \<Rightarrow> 'a \<Rightarrow> data_stats \<Rightarrow> 'a \<times> data_stats" where
  "db_value m fallback s =
     (case m (ds_db s) of (Inl _, d) \<Rightarrow> (fallback, s\<lparr>ds_db := d\<rparr>) | (Inr x,
       d) \<Rightarrow> (x, s\<lparr>ds_db := d\<rparr>))"

definition blocked_param :: domain_list_param where
  "blocked_param = new_domain_list_param\<lparr>dp_is_blocked := Some True\<rparr>"

definition load_status_data :: "(ustr \<Rightarrow> ustr) \<Rightarrow> data_stats \<Rightarrow> data_stats" where
  "load_status_data lower s0 =
     (let (status, s1) = db_value get_status_data_list (\<lambda>_. None) s0;
          total = status_count status (lit ''total_request'');
          (total, s2) = (if total = 0 then db_value (get_domain_list_count lower None) 0 s1 else (total, s1));
          s3 = s2\<lparr>ds_data := add_total_request total (ds_data s2)\<rparr>;
          blocked = status_count status (lit ''total_blocked_request'');
          (blocked, s4) =
            (if blocked = 0 then db_value (get_domain_list_count lower (Some blocked_param)) 0 s3
             else (blocked, s3));
          s5 = s4\<lparr>ds_data := add_total_blocked_request blocked (ds_data s4)\<rparr>;
          s6 = s5\<lparr>ds_data := add_request_drop (status_count status (lit ''request_drop'')) (ds_data s5)\<rparr>
      in s6\<lparr>ds_data :=
           add_total_failed_request (status_count status (lit ''total_failed_request'')) (ds_data s6)\<rparr>)"

definition status_values :: "data_stats_item \<Rightarrow> (ustr \<times> ustr) list" where
  "status_values i =
     [((lit ''total_request''), show_u (si_total_request i)),
      ((lit ''total_blocked_request''), show_u (si_total_blocked_request i)),
      ((lit ''total_failed_request''), show_u (si_total_failed_request i)),
      ((lit ''request_drop''), show_u (si_request_dropped i))]"

definition save_status_data :: "data_stats \<Rightarrow> (db_error, unit) result \<times> data_stats" where
  "save_status_data s =
     (case act_each (\<lambda>(k, v). set_status_data k v) (status_values (ds_data s)) (ds_db s) of
        (r, d) \<Rightarrow> (r, s\<lparr>ds_db := d\<rparr>))"

section \<open>The hourly clean-up\<close>

definition ms_per_day :: u64 where "ms_per_day = 24 * 3600 * 1000"

definition db_ignore :: "'a db_act \<Rightarrow> db \<Rightarrow> db" where
  "db_ignore m d = snd (m d)"

definition refresh :: "u64 \<Rightarrow> u64 \<Rightarrow> data_stats \<Rightarrow> data_stats" where
  "refresh now max_log_age_ms s = s\<lparr>ds_db :=
     (db_ignore (delete_daily_query_count_before_timestamp (90 * ms_per_day)) \<circ>
      db_ignore (delete_hourly_query_count_before_timestamp (30 * ms_per_day)) \<circ>
      db_ignore (refresh_domain_top_list now (now - 7 * ms_per_day)) \<circ>
      db_ignore (refresh_client_top_list now (now - 7 * ms_per_day)) \<circ>
      db_ignore (delete_domain_before_timestamp (now - max_log_age_ms))) (ds_db s)\<rparr>"

text \<open>\<open>update_stats\<close> starts the clean-up in the background unless one is running; it ends with
  \<open>refresh_done\<close>.\<close>

definition update_stats :: "data_stats \<Rightarrow> bool \<times> data_stats" where
  "update_stats s = (\<not> ds_hourly_work_running s, s\<lparr>ds_hourly_work_running := True\<rparr>)"

definition refresh_done :: "u64 \<Rightarrow> u64 \<Rightarrow> data_stats \<Rightarrow> data_stats" where
  "refresh_done now age s = (refresh now age s)\<lparr>ds_hourly_work_running := False\<rparr>"

definition start_worker :: "data_stats \<Rightarrow> data_stats" where
  "start_worker s = s\<lparr>ds_is_run := True\<rparr>"

text \<open>\<open>stop_worker\<close>: a running worker is told to end,
  saves the counters and is waited for.\<close>

definition stop_worker :: "data_stats \<Rightarrow> data_stats" where
  "stop_worker s = (if ds_is_run s then (snd (save_status_data s))\<lparr>ds_is_run := False\<rparr> else s)"

section \<open>What survives a restart\<close>

lemma parse_u64_show: "parse_u64 (show_u (w :: u64)) = Some (unat w)"
  using parse_show_u [of w] by simp

lemma status_count_show:
  "status key = Some (show_u w) \<Longrightarrow> status_count status key = w"
  by (simp only: status_count_def parse_u64_show option.case of_nat_unat ucast_id)

lemma status_keys_distinct: "distinct (map fst (status_values i))"
  by (simp add: status_values_def)

lemma add_request_drop_zero [simp]: "si_request_dropped s = 0 \<Longrightarrow> si_request_dropped (add_request_drop n s) = 0"
  by (simp add: add_request_drop_def)

lemma healthy_count: "db_healthy d \<Longrightarrow>
   get_domain_list_count lower p d = (Inr (domain_list_count lower p (tb_domain (db_tables d))), d)"
  by (simp add: db_healthy_def get_domain_list_count_def bind_steps act_get_def)

text \<open>C33: The counters saved when the worker stops are the counters after the next start: totals
  that are not zero are read back from the status table, only the dropped requests start at zero
  again.\<close>

theorem stats_survive_restart:
  assumes "db_healthy (ds_db s)" "si_total_request (ds_data s) \<noteq> 0"
    and "si_total_blocked_request (ds_data s) \<noteq> 0"
  shows "\<exists>s1. save_status_data s = (Inr (), s1) \<and>
    (let i = ds_data (load_status_data lower (s1\<lparr>ds_data := new_stats_item\<rparr>))
     in si_total_request i = si_total_request (ds_data s) \<and>
        si_total_blocked_request i = si_total_blocked_request (ds_data s) \<and>
        si_total_failed_request i = si_total_failed_request (ds_data s) \<and>
        si_request_dropped i = 0)"
proof -
  let ?kvs = "status_values (ds_data s)"
  obtain d where d: "act_each (\<lambda>(k, v). set_status_data k v) ?kvs (ds_db s) = (Inr (), d)"
    "db_healthy d" "tb_status (db_tables d) = tb_status (db_tables (ds_db s)) ++ map_of (rev ?kvs)"
    using status_kv.put_each [OF assms(1)] by blast
  have m: "tb_status (db_tables d) (lit ''total_request'') = Some (show_u (si_total_request (ds_data s)))"
    "tb_status (db_tables d) (lit ''total_blocked_request'') = Some (show_u (si_total_blocked_request (ds_data s)))"
    "tb_status (db_tables d) (lit ''total_failed_request'') = Some (show_u (si_total_failed_request (ds_data s)))"
    using d(3) by (simp_all add: status_values_def)
  note c = m [THEN status_count_show [where status = "tb_status (db_tables d)"]]
  have "save_status_data s = (Inr (), s\<lparr>ds_db := d\<rparr>)"
    using d(1) by (simp add: save_status_data_def)
  then show ?thesis
    using c status_kv.get_all_ok [OF d(2)] assms(2,3)
    by (simp add: load_status_data_def db_value_def Let_def new_stats_item_def
        add_total_request_def add_total_blocked_request_def add_total_failed_request_def add_request_drop_def)
qed

theorem dropped_requests_never_counted:
  "si_request_dropped (fold add_request_drop ns new_stats_item) = 0"
proof -
  have "si_request_dropped s = 0 \<Longrightarrow> si_request_dropped (fold add_request_drop ns s) = 0" for s
    by (induction ns arbitrary: s) simp_all
  then show ?thesis by (simp add: new_stats_item_def)
qed

section \<open>What the clean-up keeps\<close>

text \<open>The hourly and daily counts are expired before a fixed time of January and March 1970, not
  before a time relative to now.\<close>

definition later_counts :: "db_tables \<Rightarrow> (u64 \<times> nat) list \<times> (u64 \<times> nat) list" where
  "later_counts t = (filter (\<lambda>r. 30 * ms_per_day < fst r) (tb_hourly t),
     filter (\<lambda>r. 90 * ms_per_day < fst r) (tb_daily t))"

lemma keeps_later_counts:
  "keeps (\<lambda>t. later_counts t = X) (delete_domain_before_timestamp ts)"
  "keeps (\<lambda>t. later_counts t = X) (refresh_client_top_list now from)"
  "keeps (\<lambda>t. later_counts t = X) (refresh_domain_top_list now from)"
  "keeps (\<lambda>t. later_counts t = X) (delete_hourly_query_count_before_timestamp (30 * ms_per_day))"
  "keeps (\<lambda>t. later_counts t = X) (delete_daily_query_count_before_timestamp (90 * ms_per_day))"
  unfolding delete_domain_before_timestamp_def refresh_client_top_list_def refresh_domain_top_list_def
    refresh_top_def delete_hourly_query_count_before_timestamp_def
    delete_daily_query_count_before_timestamp_def
  by (intro keeps_intros; auto simp: later_counts_def intro!: filter_cong)+

lemma keeps_ignore: "keeps P m \<Longrightarrow> P (db_tables d) \<Longrightarrow> P (db_tables (db_ignore m d))"
  unfolding db_ignore_def by (metis keepsD prod.collapse)

lemma refresh_db: "ds_db (refresh now age s) =
    db_ignore (delete_daily_query_count_before_timestamp (90 * ms_per_day))
      (db_ignore (delete_hourly_query_count_before_timestamp (30 * ms_per_day))
        (db_ignore (refresh_domain_top_list now (now - 7 * ms_per_day))
          (db_ignore (refresh_client_top_list now (now - 7 * ms_per_day))
            (db_ignore (delete_domain_before_timestamp (now - age)) (ds_db s)))))"
  by (simp add: refresh_def)

text \<open>The hourly clean-up keeps every hourly count later than 31 January 1970 and every daily
  count later than 1 April 1970: the age limits are passed as absolute time stamps.\<close>

theorem refresh_never_expires_counts:
  "later_counts (db_tables (ds_db (refresh now age s))) = later_counts (db_tables (ds_db s))"
  unfolding refresh_db
  by (intro keeps_ignore [where P = "\<lambda>t. later_counts t = later_counts (db_tables (ds_db s))"]
      keeps_later_counts refl)

section \<open>One clean-up at a time\<close>

text \<open>The worker with its background tasks: the second and the hour timer, requests counted
  meanwhile, and the end of a clean-up. The second component counts the clean-ups under way.\<close>

inductive stats_step :: "data_stats \<times> nat \<Rightarrow> data_stats \<times> nat \<Rightarrow> bool" where
  Hour_Started: "update_stats s = (True, s') \<Longrightarrow> stats_step (s, n) (s', Suc n)"
| Hour_Skipped: "update_stats s = (False, s') \<Longrightarrow> stats_step (s, n) (s', n)"
| Clean_Up_Ends: "stats_step (s, Suc n) (refresh_done now age s, n)"
| Second: "stats_step (s, n) (s\<lparr>ds_data := update_qps (ds_data s)\<rparr>, n)"
| Counted: "stats_step (s, n) (s\<lparr>ds_data := add_qps_count q (add_total_request t (ds_data s))\<rparr>, n)"

inductive_cases stats_step_cases: "stats_step st st'"

lemma refresh_flag [simp]: "ds_hourly_work_running (refresh now age s) = ds_hourly_work_running s"
  by (simp add: refresh_def)

lemma stats_step_flag:
  "stats_step st st' \<Longrightarrow> (snd st = (if ds_hourly_work_running (fst st) then 1 else 0)) \<Longrightarrow>
     snd st' = (if ds_hourly_work_running (fst st') then 1 else 0)"
  by (induction rule: stats_step.induct) (auto simp: update_stats_def refresh_done_def split: if_splits)

text \<open>In every run of the worker there is at most one clean-up under way, and exactly one while
  the flag is set.\<close>

theorem one_clean_up_at_a_time:
  assumes "rtranclp stats_step (s, 0) st" "\<not> ds_hourly_work_running s"
  shows "snd st = (if ds_hourly_work_running (fst st) then 1 else 0)"
  using assms(1)
proof (induction rule: rtranclp_induct)
  case base
  then show ?case using assms(2) by simp
next
  case (step st st')
  then show ?case using stats_step_flag by blast
qed

theorem qps_of_second:
  assumes "si_qps_count s = 0"
  shows "si_qps (update_qps (fold add_qps_count ns s)) = sum_list ns \<and>
     si_qps_count (update_qps (fold add_qps_count ns s)) = 0"
proof -
  have "si_qps_count (fold add_qps_count ns s) = si_qps_count s + sum_list ns"
    by (induction ns arbitrary: s) (simp_all add: add_qps_count_def)
  then show ?thesis using assms by (simp add: update_qps_def Let_def)
qed

section \<open>Witnesses\<close>

definition sample_stats :: data_stats where
  "sample_stats = \<lparr>ds_data = new_stats_item\<lparr>si_total_request := 7,
    si_total_blocked_request := 2,
     si_request_dropped := 0\<rparr>, ds_db = sample_db, ds_hourly_work_running = False,
       ds_is_run = True\<rparr>"

theorem stats_survive_restart_witness:
  "\<exists>s1. save_status_data sample_stats = (Inr (), s1) \<and>
     si_total_request (ds_data (load_status_data id (s1\<lparr>ds_data := new_stats_item\<rparr>))) = 7"
proof -
  have "db_healthy (ds_db sample_stats)" "si_total_request (ds_data sample_stats) \<noteq> 0"
    "si_total_blocked_request (ds_data sample_stats) \<noteq> 0"
    by (simp_all add: sample_stats_def db_healthy_def sample_db_def)
  from stats_survive_restart [OF this, of id] show ?thesis
    by (auto simp: Let_def sample_stats_def)
qed

theorem one_clean_up_at_a_time_witness:
  "snd (update_stats sample_stats) = sample_stats\<lparr>ds_hourly_work_running := True\<rparr> \<and>
   snd (snd (update_stats sample_stats), Suc 0) =
     (if ds_hourly_work_running (fst (snd (update_stats sample_stats), Suc 0)) then 1 else 0)"
proof -
  have "update_stats sample_stats = (True, snd (update_stats sample_stats))"
    by (simp add: update_stats_def sample_stats_def)
  then have "stats_step (sample_stats, 0) (snd (update_stats sample_stats), Suc 0)"
    by (rule Hour_Started)
  then have "rtranclp stats_step (sample_stats, 0) (snd (update_stats sample_stats), Suc 0)"
    by (rule r_into_rtranclp)
  from one_clean_up_at_a_time [OF this] show ?thesis
    by (simp add: sample_stats_def update_stats_def)
qed

theorem qps_of_second_witness:
  "si_qps (update_qps (fold add_qps_count [3, 4] new_stats_item)) = 7"
  using qps_of_second [of new_stats_item "[3, 4]"] by (simp add: new_stats_item_def)

end
