(* ===== verification/Whois.thy ===== *)
theory Whois
  imports Effects
begin

text \<open>
  The WHOIS client of \<open>src/src/whois.rs\<close>: reading an answer,
    the cache of servers by domain and the
  loop that follows referrals from server to server. The network is a parameter: it answers a query
  at a host with a text or an error. The referral loop has no bound in the source, so it is a
  partial function: \<open>None\<close> means that it never returns.
\<close>

record whois_info =
  wi_domain :: ustr
  wi_organization :: ustr
  wi_address :: ustr
  wi_city :: ustr
  wi_country :: ustr
  wi_registrar :: ustr
  wi_refer :: ustr

definition empty_whois_info :: whois_info where
  "empty_whois_info = \<lparr>wi_domain = [], wi_organization = [], wi_address = [], wi_city = [],
     wi_country = [], wi_registrar = [], wi_refer = []\<rparr>"

section \<open>Reading an answer\<close>

text \<open>The prefixes in the order in which they are tried, with the field each sets; the last one
  sets the domain the answer is about.\<close>

definition whois_fields ::
    "(ustr \<times> (ustr \<Rightarrow> whois_info \<times> ustr \<Rightarrow> whois_info \<times> ustr)) list" where
  "whois_fields =
     [((lit ''Organization:''), \<lambda>v (i, d). (i\<lparr>wi_organization := v\<rparr>, d)),
      ((lit ''Registrar:''), \<lambda>v (i, d). (i\<lparr>wi_registrar := v\<rparr>, d)),
      ((lit ''Registrant:''), \<lambda>v (i, d). (i\<lparr>wi_organization := v\<rparr>, d)),
      ((lit ''Registrant Name:''), \<lambda>v (i, d). (i\<lparr>wi_organization := v\<rparr>, d)),
      ((lit ''Registrant Organization:''), \<lambda>v (i, d). (i\<lparr>wi_organization := v\<rparr>, d)),
      ((lit ''Registrant Street:''), \<lambda>v (i, d). (i\<lparr>wi_address := v\<rparr>, d)),
      ((lit ''Registrant City:''), \<lambda>v (i, d). (i\<lparr>wi_city := v\<rparr>, d)),
      ((lit ''Registrant Country:''), \<lambda>v (i, d). (i\<lparr>wi_country := v\<rparr>, d)),
      ((lit ''Registrant Country Code:''), \<lambda>v (i, d). (i\<lparr>wi_country := v\<rparr>, d)),
      ((lit ''Registrar WHOIS Server:''), \<lambda>v (i, d). (i\<lparr>wi_refer := v\<rparr>, d)),
      ((lit ''refer:''), \<lambda>v (i, d). (i\<lparr>wi_refer := v\<rparr>, d)),
      ((lit ''whois:''), \<lambda>v (i, d). (i\<lparr>wi_refer := v\<rparr>, d)),
      ((lit ''domain:''), \<lambda>v (i, d). (i, v))]"

fun apply_field ::
    "(ustr \<times> (ustr \<Rightarrow> 's \<Rightarrow> 's)) list \<Rightarrow> ustr \<Rightarrow> 's \<Rightarrow> 's" where
  "apply_field [] line s = s"
| "apply_field ((prefix, put) # table) line s =
     (case strip_prefix prefix line of
        Some v \<Rightarrow> put (trim v) s
      | None \<Rightarrow> apply_field table line s)"

definition parser_whois :: "ustr \<Rightarrow> ustr \<Rightarrow> whois_info \<times> ustr" where
  "parser_whois text whois_domain =
     fold (\<lambda>line. apply_field whois_fields (trim line)) (str_lines text) (empty_whois_info,
       whois_domain)"

section \<open>Servers by domain\<close>

definition add_server :: "(ustr \<Rightarrow> ustr) \<Rightarrow> ustr \<Rightarrow> ustr \<Rightarrow> (ustr \<Rightarrow> ustr option) \<Rightarrow> ustr \<Rightarrow> ustr option" where
  "add_server lower domain server servers = servers(lower domain \<mapsto> server)"

definition after_dot :: "ustr \<Rightarrow> ustr option" where
  "after_dot d = (case dropWhile (\<lambda>c. c \<noteq> 46) d of [] \<Rightarrow> None | _ # rest \<Rightarrow> Some rest)"

lemma after_dot_shorter: "after_dot d = Some r \<Longrightarrow> length r < length d"
  using length_dropWhile_le [of "\<lambda>c. c \<noteq> 46" d] by (auto simp: after_dot_def split: list.splits)

function server_by_suffix :: "ustr \<Rightarrow> (ustr \<Rightarrow> ustr option) \<Rightarrow> ustr \<Rightarrow> ustr" where
  "server_by_suffix root servers d =
     (case servers d of
        Some s \<Rightarrow> s
      | None \<Rightarrow> (case after_dot d of
          None \<Rightarrow> root
        | Some rest \<Rightarrow> server_by_suffix root servers rest))"
  by pat_completeness auto
termination
  by (relation "measure (\<lambda>(root, servers, d). length d)") (auto dest: after_dot_shorter)

declare server_by_suffix.simps [simp del]

definition get_server_by_domain ::
    "(ustr \<Rightarrow> ustr) \<Rightarrow> ustr \<Rightarrow> (ustr \<Rightarrow> ustr option) \<Rightarrow> ustr \<Rightarrow> ustr" where
  "get_server_by_domain lower root servers domain = server_by_suffix root servers (lower domain)"

section \<open>Following referrals\<close>

record whois_state =
  ws_servers :: "ustr \<Rightarrow> ustr option"
  ws_last :: whois_info

datatype whois_outcome = Answer "(ustr, whois_info) result" | Exhausted whois_state

type_synonym whois_net = "ustr \<Rightarrow> ustr \<Rightarrow> (ustr, ustr) result"

definition failed_query :: "ustr \<Rightarrow> whois_info \<Rightarrow> (ustr, whois_info) result" where
  "failed_query e last_info = (if wi_registrar last_info \<noteq> [] then Inr last_info else Inl e)"

text \<open>One round of the loop at a server: an outcome, or the state and server of the next round.\<close>

definition whois_round ::
    "(ustr \<Rightarrow> ustr) \<Rightarrow> whois_net \<Rightarrow> ustr \<Rightarrow> ustr \<Rightarrow> whois_state \<times> ustr \<Rightarrow>
      whois_outcome + whois_state \<times> ustr" where
  "whois_round lower net domain main_domain st_server =
     (let (st, server) = st_server in
      if server = [] then Inl (Exhausted st)
      else case net main_domain (server @ lit '':43'') of
        Inl e \<Rightarrow> Inl (Answer (failed_query e (ws_last st)))
      | Inr text \<Rightarrow>
          (let (parsed, whois_domain) = parser_whois text [];
               info = parsed\<lparr>wi_domain := domain\<rparr>
           in if wi_organization info \<noteq> [] then Inl (Answer (Inr info))
              else let st1 = (if wi_registrar info \<noteq> [] then st\<lparr>ws_last := info\<rparr> else st)
                   in if server = wi_refer info then Inl (Exhausted st1)
                      else Inr
                        (if whois_domain \<noteq> []
                         then st1\<lparr>ws_servers := add_server lower whois_domain (wi_refer info) (ws_servers st1)\<rparr>
                         else st1,
                         wi_refer info)))"

partial_function (option) whois_loop ::
    "(ustr \<Rightarrow> ustr) \<Rightarrow> whois_net \<Rightarrow> ustr \<Rightarrow> ustr \<Rightarrow> whois_state \<times> ustr \<Rightarrow> whois_outcome option" where
  "whois_loop lower net domain main_domain st =
     (case whois_round lower net domain main_domain st of
        Inl out \<Rightarrow> Some out
      | Inr st' \<Rightarrow> whois_loop lower net domain main_domain st')"

definition last_parts :: "nat \<Rightarrow> ustr list \<Rightarrow> ustr" where
  "last_parts n parts = join [46] (drop (length parts - n) parts)"

definition domains_to_ask :: "ustr \<Rightarrow> ustr list" where
  "domains_to_ask domain =
     (let parts = split_char 46 domain
      in if length parts < 2 then [domain]
         else if length parts < 3 then [last_parts 2 parts]
         else [last_parts 2 parts, last_parts 3 parts])"

definition base_domain :: "ustr \<Rightarrow> ustr" where
  "base_domain main_domain =
     (case after_dot main_domain of
        None \<Rightarrow> main_domain
      | Some rest \<Rightarrow> if length rest + 1 < length main_domain then rest else main_domain)"

text \<open>The outer loop over the domains to ask; \<open>None\<close> is a loop that never ends.\<close>

fun whois_domains ::
    "(ustr \<Rightarrow> ustr) \<Rightarrow> whois_net \<Rightarrow> ustr \<Rightarrow> ustr \<Rightarrow> whois_state \<Rightarrow> ustr list \<Rightarrow>
      (ustr, whois_info) result option" where
  "whois_domains lower net root domain st [] = Some (failed_query (lit ''Cannot find whois.'') (ws_last st))"
| "whois_domains lower net root domain st (d # ds) =
     (case whois_loop lower net domain d
             (st, get_server_by_domain lower root (ws_servers st) (base_domain d)) of
        None \<Rightarrow> None
      | Some (Answer r) \<Rightarrow> Some r
      | Some (Exhausted st') \<Rightarrow> whois_domains lower net root domain st' ds)"

definition whois_query ::
    "(ustr \<Rightarrow> ustr) \<Rightarrow> whois_net \<Rightarrow> (ustr \<Rightarrow> ustr option) \<Rightarrow> ustr \<Rightarrow> (ustr, whois_info) result option" where
  "whois_query lower net servers domain =
     whois_domains lower net (lit ''whois.iana.org'') domain
       \<lparr>ws_servers = servers, ws_last = empty_whois_info\<lparr>wi_domain := domain\<rparr>\<rparr> (domains_to_ask domain)"

section \<open>The longest known suffix\<close>

text \<open>The suffixes of a domain at its dots, longest first.\<close>

function dot_suffixes :: "ustr \<Rightarrow> ustr list" where
  "dot_suffixes d = d # (case after_dot d of None \<Rightarrow> [] | Some rest \<Rightarrow> dot_suffixes rest)"
  by pat_completeness auto
termination
  by (relation "measure length") (auto dest: after_dot_shorter)

declare dot_suffixes.simps [simp del]

text \<open>The WHOIS server of a domain is the one known for its longest suffix at a dot, or the
  root server when none is known.\<close>

theorem server_of_longest_suffix:
  "get_server_by_domain lower root servers domain =
     (case find (\<lambda>d. servers d \<noteq> None) (dot_suffixes (lower domain)) of
        None \<Rightarrow> root
      | Some d \<Rightarrow> the (servers d))"
proof -
  have "server_by_suffix root servers d =
    (case find (\<lambda>d. servers d \<noteq> None) (dot_suffixes d) of None \<Rightarrow> root | Some d \<Rightarrow> the (servers d))" for d
  proof (induction "length d" arbitrary: d rule: less_induct)
    case less
    then show ?case
      by (subst server_by_suffix.simps, subst dot_suffixes.simps)
        (auto split: option.split dest: after_dot_shorter)
  qed
  then show ?thesis by (simp add: get_server_by_domain_def)
qed

section \<open>When the referrals end\<close>

text \<open>The loop returns when the referrals go down some order of the servers; it never returns when
  two servers without an answer refer to each other.\<close>

lemma whois_round_next:
  assumes "whois_round lower net domain main_domain (st, server) = Inr (st', server')"
  obtains answer where "net main_domain (server @ lit '':43'') = Inr answer" "server \<noteq> []"
    "server' = wi_refer (fst (parser_whois answer []))" "server' \<noteq> server"
  using assms that
  by (auto simp: whois_round_def Let_def split: if_splits sum.splits prod.splits)

text \<open>C34: A WHOIS query returns a result whenever the referrals go down some order of the servers,
  whatever the answers contain otherwise.\<close>

theorem whois_query_returns:
  assumes "\<And>main_domain server text. net main_domain (server @ lit '':43'') = Inr text \<Longrightarrow>
      wi_refer (fst (parser_whois text [])) \<noteq> server \<Longrightarrow>
      rank (wi_refer (fst (parser_whois text []))) < (rank server :: nat)"
  shows "\<exists>r. whois_query lower net servers domain = Some r"
proof -
  have loop: "\<exists>out. whois_loop lower net domain d (st, server) = Some out" for d st server
  proof (induction "rank server" arbitrary: st server rule: less_induct)
    case less
    show ?case
    proof (cases "whois_round lower net domain d (st, server)")
      case (Inl out)
      then show ?thesis by (subst whois_loop.simps) simp
    next
      case (Inr nxt)
      obtain st' server' where n: "nxt = (st', server')" by fastforce
      have "rank server' < rank server"
        using whois_round_next [OF Inr [unfolded n]] assms by metis
      from less [OF this] show ?thesis by (subst whois_loop.simps) (simp add: Inr n)
    qed
  qed
  have "\<exists>r. whois_domains lower net root domain st ds = Some r" for root st ds
  proof (induction ds arbitrary: st)
    case (Cons d ds)
    obtain out where "whois_loop lower net domain d
        (st, get_server_by_domain lower root (ws_servers st) (base_domain d)) = Some out"
      using loop by blast
    then show ?case using Cons by (cases out) auto
  qed simp
  then show ?thesis by (simp add: whois_query_def)
qed

definition refers_to :: "whois_net \<Rightarrow> ustr \<Rightarrow> ustr \<Rightarrow> ustr \<Rightarrow> bool" where
  "refers_to net main_domain a b \<longleftrightarrow>
     (case net main_domain (a @ lit '':43'') of
        Inl e \<Rightarrow> False
      | Inr text \<Rightarrow> wi_refer (fst (parser_whois text [])) = b \<and>
          wi_organization (fst (parser_whois text [])) = [])"

lemma whois_round_refers:
  assumes "refers_to net main_domain a b" "a \<noteq> []" "a \<noteq> b"
  shows "\<exists>st'. whois_round lower net domain main_domain (st, a) = Inr (st', b)"
  using assms by (auto simp: refers_to_def whois_round_def Let_def split: sum.splits prod.splits)

text \<open>C38: Two servers that refer to each other without naming an organization keep the query in its
  referral loop for ever: the source bounds neither the number of referrals nor the time.\<close>

theorem referral_cycle_never_returns:
  assumes "refers_to net main_domain a b" "refers_to net main_domain b a" "a \<noteq> []" "b \<noteq> []" "a \<noteq> b"
  shows "whois_loop lower net domain main_domain (st, a) = None"
proof -
  have step: "\<exists>st' s'. whois_round lower net domain main_domain (st, s) = Inr (st',
    s') \<and> s' \<in> {a, b}"
    if "s \<in> {a, b}" for st s
    using that whois_round_refers [OF assms(1,3,5)]
      whois_round_refers [OF assms(2,4) assms(5) [symmetric]] by (elim insertE) blast+
  have "l = lower \<longrightarrow> n = net \<longrightarrow> d = domain \<longrightarrow> m = main_domain \<longrightarrow> snd x \<in> {a, b} \<longrightarrow> False"
    if run: "whois_loop l n d m x = Some out" for l n d m x out
    using run
  proof (rule whois_loop.raw_induct [where P = "\<lambda>l n d m x out.
      l = lower \<longrightarrow> n = net \<longrightarrow> d = domain \<longrightarrow> m = main_domain \<longrightarrow> snd x \<in> {a, b} \<longrightarrow> False", rotated])
    fix f l n d m x out
    assume ih: "\<And>l n d m x y. f l n d m x = Some y \<Longrightarrow>
        l = lower \<longrightarrow> n = net \<longrightarrow> d = domain \<longrightarrow> m = main_domain \<longrightarrow> snd x \<in> {a, b} \<longrightarrow> False"
      and run: "(case whois_round l n d m x of Inl out \<Rightarrow> Some out | Inr x' \<Rightarrow> f l n d m x') = Some out"
    show "l = lower \<longrightarrow> n = net \<longrightarrow> d = domain \<longrightarrow> m = main_domain \<longrightarrow> snd x \<in> {a, b} \<longrightarrow> False"
    proof (intro impI)
      assume h: "l = lower" "n = net" "d = domain" "m = main_domain" "snd x \<in> {a, b}"
      obtain st' s' where s: "whois_round l n d m x = Inr (st', s')" "s' \<in> {a, b}"
        using step [OF h(5), of "fst x"] h by auto
      have "f l n d m (st', s') = Some out" using run s(1) by simp
      from ih [OF this] show False using h s(2) by simp
    qed
  qed
  then have "whois_loop lower net domain main_domain (st, a) \<noteq> Some out" for out by fastforce
  then show ?thesis by (cases "whois_loop lower net domain main_domain (st, a)") auto
qed

section \<open>Witnesses\<close>

definition cyclic_net :: whois_net where
  "cyclic_net d host = (if host = lit ''a:43'' then Inr (lit ''refer: b'') else Inr (lit ''refer: a''))"

definition one_server_net :: whois_net where
  "one_server_net d host =
     (if host = lit ''whois.iana.org:43'' then Inr (lit ''refer: w'')
      else if host = lit ''w:43'' then Inr (lit ''Registrant: Me'') else Inl (lit ''unreachable''))"

theorem referral_cycle_never_returns_witness:
  "whois_loop id cyclic_net (lit ''x.y'') (lit ''x.y'') (\<lparr>ws_servers = (\<lambda>_. None),
    ws_last = empty_whois_info\<rparr>, (lit ''a'')) = None"
  by (rule referral_cycle_never_returns [where b = "lit ''b''"]) code_simp+

definition sample_rank :: "ustr \<Rightarrow> nat" where
  "sample_rank s = (if s = lit ''whois.iana.org'' then 2 else if s = lit ''w'' then 1 else 0)"

theorem whois_query_returns_witness:
  "\<exists>r. whois_query id one_server_net (\<lambda>_. None) (lit ''x.y'') = Some r"
proof (rule whois_query_returns [where rank = sample_rank])
  fix main_domain server answer
  assume n: "one_server_net main_domain (server @ lit '':43'') = Inr answer"
    and "wi_refer (fst (parser_whois answer [])) \<noteq> server"
  have r: "wi_refer (fst (parser_whois (lit ''refer: w'') [])) = lit ''w''"
    "wi_refer (fst (parser_whois (lit ''Registrant: Me'') [])) = []" by code_simp+
  have "server = lit ''whois.iana.org'' \<and> answer = lit ''refer: w'' \<or> server = lit ''w'' \<and> answer = lit ''Registrant: Me''"
  proof -
    have l: "lit ''whois.iana.org:43'' = lit ''whois.iana.org'' @
      lit '':43''" "lit ''w:43'' = lit ''w'' @ lit '':43''"
      by (simp_all add: lit_append [symmetric])
    show ?thesis using n unfolding one_server_net_def l by (auto split: if_splits)
  qed
  then show "sample_rank (wi_refer (fst (parser_whois answer []))) < sample_rank server"
    by (auto simp: r sample_rank_def)
qed
end
