(* ===== verification/Data_Server.thy ===== *)
theory Data_Server
  imports Server_Data Data_Stats Whois "HOL-Library.AList"
begin

text \<open>
  The data server of \<open>src/src/data_server.rs\<close>: the queue between the DNS server and the writer, the
  batches, the clients waiting for their hardware address, the disk-space check and the shutdown.
  A loop iteration of \<open>data_server_loop\<close> is one \<open>server_event\<close>; the arms of its \<open>select!\<close> await
  their work, so they do not overlap. What comes from the DNS library or the operating system (a
  request's data, the clock, the free disk space) is an argument. The two hash maps are association
  lists with one entry per key; their order stands for the iteration order of the map, which the
  source leaves open. The delay of the batch timer is not modelled: it fires at any time while set.
\<close>

section \<open>Requests and clients\<close>

record dns_request =
  rq_is_prefetch :: bool
  rq_is_dualstack :: bool
  rq_is_blocked :: bool
  rq_is_cached :: bool
  rq_rcode :: u16
  rq_domain :: ustr
  rq_qtype :: u32
  rq_remote_addr :: ustr
  rq_remote_mac :: "8 word list"
  rq_group_name :: ustr
  rq_query_timestamp :: u64
  rq_query_time :: i32
  rq_ping_time :: f64

definition mac_text :: "dns_request \<Rightarrow> ustr" where
  "mac_text req = join [58] (map hex02 (rq_remote_mac req))"

definition no_mac :: ustr where "no_mac = lit ''00:00:00:00:00:00''"

definition recorded :: "dns_request \<Rightarrow> bool" where
  "recorded req \<longleftrightarrow> \<not> rq_is_prefetch req \<and> \<not> rq_is_dualstack req"

definition domain_of_request :: "dns_request \<Rightarrow> domain_data" where
  "domain_of_request req =
     \<lparr>dd_id = 0, dd_timestamp = rq_query_timestamp req, dd_domain = rq_domain req,
      dd_domain_type = rq_qtype req, dd_client = rq_remote_addr req,
      dd_domain_group = rq_group_name req, dd_reply_code = rq_rcode req,
      dd_query_time = rq_query_time req, dd_ping_time = rq_ping_time req,
      dd_is_blocked = rq_is_blocked req, dd_is_cached = rq_is_cached req\<rparr>"

section \<open>State\<close>

type_synonym mac_cache = "(ustr \<times> ustr) list"
type_synonym pending_clients = "(ustr \<times> u64 \<times> client_data) list"

record data_server =
  sv_conf :: data_server_config
  sv_stat :: data_stats
  sv_disabled :: bool
  sv_startup_timestamp :: u64
  sv_batch_mode :: bool
  sv_mac_cache :: mac_cache
  sv_pending :: pending_clients
  sv_queue :: "dns_request list"
  sv_receiving :: bool
  sv_req_list :: "dns_request list"
  sv_batch_timer :: bool
  sv_check_running :: bool

definition queue_capacity :: nat where "queue_capacity = 1024 * 256"

definition batch_size :: "data_server \<Rightarrow> nat" where
  "batch_size sv = (if sv_batch_mode sv then 1024 * 8 else 1)"

definition with_db :: "'a db_act \<Rightarrow> data_server \<Rightarrow> (db_error,
  'a) result \<times> data_server" where
  "with_db m sv = (case m (ds_db (sv_stat sv)) of (r, d) \<Rightarrow> (r,
    sv\<lparr>sv_stat := (sv_stat sv)\<lparr>ds_db := d\<rparr>\<rparr>))"

abbreviation server_db :: "data_server \<Rightarrow> db" where
  "server_db sv \<equiv> ds_db (sv_stat sv)"

abbreviation counters :: "data_server \<Rightarrow> data_stats_item" where
  "counters sv \<equiv> ds_data (sv_stat sv)"

definition on_counters :: "(data_stats_item \<Rightarrow> data_stats_item) \<Rightarrow> data_server \<Rightarrow> data_server" where
  "on_counters f sv = sv\<lparr>sv_stat := (sv_stat sv)\<lparr>ds_data := f (counters sv)\<rparr>\<rparr>"

section \<open>Accepting a request\<close>

datatype send_error = Queue_Full | Queue_Closed

definition send_request :: "dns_request \<Rightarrow> data_server \<Rightarrow> (send_error,
  unit) result \<times> data_server" where
  "send_request req sv =
     (if rq_is_prefetch req then (Inr (), sv)
      else let sv = on_counters (add_qps_count 1) sv
        in if sv_disabled sv then (Inr (), sv)
           else if \<not> sv_receiving sv then (Inl Queue_Closed, on_counters (add_request_drop 1) sv)
           else if queue_capacity \<le> length (sv_queue sv) then
             (Inl Queue_Full, on_counters (add_request_drop 1) sv)
           else (Inr (), sv\<lparr>sv_queue := sv_queue sv @ [req]\<rparr>))"

section \<open>Recording a batch\<close>

text \<open>Pass 1 learns the hardware addresses of all requests, prefetches included.\<close>

definition learn_macs :: "dns_request list \<Rightarrow> mac_cache \<Rightarrow> mac_cache" where
  "learn_macs reqs cache =
     fold (\<lambda>req c. if mac_text req \<noteq> no_mac then AList.update (rq_remote_addr req) (mac_text req) c else c)
       reqs (if length cache > 10000 then [] else cache)"

definition known_mac :: "mac_cache \<Rightarrow> dns_request \<Rightarrow> ustr" where
  "known_mac cache req =
     (if mac_text req = no_mac
      then (case map_of cache (rq_remote_addr req) of None \<Rightarrow> no_mac | Some m \<Rightarrow> m)
      else mac_text req)"

definition note_client :: "mac_cache \<Rightarrow> u64 \<Rightarrow> dns_request \<Rightarrow> pending_clients \<Rightarrow> pending_clients" where
  "note_client cache now req pending =
     (let ip = rq_remote_addr req; mac = known_mac cache req
      in case map_of pending ip of
           Some (first_seen, c) \<Rightarrow>
             AList.update ip (first_seen,
               (if mac \<noteq> no_mac then c\<lparr>cd_mac := mac\<rparr> else c)\<lparr>cd_last_query_timestamp := now\<rparr>) pending
         | None \<Rightarrow>
             AList.update ip (now, \<lparr>cd_id = 0, cd_hostname = [], cd_client_ip = ip, cd_mac = mac,
               cd_last_query_timestamp = now\<rparr>) pending)"

text \<open>A client leaves the list once its address is known or it has waited long enough.\<close>

definition flushed :: "u64 \<Rightarrow> u64 \<Rightarrow> ustr \<times> u64 \<times> client_data \<Rightarrow> bool" where
  "flushed limit now e = (case e of (ip, first_seen, c) \<Rightarrow> limit < now - first_seen \<or> cd_mac c \<noteq> no_mac)"

definition flush_clients :: "u64 \<Rightarrow> u64 \<Rightarrow> pending_clients \<Rightarrow> client_data list \<times> pending_clients" where
  "flush_clients limit now pending =
     (map (\<lambda>(ip, first_seen, c). c) (filter (flushed limit now) pending),
      filter (\<lambda>e. \<not> flushed limit now e) pending)"

text \<open>The writer's part: queries first, clients only if that worked.\<close>

definition record_rows :: "i32 \<Rightarrow> domain_data list \<Rightarrow> client_data list \<Rightarrow> unit db_act" where
  "record_rows off rows clients = act_bind (insert_domain off rows) (\<lambda>_. insert_client clients)"

definition handle_dns_request :: "i32 \<Rightarrow> u64 \<Rightarrow> dns_request list \<Rightarrow> data_server \<Rightarrow> data_server" where
  "handle_dns_request off now reqs sv =
     (let cache = learn_macs reqs (sv_mac_cache sv);
          handled = filter recorded reqs;
          blocked = fold (\<lambda>req n. if rq_is_blocked req then n + 1 else n) handled (0 :: i32);
          failed = fold (\<lambda>req n. if rq_rcode req \<noteq> 0 then n + 1 else n) handled (0 :: i32);
          rows = map domain_of_request handled;
          (clients, pending) = flush_clients 3000 now (fold (note_client cache now) handled (sv_pending sv));
          sv = on_counters
            (add_total_failed_request (scast failed) \<circ> add_total_blocked_request (scast blocked) \<circ>
             add_total_request (of_nat (length rows)))
            (sv\<lparr>sv_mac_cache := cache, sv_pending := pending\<rparr>)
      in snd (with_db (record_rows off rows clients) sv))"

text \<open>\<open>insert_domain\<close> of the HTTP interface's tests: one query with its counters.\<close>

definition insert_one_domain :: "i32 \<Rightarrow> domain_data \<Rightarrow> data_server \<Rightarrow> (db_error, unit) result \<times> data_server" where
  "insert_one_domain off d sv =
     with_db (insert_domain off [d])
       (on_counters
         ((if dd_reply_code d \<noteq> 0 then add_total_failed_request 1 else id) \<circ>
          (if dd_is_blocked d then add_total_blocked_request 1 else id) \<circ> add_total_request 1) sv)"

section \<open>The timers\<close>

definition insert_clients_quietly :: "client_data list \<Rightarrow> data_server \<Rightarrow> data_server" where
  "insert_clients_quietly clients sv =
     (if clients = [] then sv else snd (with_db (insert_client clients) sv))"

definition client_flush_tick :: "u64 \<Rightarrow> data_server \<Rightarrow> data_server" where
  "client_flush_tick now sv =
     (let (clients, pending) = flush_clients 10000 now (sv_pending sv)
      in insert_clients_quietly clients (sv\<lparr>sv_pending := pending\<rparr>))"

definition server_check :: "u64 \<Rightarrow> data_server \<Rightarrow> data_server" where
  "server_check free_disk_space sv =
     (if free_disk_space < min_free_disk_space then sv\<lparr>sv_disabled := True\<rparr>
      else if \<not> sv_disabled sv then sv
      else sv\<lparr>sv_disabled := False\<rparr>)"

text \<open>\<open>fetch_xor(true)\<close> turns the flag over: a check whose task did not run (\<open>executed\<close> false: it was
  cancelled or panicked) leaves the flag set, the next tick clears it, the one after checks again.\<close>

definition check_tick :: "bool \<Rightarrow> u64 \<Rightarrow> data_server \<Rightarrow> data_server" where
  "check_tick executed free_disk_space sv =
     (let was_running = sv_check_running sv;
          sv = sv\<lparr>sv_check_running := \<not> was_running\<rparr>
      in if was_running then sv
         else if executed then (server_check free_disk_space sv)\<lparr>sv_check_running := False\<rparr>
         else sv)"

definition write_batch :: "i32 \<Rightarrow> u64 \<Rightarrow> data_server \<Rightarrow> data_server" where
  "write_batch off now sv =
     (handle_dns_request off now (sv_req_list sv) (sv\<lparr>sv_batch_timer := False\<rparr>))\<lparr>sv_req_list := []\<rparr>"

text \<open>\<open>recv_many\<close> hands over \<open>n\<close> queued requests,
  at most a buffer full.\<close>

definition receive_count :: "nat \<Rightarrow> data_server \<Rightarrow> nat" where
  "receive_count n sv = min n (min (batch_size sv) (length (sv_queue sv)))"

definition receive :: "i32 \<Rightarrow> u64 \<Rightarrow> nat \<Rightarrow> data_server \<Rightarrow> data_server" where
  "receive off now n sv =
     (let n = receive_count n sv
      in if n = 0 then sv
         else let sv = sv\<lparr>sv_queue := drop n (sv_queue sv), sv_req_list := sv_req_list sv @
           take n (sv_queue sv)\<rparr>
           in if sv_batch_mode sv \<and> length (sv_req_list sv) < batch_size sv
              then sv\<lparr>sv_batch_timer := True\<rparr>
              else write_batch off now sv)"

definition batch_tick :: "i32 \<Rightarrow> u64 \<Rightarrow> data_server \<Rightarrow> data_server" where
  "batch_tick off now sv = (if sv_batch_timer sv then write_batch off now sv else sv)"

text \<open>The end of the loop: the pending clients are written,
  the counters saved; the receivers go.\<close>

definition shut_down :: "data_server \<Rightarrow> data_server" where
  "shut_down sv =
     (let sv = insert_clients_quietly (map (\<lambda>(ip, first_seen,
       c). c) (sv_pending sv)) (sv\<lparr>sv_pending := []\<rparr>)
      in sv\<lparr>sv_stat := stop_worker (sv_stat sv), sv_queue := [], sv_receiving := False,
            sv_req_list := [], sv_batch_timer := False\<rparr>)"

text \<open>\<open>data_server_loop\<close>: its beginning, and one event per iteration. The statistics worker runs
  beside it (\<open>Data_Stats\<close>).\<close>

datatype server_event =
    Request dns_request
  | Received u64 nat
  | Batch_Due u64
  | Flush_Due u64
  | Check_Due bool u64
  | Stop

definition start_loop :: "data_server \<Rightarrow> data_server" where
  "start_loop sv = sv\<lparr>sv_stat := start_worker (sv_stat sv), sv_receiving := True, sv_req_list := [],
     sv_batch_timer := False, sv_check_running := False\<rparr>"

fun loop_step :: "i32 \<Rightarrow> server_event \<Rightarrow> data_server \<Rightarrow> data_server" where
  "loop_step off (Request req) sv = snd (send_request req sv)"
| "loop_step off (Received now n) sv = (if sv_receiving sv then receive off now n sv else sv)"
| "loop_step off (Batch_Due now) sv = (if sv_receiving sv then batch_tick off now sv else sv)"
| "loop_step off (Flush_Due now) sv = (if sv_receiving sv then client_flush_tick now sv else sv)"
| "loop_step off (Check_Due executed free_space) sv = (if sv_receiving sv then check_tick executed free_space sv else sv)"
| "loop_step off Stop sv = (if sv_receiving sv then shut_down sv else sv)"

definition run_events :: "i32 \<Rightarrow> server_event list \<Rightarrow> data_server \<Rightarrow> data_server" where
  "run_events off evs sv = fold (loop_step off) evs sv"

section \<open>Starting\<close>

definition new_data_server :: "ustr \<Rightarrow> u64 \<Rightarrow> db \<Rightarrow> data_server" where
  "new_data_server data_dir now d =
     \<lparr>sv_conf = new_data_server_config data_dir,
      sv_stat = \<lparr>ds_data = new_stats_item, ds_db = d, ds_hourly_work_running = False,
        ds_is_run = False\<rparr>,
      sv_disabled = False, sv_startup_timestamp = now, sv_batch_mode = True, sv_mac_cache = [],
      sv_pending = [], sv_queue = [], sv_receiving = True, sv_req_list = [], sv_batch_timer = False,
      sv_check_running = False\<rparr>"

datatype init_error = Data_Path_Not_Writable ustr | Db_Failed db_error

definition init_server ::
    "(ustr \<Rightarrow> ustr) \<Rightarrow> (ustr \<Rightarrow> bool) \<Rightarrow> data_server_config \<Rightarrow> data_server \<Rightarrow>
      (init_error, unit) result \<times> data_server" where
  "init_server lower dir_writable conf sv =
     (let sv = sv\<lparr>sv_conf := conf\<rparr>
      in if \<not> dir_writable (dc_data_path conf) then (Inl (Data_Path_Not_Writable (dc_data_path conf)), sv)
         else let sv = sv\<lparr>sv_conf := conf\<lparr>dc_db_file := dc_data_path conf @ lit ''/'' @
           db_file_name\<rparr>\<rparr>
           in case with_db open_db sv of
                (Inl e, sv) \<Rightarrow> (Inl (Db_Failed e), sv)
              | (Inr _, sv) \<Rightarrow> (Inr (), sv\<lparr>sv_stat := load_status_data lower (sv_stat sv)\<rparr>))"

section \<open>What the HTTP interface asks for\<close>

text \<open>A setting of the database wins over one of the configuration file (\<open>plugin_config\<close>); an error
  of the database counts as a missing setting.\<close>

definition server_get_config :: "ustr \<Rightarrow> data_server \<Rightarrow> ustr option \<times> data_server" where
  "server_get_config key sv =
     (case with_db (get_config key) sv of (Inl _, sv) \<Rightarrow> (None, sv) | (Inr v,
       sv) \<Rightarrow> (v, sv))"

definition get_server_config ::
    "(ustr \<Rightarrow> ustr option) \<Rightarrow> ustr \<Rightarrow> data_server \<Rightarrow> ustr option \<times> data_server" where
  "get_server_config plugin_config key sv =
     (case server_get_config key sv of
        (Some v, sv) \<Rightarrow> (Some v, sv)
      | (None, sv) \<Rightarrow> (plugin_config key, sv))"

definition get_top_client_top_list :: "u32 option \<Rightarrow> query_count list db_act" where
  "get_top_client_top_list n = get_client_top_list (case n of None \<Rightarrow> 10 | Some k \<Rightarrow> k)"

definition get_top_domain_top_list :: "u32 option \<Rightarrow> query_count list db_act" where
  "get_top_domain_top_list n = get_domain_top_list (case n of None \<Rightarrow> 10 | Some k \<Rightarrow> k)"

definition get_metrics ::
    "f64 \<Rightarrow> f64 \<Rightarrow> i32 \<Rightarrow> u64 \<Rightarrow> ustr option \<Rightarrow> u64 \<Rightarrow> data_server \<Rightarrow> metrics_data" where
  "get_metrics avg_time hit_rate cache_num cache_mem statm page_size sv =
     \<lparr>md_total_query_count = si_total_request (counters sv),
      md_block_query_count = si_total_blocked_request (counters sv),
      md_request_drop_count = si_request_dropped (counters sv),
      md_fail_query_count = si_total_failed_request (counters sv),
      md_avg_query_time = avg_time, md_cache_hit_rate = hit_rate,
      md_cache_number = scast cache_num, md_cache_memory_size = cache_mem,
      md_qps = si_qps (counters sv), md_memory_usage = get_memory_usage statm page_size,
      md_is_metrics_suspended = sv_disabled sv\<rparr>"

definition get_overview :: "ustr \<Rightarrow> u64 option \<times> u64 option \<Rightarrow> u64 \<Rightarrow> data_server \<Rightarrow> overview_data" where
  "get_overview server_name db_file_size free_disk_space sv =
     \<lparr>od_server_name = server_name, od_db_size = get_db_size db_file_size (server_db sv),
      od_startup_timestamp = sv_startup_timestamp sv, od_free_disk_space = free_disk_space,
      od_is_process_suspended = sv_disabled sv\<rparr>"


section \<open>What recording a batch changes\<close>

lemma with_db_fields [simp]:
  "snd (with_db m sv) = sv\<lparr>sv_stat := (sv_stat sv)\<lparr>ds_db := snd (m (server_db sv))\<rparr>\<rparr>"
  by (simp add: with_db_def split: prod.split)

lemma on_counters_fields [simp]:
  "server_db (on_counters f sv) = server_db sv" "counters (on_counters f sv) = f (counters sv)"
  "sv_queue (on_counters f sv) = sv_queue sv" "sv_req_list (on_counters f sv) = sv_req_list sv"
  "sv_receiving (on_counters f sv) = sv_receiving sv" "sv_disabled (on_counters f sv) = sv_disabled sv"
  "sv_batch_mode (on_counters f sv) = sv_batch_mode sv" "sv_batch_timer (on_counters f sv) = sv_batch_timer sv"
  "sv_pending (on_counters f sv) = sv_pending sv" "sv_mac_cache (on_counters f sv) = sv_mac_cache sv"
  "sv_check_running (on_counters f sv) = sv_check_running sv"
  by (simp_all add: on_counters_def)

text \<open>The clients that leave the waiting list with a batch, and those that stay.\<close>

definition batch_clients :: "u64 \<Rightarrow> dns_request list \<Rightarrow> data_server \<Rightarrow> client_data list \<times> pending_clients" where
  "batch_clients now reqs sv =
     flush_clients 3000 now
       (fold (note_client (learn_macs reqs (sv_mac_cache sv)) now) (filter recorded reqs) (sv_pending sv))"

abbreviation batch_rows :: "dns_request list \<Rightarrow> domain_data list" where
  "batch_rows reqs \<equiv> map domain_of_request (filter recorded reqs)"

lemma handle_fields:
  "server_db (handle_dns_request off now reqs sv) =
     snd (record_rows off (batch_rows reqs) (fst (batch_clients now reqs sv)) (server_db sv))"
  "sv_pending (handle_dns_request off now reqs sv) = snd (batch_clients now reqs sv)"
  "sv_mac_cache (handle_dns_request off now reqs sv) = learn_macs reqs (sv_mac_cache sv)"
  "si_total_request (counters (handle_dns_request off now reqs sv)) =
     si_total_request (counters sv) + of_nat (length (filter recorded reqs))"
  "sv_queue (handle_dns_request off now reqs sv) = sv_queue sv"
  "sv_req_list (handle_dns_request off now reqs sv) = sv_req_list sv"
  "sv_receiving (handle_dns_request off now reqs sv) = sv_receiving sv"
  "sv_disabled (handle_dns_request off now reqs sv) = sv_disabled sv"
  "sv_batch_mode (handle_dns_request off now reqs sv) = sv_batch_mode sv"
  "sv_batch_timer (handle_dns_request off now reqs sv) = sv_batch_timer sv"
  by (simp_all add: handle_dns_request_def batch_clients_def Let_def split_beta
      add_total_request_def add_total_blocked_request_def add_total_failed_request_def)

lemma insert_domain_fails: "insert_domain off rows d = (Inl e,
  d') \<Longrightarrow> db_tables d' = db_tables d"
  by (auto simp: insert_domain_def with_conn_result split: if_splits dest: transaction_error)

lemma insert_client_fails: "insert_client cs d = (Inl e, d') \<Longrightarrow> db_tables d' = db_tables d"
  by (auto simp: insert_client_def with_conn_result split: if_splits dest: transaction_error)

lemma record_rows_tables:
  assumes "record_rows off rows clients d = (r, d')"
  shows "db_tables d' = db_tables d \<or> db_tables d' = inserted off rows (db_tables d) \<or>
    db_tables d' = (inserted off rows (db_tables d))\<lparr>tb_client := fold upsert_client clients (tb_client (db_tables d))\<rparr>"
proof -
  obtain r1 d1 where i: "insert_domain off rows d = (r1, d1)" by fastforce
  show ?thesis
  proof (cases r1)
    case (Inl e)
    then have "d' = d1" using assms i by (simp add: record_rows_def act_bind_def)
    then show ?thesis using insert_domain_fails [OF i [unfolded Inl]] by simp
  next
    case (Inr u)
    then have t: "db_tables d1 = inserted off rows (db_tables d)" using insert_domain_ok i by simp
    have c: "insert_client clients d1 = (r, d')" using assms i Inr by (simp add: record_rows_def act_bind_def)
    show ?thesis
    proof (cases r)
      case (Inl e)
      then show ?thesis using insert_client_fails [OF c [unfolded Inl]] t by simp
    next
      case (Inr v)
      then show ?thesis using insert_client_ok [of clients d1 d'] c t by (simp add: inserted_def)
    qed
  qed
qed

text \<open>The three ways a batch can end. The counters have been raised and the clients have left the
  waiting list in each of them.\<close>

text \<open>Recording a batch ends in one of three ways: nothing written, the queries without the
  clients, or both; the counters have been raised and the clients have left the waiting list in
  each of them.\<close>

theorem batch_outcome:
  "(db_tables (server_db (handle_dns_request off now reqs sv)) \<in>
     {db_tables (server_db sv),
      inserted off (batch_rows reqs) (db_tables (server_db sv)),
      (inserted off (batch_rows reqs) (db_tables (server_db sv)))
        \<lparr>tb_client := fold upsert_client (fst (batch_clients now reqs sv)) (tb_client (db_tables (server_db sv)))\<rparr>}) \<and>
   si_total_request (counters (handle_dns_request off now reqs sv)) =
     si_total_request (counters sv) + of_nat (length (batch_rows reqs)) \<and>
   sv_pending (handle_dns_request off now reqs sv) = snd (batch_clients now reqs sv)"
  unfolding handle_fields
  using record_rows_tables [of off "batch_rows reqs" "fst (batch_clients now reqs sv)" "server_db sv"]
  by (metis insert_iff length_map prod.collapse)

section \<open>No client gets lost on the way\<close>

definition noted :: "u64 \<Rightarrow> dns_request \<Rightarrow> pending_clients \<Rightarrow> bool" where
  "noted now req pending \<longleftrightarrow>
     (\<exists>first_seen c. map_of pending (rq_remote_addr req) = Some (first_seen, c) \<and>
        cd_client_ip c = rq_remote_addr req \<and> cd_last_query_timestamp c = now)"

definition keyed :: "pending_clients \<Rightarrow> bool" where
  "keyed pending \<longleftrightarrow> distinct (map fst pending) \<and> (\<forall>(ip, _,
    c) \<in> set pending. cd_client_ip c = ip)"

lemma keyed_lookup: "keyed p \<Longrightarrow> map_of p ip = Some (f,
  c) \<Longrightarrow> cd_client_ip c = ip"
  by (auto simp: keyed_def dest: map_of_SomeD)

lemma keyed_update:
  assumes "keyed p" "cd_client_ip c = ip"
  shows "keyed (AList.update ip (f, c) p)"
proof -
  have d: "distinct (map fst (AList.update ip (f, c) p))"
    using assms by (simp add: keyed_def distinct_update)
  have "cd_client_ip c' = k" if "(k, f', c') \<in> set (AList.update ip (f, c) p)" for k f' c'
  proof -
    have "map_of (AList.update ip (f, c) p) k = Some (f', c')" using d that by simp
    then show ?thesis using assms keyed_lookup [OF assms(1)] by (auto simp: update_conv split: if_splits)
  qed
  then show ?thesis using d by (auto simp: keyed_def)
qed

lemma note_client_keyed: "keyed p \<Longrightarrow> keyed (note_client cache now req p)"
  by (auto simp: note_client_def Let_def split: option.split intro!: keyed_update dest: keyed_lookup)

lemma note_client_noted: "keyed p \<Longrightarrow> noted now req (note_client cache now req p)"
  by (auto simp: note_client_def noted_def Let_def update_conv split: option.split dest: keyed_lookup)

lemma note_client_noted_other:
  assumes "keyed p" "noted now req p"
  shows "noted now req (note_client cache now other p)"
proof (cases "rq_remote_addr other = rq_remote_addr req")
  case True
  then show ?thesis using note_client_noted [OF assms(1), of now other cache] by (simp add: noted_def)
next
  case False
  then show ?thesis using assms(2)
    by (auto simp: note_client_def noted_def Let_def update_conv split: option.split)
qed

lemma fold_note_keyed: "keyed p \<Longrightarrow> keyed (fold (note_client cache now) reqs p)"
  by (induction reqs arbitrary: p) (auto intro: note_client_keyed)

lemma fold_note_keeps_noted:
  "keyed p \<Longrightarrow> noted now req p \<Longrightarrow> noted now req (fold (note_client cache now) reqs p)"
  by (induction reqs arbitrary: p) (auto intro: note_client_keyed note_client_noted_other)

lemma fold_note_noted:
  "keyed p \<Longrightarrow> req \<in> set reqs \<Longrightarrow> noted now req (fold (note_client cache now) reqs p)"
  by (induction reqs arbitrary: p)
    (auto intro: note_client_keyed fold_note_keeps_noted note_client_noted)


section \<open>An invariant of the loop\<close>

definition server_ok :: "data_server \<Rightarrow> bool" where
  "server_ok sv \<longleftrightarrow>
     length (sv_queue sv) \<le> queue_capacity \<and> length (sv_req_list sv) < batch_size sv \<and>
     (sv_req_list sv \<noteq> [] \<longrightarrow> sv_batch_timer sv) \<and> keyed (sv_pending sv) \<and>
     (\<not> sv_receiving sv \<longrightarrow> sv_queue sv = [] \<and> sv_req_list sv = [] \<and> sv_pending sv = [])"

lemma batch_size_pos [simp]: "0 < batch_size sv"
  by (simp add: batch_size_def)

lemma batch_size_upd [simp]:
  "batch_size (sv\<lparr>sv_queue := q\<rparr>) = batch_size sv" "batch_size (sv\<lparr>sv_req_list := r\<rparr>) = batch_size sv"
  "batch_size (sv\<lparr>sv_batch_timer := b\<rparr>) = batch_size sv" "batch_size (sv\<lparr>sv_pending := p\<rparr>) = batch_size sv"
  "batch_size (on_counters f sv) = batch_size sv"
  by (simp_all add: batch_size_def)

lemma keyed_Nil [simp]: "keyed []"
  by (simp add: keyed_def)

lemma keyed_filter: "keyed p \<Longrightarrow> keyed (filter P p)"
  by (auto simp: keyed_def distinct_map_filter)

lemma batch_clients_keyed: "keyed (sv_pending sv) \<Longrightarrow> keyed (snd (batch_clients now reqs sv))"
  by (simp add: batch_clients_def flush_clients_def keyed_filter fold_note_keyed)

lemma quiet_fields [simp]:
  "sv_pending (insert_clients_quietly cs sv) = sv_pending sv"
  "sv_queue (insert_clients_quietly cs sv) = sv_queue sv"
  "sv_req_list (insert_clients_quietly cs sv) = sv_req_list sv"
  "sv_receiving (insert_clients_quietly cs sv) = sv_receiving sv"
  "sv_batch_mode (insert_clients_quietly cs sv) = sv_batch_mode sv"
  "sv_batch_timer (insert_clients_quietly cs sv) = sv_batch_timer sv"
  "sv_disabled (insert_clients_quietly cs sv) = sv_disabled sv"
  by (simp_all add: insert_clients_quietly_def)

lemma write_batch_fields [simp]:
  "sv_pending (write_batch off now sv) = snd (batch_clients now (sv_req_list sv) sv)"
  "sv_queue (write_batch off now sv) = sv_queue sv"
  "sv_req_list (write_batch off now sv) = []"
  "sv_receiving (write_batch off now sv) = sv_receiving sv"
  "sv_batch_mode (write_batch off now sv) = sv_batch_mode sv"
  "sv_disabled (write_batch off now sv) = sv_disabled sv"
  by (simp_all add: write_batch_def handle_fields batch_clients_def)

lemma write_batch_ok: "keyed (sv_pending sv) \<Longrightarrow> length (sv_queue sv) \<le> queue_capacity \<Longrightarrow>
    sv_receiving sv \<Longrightarrow> server_ok (write_batch off now sv)"
  by (simp add: server_ok_def batch_clients_keyed)

lemma receive_ok:
  assumes "server_ok sv" "sv_receiving sv"
  shows "server_ok (receive off now n sv)"
proof -
  let ?c = "receive_count n sv"
  let ?sv = "sv\<lparr>sv_queue := drop ?c (sv_queue sv), sv_req_list := sv_req_list sv @
    take ?c (sv_queue sv)\<rparr>"
  have q: "length (sv_queue ?sv) \<le> queue_capacity" "keyed (sv_pending ?sv)" "sv_receiving ?sv"
    using assms by (auto simp: server_ok_def)
  have "server_ok (?sv\<lparr>sv_batch_timer := True\<rparr>)" if "length (sv_req_list ?sv) < batch_size ?sv"
    using that q by (simp add: server_ok_def)
  then show ?thesis
    using assms write_batch_ok [OF q(2,1,3)] by (simp add: receive_def Let_def)
qed

lemma send_request_ok: "server_ok sv \<Longrightarrow> server_ok (snd (send_request req sv))"
  by (auto simp: send_request_def server_ok_def Let_def)

lemma server_check_fields [simp]:
  "sv_queue (server_check f sv) = sv_queue sv" "sv_req_list (server_check f sv) = sv_req_list sv"
  "sv_receiving (server_check f sv) = sv_receiving sv" "sv_pending (server_check f sv) = sv_pending sv"
  "sv_batch_mode (server_check f sv) = sv_batch_mode sv" "sv_batch_timer (server_check f sv) = sv_batch_timer sv"
  "sv_stat (server_check f sv) = sv_stat sv"
  by (simp_all add: server_check_def)

lemma check_tick_fields [simp]:
  "sv_queue (check_tick e f sv) = sv_queue sv" "sv_req_list (check_tick e f sv) = sv_req_list sv"
  "sv_receiving (check_tick e f sv) = sv_receiving sv" "sv_pending (check_tick e f sv) = sv_pending sv"
  "sv_batch_mode (check_tick e f sv) = sv_batch_mode sv" "sv_batch_timer (check_tick e f sv) = sv_batch_timer sv"
  "sv_stat (check_tick e f sv) = sv_stat sv"
  by (simp_all add: check_tick_def Let_def)

lemma batch_size_steps [simp]:
  "batch_size (insert_clients_quietly cs sv) = batch_size sv" "batch_size (check_tick e f sv) = batch_size sv"
  by (simp_all add: batch_size_def)

lemma loop_step_ok: "server_ok sv \<Longrightarrow> server_ok (loop_step off ev sv)"
proof (cases ev)
  case (Request req)
  then show "server_ok sv \<Longrightarrow> ?thesis" by (simp add: send_request_ok)
next
  case (Received now n)
  then show "server_ok sv \<Longrightarrow> ?thesis" by (simp add: receive_ok)
next
  case (Batch_Due now)
  assume "server_ok sv"
  then show ?thesis using Batch_Due 
    by (simp add: batch_tick_def write_batch_ok) (simp add: server_ok_def write_batch_ok batch_clients_keyed)
next
  case (Flush_Due now)
  assume "server_ok sv"
  then show ?thesis using Flush_Due
    by (simp add: client_flush_tick_def flush_clients_def server_ok_def keyed_filter)
next
  case (Check_Due e f)
  assume "server_ok sv"
  then show ?thesis using Check_Due by (simp add: server_ok_def)
next
  case Stop
  assume "server_ok sv"
  then show ?thesis using Stop by (simp add: shut_down_def Let_def server_ok_def)
qed

interpretation data_loop: machine "loop_step off" server_ok for off
  by unfold_locales (rule loop_step_ok)

text \<open>C18: Through every sequence of events the queue stays within its capacity, less than a batch
  waits and only with the batch timer set, the waiting list has one entry per address, and
  nothing waits once the server has stopped.\<close>

theorem loop_keeps_server_ok:
  assumes "server_ok sv"
  shows "server_ok (run_events off evs sv)"
  unfolding run_events_def by (rule data_loop.run_ok [OF assms])

lemma new_data_server_ok: "server_ok (new_data_server dir now d)"
  by (simp add: new_data_server_def server_ok_def keyed_def batch_size_def queue_capacity_def)

section \<open>Stopping\<close>

lemma keeps_client_table:
  "keeps (\<lambda>t. tb_domain t = X) (insert_client cs)"
  "keeps (\<lambda>t. tb_domain t = X) (set_status_data k v)"
  unfolding insert_client_def set_status_data_def by (intro keeps_intros; simp)+

lemma keeps_status_each:
  "keeps (\<lambda>t. tb_domain t = X) (act_each (\<lambda>(k, v). set_status_data k v) kvs)"
  by (intro keeps_each) (auto intro: keeps_client_table)

lemma stop_worker_domain: "tb_domain (db_tables (ds_db (stop_worker s))) = tb_domain (db_tables (ds_db s))"
proof -
  obtain r d where e: "act_each (\<lambda>(k, v). set_status_data k v) (status_values (ds_data s)) (ds_db s) = (r, d)"
    by fastforce
  have "tb_domain (db_tables d) = tb_domain (db_tables (ds_db s))"
    by (rule keepsD [OF keeps_status_each e]) simp
  then show ?thesis by (simp add: stop_worker_def save_status_data_def e)
qed

lemma quiet_domain:
  "tb_domain (db_tables (server_db (insert_clients_quietly cs sv))) = tb_domain (db_tables (server_db sv))"
proof (cases "cs = []")
  case False
  obtain r d where i: "insert_client cs (server_db sv) = (r, d)" by fastforce
  have "tb_domain (db_tables d) = tb_domain (db_tables (server_db sv))"
    by (rule keepsD [OF keeps_client_table(1) i]) simp
  then show ?thesis using False i by (simp add: insert_clients_quietly_def)
qed (simp add: insert_clients_quietly_def)

text \<open>Queries that are queued or wait for their batch when the server stops are recorded nowhere.\<close>

text \<open>Stopping records none of the queries that are queued or wait for their batch: the queue
  and the batch are empty afterwards and the query table is unchanged.\<close>

theorem stop_drops_queries:
  "tb_domain (db_tables (server_db (shut_down sv))) = tb_domain (db_tables (server_db sv)) \<and>
   sv_queue (shut_down sv) = [] \<and> sv_req_list (shut_down sv) = []"
  using quiet_domain [of _ "sv\<lparr>sv_pending := []\<rparr>"]
  by (simp add: shut_down_def Let_def stop_worker_domain)

section \<open>The disk-space check\<close>

lemma server_check_disabled: "sv_disabled (server_check free_space sv) \<longleftrightarrow> free_space < min_free_disk_space"
  by (simp add: server_check_def)

text \<open>While requests are suspended none is queued, and none counts as dropped.\<close>

lemma suspended_not_queued:
  "sv_disabled sv \<Longrightarrow> fst (send_request req sv) = Inr () \<and>
     sv_queue (snd (send_request req sv)) = sv_queue sv \<and>
     si_request_dropped (counters (snd (send_request req sv))) = si_request_dropped (counters sv)"
  by (simp add: send_request_def Let_def add_qps_count_def)

text \<open>A check that did not run costs one tick: the flag set by it is cleared by the next tick, and
  the tick after that checks.\<close>

lemma failed_check_recovers:
  assumes "\<not> sv_check_running sv"
  shows "sv_disabled (check_tick True f3 (check_tick e2 f2 (check_tick False f1 sv))) \<longleftrightarrow> f3 < min_free_disk_space"
  using assms by (simp add: check_tick_def Let_def server_check_disabled)

section \<open>Every accepted query is recorded once, in order\<close>

text \<open>A database whose calls succeed goes on succeeding.\<close>

definition calm :: "'a db_act \<Rightarrow> bool" where
  "calm m \<longleftrightarrow> (\<forall>d. db_healthy d \<longrightarrow> db_healthy (snd (m d)))"

lemma calmD: "calm m \<Longrightarrow> db_healthy d \<Longrightarrow> m d = (r,
  d') \<Longrightarrow> db_healthy d'"
  unfolding calm_def by (metis snd_conv)

lemma calm_bind:
  assumes m: "calm m" and f: "\<And>x. calm (f x)"
  shows "calm (act_bind m f)"
  unfolding calm_def
proof (intro allI impI)
  fix d assume d: "db_healthy d"
  obtain r d1 where m1: "m d = (r, d1)" by fastforce
  note d1 = calmD [OF m d m1]
  show "db_healthy (snd (act_bind m f d))"
  proof (cases r)
    case (Inl e)
    then show ?thesis using m1 d1 by (simp add: act_bind_def)
  next
    case (Inr x)
    then show ?thesis using m1 d1 f by (simp add: act_bind_def calm_def)
  qed
qed

lemma calm_basic: "calm (act_return x)" "calm (bind_u64 v)" "calm (in_tables f)" "calm (call_or e)"
  by (simp_all add: calm_def act_defs bind_u64_def in_tables_def db_healthy_def)

lemma calm_each: "(\<And>x. calm (f x)) \<Longrightarrow> calm (act_each f xs)"
  by (induction xs) (auto intro: calm_bind calm_basic)

lemma calm_transaction:
  assumes "calm m"
  shows "calm (with_conn (transaction m))"
  unfolding calm_def
proof (intro allI impI)
  fix d assume d: "db_healthy d"
  then have h: "db_is_open d" "db_calls d = []" by (simp_all add: db_healthy_def)
  have "calm (act_bind m (\<lambda>x. act_bind sqlite_call (\<lambda>_. act_return x)))"
    by (intro calm_bind calm_basic assms)
  moreover obtain r d1 where b: "act_bind m (\<lambda>x. act_bind sqlite_call (\<lambda>_. act_return x)) d = (r, d1)"
    by fastforce
  ultimately have "db_healthy d1" using d calmD by blast
  then show "db_healthy (snd (with_conn (transaction m) d))"
    using h by (cases r) (simp_all add: with_conn_def transaction_def bind_steps b db_healthy_def)
qed

lemma calm_insert_client: "calm (insert_client cs)"
  unfolding insert_client_def by (intro calm_transaction calm_bind calm_basic calm_each)

lemma each_row_healthy:
  assumes "db_calls d = []" "tb_domain_seq (db_tables d) + length rows < 2 ^ 63"
  shows "act_each insert_domain_row rows d = (Inr (), d\<lparr>db_tables := fold add_row rows (db_tables d)\<rparr>)"
  using assms
proof (induction rows arbitrary: d)
  case (Cons r rows)
  have "insert_domain_row r d = (Inr (), d\<lparr>db_tables := add_row r (db_tables d)\<rparr>)"
    using Cons.prems by (simp add: insert_domain_row_def bind_steps Let_def in_tables_def act_upd_def add_row_def)
  then show ?case
    using Cons.IH [of "d\<lparr>db_tables := add_row r (db_tables d)\<rparr>"] Cons.prems
    by (simp add: act_bind_def add_row_def)
qed (simp add: act_return_def)

lemma count_all_keys: "fst ` set (count_all ks) = set ks"
proof -
  have "fst ` set (fold (\<lambda>k m. add_count k 1 m) ks m) = set ks \<union> fst ` set m" for m
    by (induction ks arbitrary: m) (auto simp: add_count_keys)
  then show ?thesis by (simp add: count_all_def)
qed

lemma counts_healthy:
  assumes "db_calls d = []" "\<forall>k \<in> set ks. unat k < 2 ^ 63"
  shows "act_each (\<lambda>(k, n). act_bind (bind_u64 k) (\<lambda>_. act_bind sqlite_call (\<lambda>_. in_tables (add k n))))
     (count_all ks) d = (Inr (), d\<lparr>db_tables := fold (\<lambda>(k,
       n). add k n) (count_all ks) (db_tables d)\<rparr>)"
proof -
  have "\<forall>k \<in> fst ` set (count_all ks). unat k < 2 ^ 63" unfolding count_all_keys by (rule assms(2))
  then have "\<forall>x \<in> set (count_all ks). unat (fst x) < 2 ^ 63" by simp
  from each_in_tables [OF assms(1) this, of "\<lambda>x. add (fst x) (snd x)"]
  show ?thesis by (simp only: case_prod_unfold)
qed

definition in_time_range :: "i32 \<Rightarrow> u64 \<Rightarrow> bool" where
  "in_time_range off ts \<longleftrightarrow> unat (hour_bucket off ts) < 2 ^ 63 \<and> unat (day_bucket off ts) < 2 ^ 63"

lemma insert_domain_healthy:
  assumes "db_healthy d" "\<forall>r \<in> set rows. in_time_range off (dd_timestamp r)"
    "tb_domain_seq (db_tables d) + length rows < 2 ^ 63"
  shows "insert_domain off rows d = (Inr (), d\<lparr>db_tables := inserted off rows (db_tables d)\<rparr>)"
proof -
  have d: "db_calls d = []" "db_is_open d" using assms(1) by (simp_all add: db_healthy_def)
  let ?t1 = "fold add_row rows (db_tables d)"
  let ?hs = "map (\<lambda>x. hour_bucket off (dd_timestamp x)) rows"
  let ?ds = "map (\<lambda>x. day_bucket off (dd_timestamp x)) rows"
  let ?t2 = "fold (\<lambda>(k, n) t. t\<lparr>tb_hourly := add_count k n (tb_hourly t)\<rparr>) (count_all ?hs) ?t1"
  have k: "\<forall>k \<in> set ?hs. unat k < 2 ^ 63" "\<forall>k \<in> set ?ds. unat k < 2 ^ 63"
    using assms(2) by (auto simp: in_time_range_def)
  have rows: "act_each insert_domain_row rows d = (Inr (), d\<lparr>db_tables := ?t1\<rparr>)"
    by (rule each_row_healthy [OF d(1) assms(3)])
  have hours: "update_domain_hourly_count (count_all ?hs) (d\<lparr>db_tables := ?t1\<rparr>) =
      (Inr (), d\<lparr>db_tables := ?t2\<rparr>)"
    using counts_healthy [OF _ k(1), of "d\<lparr>db_tables := ?t1\<rparr>"
        "\<lambda>k n t. t\<lparr>tb_hourly := add_count k n (tb_hourly t)\<rparr>"] d
    by (simp add: update_domain_hourly_count_def bind_steps)
  have days: "\<exists>t3. update_domain_daily_count (count_all ?ds) (d\<lparr>db_tables := ?t2\<rparr>) =
      (Inr (), d\<lparr>db_tables := t3\<rparr>)"
    using counts_healthy [OF _ k(2), of "d\<lparr>db_tables := ?t2\<rparr>"
        "\<lambda>k n t. t\<lparr>tb_daily := add_count k n (tb_daily t)\<rparr>"] d
    by (simp add: update_domain_daily_count_def bind_steps) (rule exI, rule refl)
  then obtain t3 where "insert_domain off rows d = (Inr (), d\<lparr>db_tables := t3\<rparr>)"
    using d by (auto simp: insert_domain_def with_conn_def transaction_def bind_steps rows hours act_bind_assoc
        act_bind_def [of "act_each f xs" for f xs] act_bind_def [of "update_domain_hourly_count c" for c]
        act_bind_def [of "update_domain_daily_count c" for c]
        act_return_def)
  then show ?thesis using insert_domain_ok by fastforce
qed

lemma record_rows_healthy:
  assumes "db_healthy d" "\<forall>r \<in> set rows. in_time_range off (dd_timestamp r)"
    "tb_domain_seq (db_tables d) + length rows < 2 ^ 63"
  shows "db_healthy (snd (record_rows off rows clients d)) \<and>
    tb_domain (db_tables (snd (record_rows off rows clients d))) =
      tb_domain (db_tables d) @ numbered (tb_domain_seq (db_tables d)) rows \<and>
    tb_domain_seq (db_tables (snd (record_rows off rows clients d))) =
      tb_domain_seq (db_tables d) + length rows"
proof -
  let ?d = "d\<lparr>db_tables := inserted off rows (db_tables d)\<rparr>"
  obtain r d' where c: "insert_client clients ?d = (r, d')" by fastforce
  have s: "snd (record_rows off rows clients d) = d'"
    using insert_domain_healthy [OF assms] c by (simp add: record_rows_def act_bind_def)
  have "db_healthy ?d" using assms(1) by (simp add: db_healthy_def)
  note h = calmD [OF calm_insert_client this c]
  have "keeps (\<lambda>t. tb_domain t = X \<and> tb_domain_seq t = n) (insert_client clients)" for X n
    unfolding insert_client_def by (intro keeps_intros; simp)
  from keepsD [OF this c] h s show ?thesis by (simp add: inserted_def)
qed

section \<open>The path of a query\<close>

definition without_id :: "domain_data \<Rightarrow> domain_data" where
  "without_id r = r\<lparr>dd_id := 0\<rparr>"

lemma without_id_numbered [simp]: "map without_id (numbered n rows) = map without_id rows"
  by (induction rows arbitrary: n) (simp_all add: without_id_def)

lemma without_id_rows [simp]: "without_id (domain_of_request req) = domain_of_request req"
  by (simp add: without_id_def domain_of_request_def)

definition waiting :: "data_server \<Rightarrow> dns_request list" where
  "waiting sv = sv_req_list sv @ sv_queue sv"

definition accepts :: "data_server \<Rightarrow> dns_request \<Rightarrow> bool" where
  "accepts sv req \<longleftrightarrow> \<not> rq_is_prefetch req \<and> \<not> sv_disabled sv \<and> sv_receiving sv \<and>
     length (sv_queue sv) < queue_capacity"

fun newly_accepted :: "server_event \<Rightarrow> data_server \<Rightarrow> dns_request list" where
  "newly_accepted (Request req) sv = (if accepts sv req then [req] else [])"
| "newly_accepted _ sv = []"

fun accepted :: "i32 \<Rightarrow> server_event list \<Rightarrow> data_server \<Rightarrow> dns_request list" where
  "accepted off [] sv = []"
| "accepted off (ev # evs) sv = newly_accepted ev sv @ accepted off evs (loop_step off ev sv)"

abbreviation domain_rows :: "data_server \<Rightarrow> domain_data list" where
  "domain_rows sv \<equiv> tb_domain (db_tables (server_db sv))"

abbreviation row_seq :: "data_server \<Rightarrow> nat" where
  "row_seq sv \<equiv> tb_domain_seq (db_tables (server_db sv))"

text \<open>What one step may rely on and what it keeps: the recorded and the waiting queries together
  grow by the query just accepted.\<close>

definition can_record :: "i32 \<Rightarrow> data_server \<Rightarrow> bool" where
  "can_record off sv \<longleftrightarrow> db_healthy (server_db sv) \<and> sv_receiving sv \<and>
     (\<forall>req \<in> set (waiting sv). in_time_range off (rq_query_timestamp req))"

definition carried :: "data_server \<Rightarrow> domain_data list" where
  "carried sv = map without_id (domain_rows sv) @ batch_rows (waiting sv)"

lemma write_batch_carries:
  assumes "can_record off sv" "row_seq sv + length (waiting sv) < 2 ^ 63"
  shows "can_record off (write_batch off now sv) \<and> carried (write_batch off now sv) = carried sv \<and>
    row_seq (write_batch off now sv) + length (waiting (write_batch off now sv)) \<le> row_seq sv + length (waiting sv)"
proof -
  let ?sv = "sv\<lparr>sv_batch_timer := False\<rparr>"
  have db: "server_db (write_batch off now sv) =
      snd (record_rows off (batch_rows (sv_req_list sv)) (fst (batch_clients now (sv_req_list sv) ?sv)) (server_db sv))"
    by (simp add: write_batch_def handle_fields)
  note len = length_filter_le [of recorded "sv_req_list sv"]
  have "\<forall>r \<in> set (batch_rows (sv_req_list sv)). in_time_range off (dd_timestamp r)"
    using assms(1) by (auto simp: can_record_def waiting_def domain_of_request_def)
  moreover have "row_seq sv + length (batch_rows (sv_req_list sv)) < 2 ^ 63"
    using assms(2) by (simp add: waiting_def) (use len in linarith)
  ultimately have r: "db_healthy (server_db (write_batch off now sv)) \<and>
      domain_rows (write_batch off now sv) = domain_rows sv @
        numbered (row_seq sv) (batch_rows (sv_req_list sv)) \<and>
      row_seq (write_batch off now sv) = row_seq sv + length (batch_rows (sv_req_list sv))"
    unfolding db using assms(1) by (intro record_rows_healthy) (simp_all add: can_record_def)
  have w: "waiting (write_batch off now sv) = sv_queue sv" by (simp add: waiting_def)
  show ?thesis
    using r assms(1) by (simp add: can_record_def carried_def w) (simp add: waiting_def)
qed

lemma same_path:
  assumes "server_db sv' = server_db sv" "waiting sv' = waiting sv" "sv_receiving sv' = sv_receiving sv"
  shows "can_record off sv' = can_record off sv" "carried sv' = carried sv"
  using assms by (simp_all add: can_record_def carried_def)

lemma receive_carries:
  assumes "can_record off sv" "row_seq sv + length (waiting sv) < 2 ^ 63"
  shows "can_record off (receive off now n sv) \<and> carried (receive off now n sv) = carried sv \<and>
    row_seq (receive off now n sv) + length (waiting (receive off now n sv)) \<le> row_seq sv + length (waiting sv)"
proof -
  let ?c = "receive_count n sv"
  let ?sv = "sv\<lparr>sv_queue := drop ?c (sv_queue sv), sv_req_list := sv_req_list sv @
    take ?c (sv_queue sv)\<rparr>"
  have w: "waiting ?sv = waiting sv" by (simp add: waiting_def)
  have w': "waiting (?sv\<lparr>sv_batch_timer := True\<rparr>) = waiting sv" by (simp add: waiting_def)
  have wb: "can_record off (write_batch off now ?sv) \<and> carried (write_batch off now ?sv) = carried ?sv \<and>
      row_seq (write_batch off now ?sv) + length (waiting (write_batch off now ?sv)) \<le> row_seq ?sv + length (waiting ?sv)"
    by (rule write_batch_carries) (use assms same_path [of ?sv sv] w in simp_all)
  show ?thesis
  proof (cases "?c = 0")
    case True
    then show ?thesis using assms by (auto simp: receive_def Let_def)
  next
    case False
    show ?thesis
    proof (cases "sv_batch_mode sv \<and> length (sv_req_list ?sv) < batch_size ?sv")
      case True
      then have "receive off now n sv = ?sv\<lparr>sv_batch_timer := True\<rparr>"
        using False by (simp add: receive_def Let_def)
      then show ?thesis using same_path [of "?sv\<lparr>sv_batch_timer := True\<rparr>" sv] w' assms(1) by simp
    next
      case no: False
      then have "receive off now n sv = write_batch off now ?sv"
        using False by (auto simp: receive_def Let_def)
      then show ?thesis using wb same_path(2) [of ?sv sv] w by simp
    qed
  qed
qed

lemma quiet_carries:
  assumes "can_record off sv"
  shows "can_record off (insert_clients_quietly cs sv) \<and> carried (insert_clients_quietly cs sv) = carried sv \<and>
    row_seq (insert_clients_quietly cs sv) = row_seq sv \<and> waiting (insert_clients_quietly cs sv) = waiting sv"
proof (cases "cs = []")
  case False
  obtain r d where i: "insert_client cs (server_db sv) = (r, d)" by fastforce
  have "keeps (\<lambda>t. tb_domain t = X \<and> tb_domain_seq t = n) (insert_client cs)" for X n
    unfolding insert_client_def by (intro keeps_intros; simp)
  from keepsD [OF this i] calmD [OF calm_insert_client _ i] assms i False show ?thesis
    by (simp add: insert_clients_quietly_def can_record_def carried_def waiting_def)
qed (use assms in \<open>simp add: insert_clients_quietly_def\<close>)

lemma loop_step_carries:
  assumes "can_record off sv" "ev \<noteq> Stop"
    "row_seq sv + length (waiting sv) + length (newly_accepted ev sv) < 2 ^ 63"
    "\<forall>req \<in> set (newly_accepted ev sv). in_time_range off (rq_query_timestamp req)"
  shows "can_record off (loop_step off ev sv) \<and>
    carried (loop_step off ev sv) = carried sv @ batch_rows (newly_accepted ev sv) \<and>
    row_seq (loop_step off ev sv) + length (waiting (loop_step off ev sv)) \<le>
      row_seq sv + length (waiting sv) + length (newly_accepted ev sv)"
proof (cases ev)
  case (Request req)
  then show ?thesis using assms
    by (auto simp: send_request_def Let_def accepts_def can_record_def carried_def waiting_def)
next
  case (Received now n)
  then show ?thesis using receive_carries [OF assms(1)] assms by (simp add: can_record_def)
next
  case (Batch_Due now)
  then show ?thesis using write_batch_carries [OF assms(1)] assms by (simp add: batch_tick_def)
next
  case (Flush_Due now)
  let ?sv = "sv\<lparr>sv_pending := snd (flush_clients 10000 now (sv_pending sv))\<rparr>"
  have "can_record off ?sv" "carried ?sv = carried sv" "waiting ?sv = waiting sv"
    using assms(1) by (simp_all add: can_record_def carried_def waiting_def)
  then show ?thesis using Flush_Due assms quiet_carries [of off ?sv]
    by (simp add: client_flush_tick_def split_beta)
next
  case (Check_Due e f)
  have "waiting (check_tick e f sv) = waiting sv" by (simp add: waiting_def)
  then show ?thesis using Check_Due assms by (simp add: can_record_def carried_def)
next
  case Stop
  then show ?thesis using assms(2) by simp
qed

text \<open>C3: With a database whose calls succeed, after any sequence of requests, batches and timers
  the recorded queries followed by the waiting ones are those of the beginning followed by every
  accepted request that is neither prefetch nor dual-stack, in the order of arrival: none is
  lost, doubled or reordered.\<close>

theorem queries_recorded_in_order:
  assumes "can_record off sv" "Stop \<notin> set evs"
    and "\<forall>req \<in> set (accepted off evs sv). in_time_range off (rq_query_timestamp req)"
    and "row_seq sv + length (waiting sv) + length (accepted off evs sv) < 2 ^ 63"
  shows "map without_id (domain_rows (run_events off evs sv)) @ batch_rows (waiting (run_events off evs sv)) =
    map without_id (domain_rows sv) @ batch_rows (waiting sv @ accepted off evs sv)"
proof -
  have "carried (run_events off evs sv) = carried sv @ batch_rows (accepted off evs sv)"
    using assms unfolding run_events_def
  proof (induction evs arbitrary: sv)
    case (Cons ev evs)
    have step: "can_record off (loop_step off ev sv) \<and>
        carried (loop_step off ev sv) = carried sv @ batch_rows (newly_accepted ev sv) \<and>
        row_seq (loop_step off ev sv) + length (waiting (loop_step off ev sv)) \<le>
          row_seq sv + length (waiting sv) + length (newly_accepted ev sv)"
      by (rule loop_step_carries) (use Cons.prems in auto)
    have "carried (fold (loop_step off) evs (loop_step off ev sv)) =
        carried (loop_step off ev sv) @ batch_rows (accepted off evs (loop_step off ev sv))"
      by (rule Cons.IH) (use Cons.prems step in auto)
    then show ?case using step by simp
  qed simp
  then show ?thesis by (simp add: carried_def)
qed

section \<open>Witnesses\<close>

definition sample_request :: "string \<Rightarrow> u64 \<Rightarrow> 8 word \<Rightarrow> dns_request" where
  "sample_request name ts b = \<lparr>rq_is_prefetch = False, rq_is_dualstack = False, rq_is_blocked = False,
     rq_is_cached = True, rq_rcode = 0, rq_domain = lit name, rq_qtype = 1, rq_remote_addr = lit ''10.0.0.7'',
     rq_remote_mac = [0, 0, 0, 0, 0, b], rq_group_name = lit ''default'', rq_query_timestamp = ts,
     rq_query_time = 3, rq_ping_time = 0\<rparr>"

definition sample_server :: data_server where
  "sample_server = start_loop (new_data_server (lit ''/var'') 0 sample_db)"

definition sample_events :: "server_event list" where
  "sample_events = [Check_Due True 999999999, Request (sample_request ''a'' 1700000000000 0),
    Received 1700000000001 10,
     Request (sample_request ''b'' 1700000000002 9)]"


theorem loop_keeps_server_ok_witness: "server_ok (run_events 0 sample_events sample_server)"
proof (rule loop_keeps_server_ok)
  show "server_ok sample_server"
    by (simp add: sample_server_def start_loop_def new_data_server_def server_ok_def queue_capacity_def
        batch_size_def)
qed

lemma accepted_snoc_batch: "accepted off (evs @ [Batch_Due now]) sv = accepted off evs sv"
  by (induction evs arbitrary: sv) simp_all

theorem queries_recorded_in_order_witness:
  "map without_id (domain_rows (run_events 0 (sample_events @ [Batch_Due 1700000000003]) sample_server)) @
     batch_rows (waiting (run_events 0 (sample_events @ [Batch_Due 1700000000003]) sample_server)) =
   map domain_of_request [sample_request ''a'' 1700000000000 0, sample_request ''b'' 1700000000002 9]"
proof -
  let ?evs = "sample_events @ [Batch_Due 1700000000003]"
  have a: "accepted 0 ?evs sample_server =
      [sample_request ''a'' 1700000000000 0, sample_request ''b'' 1700000000002 9]"
    unfolding accepted_snoc_batch by code_simp
  have w: "waiting sample_server = []"
    by (simp add: waiting_def sample_server_def start_loop_def new_data_server_def)
  have d: "server_db sample_server = sample_db"
    by (simp add: sample_server_def start_loop_def new_data_server_def start_worker_def)
  have r: "recorded (sample_request n t b)" for n t b by (simp add: recorded_def sample_request_def)
  have "can_record 0 sample_server"
    by (simp add: can_record_def w d) (simp add: sample_server_def start_loop_def db_healthy_def sample_db_def)
  moreover have "Stop \<notin> set ?evs" by (simp add: sample_events_def)
  moreover have "in_time_range 0 1700000000000" "in_time_range 0 1700000000002" by code_simp+
  then have "\<forall>req \<in> set (accepted 0 ?evs sample_server). in_time_range 0 (rq_query_timestamp req)"
    by (simp add: a sample_request_def)
  moreover have "row_seq sample_server + length (waiting sample_server) + length (accepted 0 ?evs sample_server) < 2 ^ 63"
    by (simp add: a w d sample_db_def empty_tables_def)
  ultimately have "map without_id (domain_rows (run_events 0 ?evs sample_server)) @
      batch_rows (waiting (run_events 0 ?evs sample_server)) =
    map without_id (domain_rows sample_server) @ batch_rows (waiting sample_server @
      accepted 0 ?evs sample_server)"
    by (rule queries_recorded_in_order)
  then show ?thesis by (simp add: a w d r sample_db_def empty_tables_def)
qed
end
