(* ===== verification/Json.thy ===== *)
theory Json
  imports Effects
begin

text \<open>
  JSON values as \<open>serde_json\<close> has them, and the accessors the program uses on them: indexing by key
  and by position gives \<open>Null\<close> for what is not there, numbers keep the three forms of
  \<open>serde_json::Number\<close>. Writing a value as text and reading it back is library code: it is the
  record \<open>json_lib\<close>, an argument of the definitions that use it. What a client may rely on is that
  a text it has written is read as the value it came from; as the default configuration of the
  library reads some decimal fractions with an error in the last bit, that is stated for the values
  at hand (\<open>reads_back\<close>) and not for all.
\<close>

unbundle bit_operations_syntax

datatype json_number = Pos_Int u64 | Neg_Int i64 | Float_Num f64

datatype json =
    Null
  | Bool bool
  | Number json_number
  | Str ustr
  | Arr "json list"
  | Obj "ustr \<Rightarrow> json option"

record json_lib =
  jl_from_str :: "ustr \<Rightarrow> (ustr, json) result"
  jl_to_string :: "json \<Rightarrow> ustr"
  jl_float_of_int :: "int \<Rightarrow> f64"

definition reads_back :: "json_lib \<Rightarrow> json \<Rightarrow> bool" where
  "reads_back lib v \<longleftrightarrow> jl_from_str lib (jl_to_string lib v) = Inr v"

section \<open>Building values\<close>

text \<open>\<open>json!\<close> with the fields in the order of the source. A float that is not finite becomes
  \<open>Null\<close>.\<close>

definition object :: "(string \<times> json) list \<Rightarrow> json" where
  "object members = Obj (map_of (map (\<lambda>(k, v). (lit k, v)) members))"

definition num_u :: "'w::len word \<Rightarrow> json" where
  "num_u x = Number (Pos_Int (ucast x))"

definition num_i :: "'w::len word \<Rightarrow> json" where
  "num_i x = Number (if sint x < 0 then Neg_Int (scast x) else Pos_Int (scast x))"

definition is_finite :: "f64 \<Rightarrow> bool" where
  "is_finite x \<longleftrightarrow> x AND 0x7FF0000000000000 \<noteq> 0x7FF0000000000000"

definition num_f :: "f64 \<Rightarrow> json" where
  "num_f x = (if is_finite x then Number (Float_Num x) else Null)"

section \<open>Accessors\<close>

fun at_key :: "json \<Rightarrow> ustr \<Rightarrow> json" where
  "at_key (Obj m) k = (case m k of None \<Rightarrow> Null | Some v \<Rightarrow> v)"
| "at_key _ k = Null"

fun at_index :: "json \<Rightarrow> nat \<Rightarrow> json" where
  "at_index (Arr xs) i = (if i < length xs then xs ! i else Null)"
| "at_index _ i = Null"

fun as_str :: "json \<Rightarrow> ustr option" where
  "as_str (Str s) = Some s"
| "as_str _ = None"

fun as_bool :: "json \<Rightarrow> bool option" where
  "as_bool (Bool b) = Some b"
| "as_bool _ = None"

fun as_array :: "json \<Rightarrow> json list option" where
  "as_array (Arr xs) = Some xs"
| "as_array _ = None"

fun as_u64 :: "json \<Rightarrow> u64 option" where
  "as_u64 (Number (Pos_Int n)) = Some n"
| "as_u64 _ = None"

fun as_i64 :: "json \<Rightarrow> i64 option" where
  "as_i64 (Number (Pos_Int n)) = (if n \<le> 0x7FFFFFFFFFFFFFFF then Some n else None)"
| "as_i64 (Number (Neg_Int n)) = Some n"
| "as_i64 _ = None"

fun as_f64 :: "json_lib \<Rightarrow> json \<Rightarrow> f64 option" where
  "as_f64 lib (Number (Pos_Int n)) = Some (jl_float_of_int lib (uint n))"
| "as_f64 lib (Number (Neg_Int n)) = Some (jl_float_of_int lib (sint n))"
| "as_f64 lib (Number (Float_Num x)) = Some x"
| "as_f64 lib _ = None"

text \<open>The member of an object a parser needs, with the error it reports when it is missing or of
  another kind.\<close>

definition need_or :: "string \<Rightarrow> (json \<Rightarrow> 'a option) \<Rightarrow> string \<Rightarrow> json \<Rightarrow> (ustr, 'a) result" where
  "need_or name acc key v =
     (case acc (at_key v (lit key)) of None \<Rightarrow> Inl (lit (name @
       '' not found'')) | Some x \<Rightarrow> Inr x)"

definition need :: "(json \<Rightarrow> 'a option) \<Rightarrow> string \<Rightarrow> json \<Rightarrow> (ustr, 'a) result" where
  "need acc key v = need_or key acc key v"

text \<open>Reading a list element by element, up to the first error.\<close>

fun each_result :: "('a \<Rightarrow> ('e, 'b) result) \<Rightarrow> 'a list \<Rightarrow> ('e,
  'b list) result" where
  "each_result f [] = Inr []"
| "each_result f (x # xs) =
     bind_result (f x) (\<lambda>y. bind_result (each_result f xs) (\<lambda>ys. Inr (y # ys)))"

section \<open>What an accessor finds in what was built\<close>

named_theorems json_simps \<open>reading the members of a built value\<close>

lemma need_object [json_simps]:
  "need acc key (object members) =
     (case map_of members key of
        None \<Rightarrow> (case acc Null of None \<Rightarrow> Inl (lit (key @
          '' not found'')) | Some x \<Rightarrow> Inr x)
      | Some v \<Rightarrow> (case acc v of None \<Rightarrow> Inl (lit (key @
        '' not found'')) | Some x \<Rightarrow> Inr x))"
  "need_or name acc key (object members) =
     (case map_of members key of
        None \<Rightarrow> (case acc Null of None \<Rightarrow> Inl (lit (name @
          '' not found'')) | Some x \<Rightarrow> Inr x)
      | Some v \<Rightarrow> (case acc v of None \<Rightarrow> Inl (lit (name @
        '' not found'')) | Some x \<Rightarrow> Inr x))"
proof -
  have "map_of (map (\<lambda>(k, v). (lit k, v)) members) (lit key) = map_of members key"
    by (induction members) auto
  then show "need_or name acc key (object members) =
     (case map_of members key of
        None \<Rightarrow> (case acc Null of None \<Rightarrow> Inl (lit (name @
          '' not found'')) | Some x \<Rightarrow> Inr x)
      | Some v \<Rightarrow> (case acc v of None \<Rightarrow> Inl (lit (name @
        '' not found'')) | Some x \<Rightarrow> Inr x))"
    for name by (auto simp: need_or_def object_def split: option.split)
  then show "need acc key (object members) =
     (case map_of members key of
        None \<Rightarrow> (case acc Null of None \<Rightarrow> Inl (lit (key @
          '' not found'')) | Some x \<Rightarrow> Inr x)
      | Some v \<Rightarrow> (case acc v of None \<Rightarrow> Inl (lit (key @
        '' not found'')) | Some x \<Rightarrow> Inr x))"
    by (simp add: need_def)
qed

lemma at_key_object [json_simps]:
  "at_key (object members) (lit key) = (case map_of members key of None \<Rightarrow> Null | Some v \<Rightarrow> v)"
  using need_object(2) [of "''''" Some key members]
  by (auto simp: need_or_def split: option.splits)

lemma as_u64_num_u [json_simps]: "as_u64 (num_u x) = Some (ucast x)"
  by (simp add: num_u_def)

lemma as_f64_num_f [json_simps]: "as_f64 lib (num_f x) = (if is_finite x then Some x else None)"
  by (simp add: num_f_def)

lemma as_i64_num_i [json_simps]:
  assumes "LENGTH('w::len) \<le> 64"
  shows "as_i64 (num_i (x :: 'w word)) = Some (scast x)"
proof (cases "sint x < 0")
  case False
  have "sint x < 2 ^ (LENGTH('w) - 1)" by (rule sint_lt)
  also have "(2 :: int) ^ (LENGTH('w) - 1) \<le> 2 ^ 63" by (rule power_increasing) (use assms in auto)
  finally have s: "sint x < 2 ^ 63" .
  have "scast x \<le> (0x7FFFFFFFFFFFFFFF :: u64)"
  proof -
    have "uint (scast x :: u64) = sint x"
      unfolding scast_eq uint_word_of_int
      by (rule mod_pos_pos_trivial) (use False s in simp_all)
    then show ?thesis using s by (simp add: word_le_def)
  qed
  then show ?thesis using False by (simp add: num_i_def)
qed (simp add: num_i_def)

lemma scast_down_up: "LENGTH('w::len) \<le> 64 \<Longrightarrow> scast (scast (x :: 'w word) :: i64) = x"
  by (rule scast_up_scast_id) (simp add: is_up)

lemma each_result_map:
  "each_result f (map g xs) = each_result (\<lambda>x. f (g x)) xs"
  by (induction xs) auto

lemma each_result_ok:
  assumes "\<And>x. x \<in> set xs \<Longrightarrow> f x = Inr (g x)"
  shows "each_result f xs = Inr (map g xs)"
  using assms by (induction xs) auto

text \<open>A list whose elements fail with one error only is read completely or ends in that error.\<close>

lemma each_result_if:
  "each_result (\<lambda>x. if P x then Inr (g x) else Inl e) xs =
     (if list_all P xs then Inr (map g xs) else Inl e)"
  by (induction xs) auto

lemma each_result_length: "each_result f xs = Inr ys \<Longrightarrow> length ys = length xs"
proof (induction xs arbitrary: ys)
  case (Cons x xs)
  then show ?case by (cases "f x"; cases "each_result f xs") auto
qed simp

lemma each_result_fails:
  "x \<in> set xs \<Longrightarrow> isl (f x) \<Longrightarrow> isl (each_result f xs)"
proof (induction xs)
  case (Cons y ys)
  then show ?case by (cases "f y"; cases "each_result f ys") auto
qed simp

text \<open>A member counted by \<open>list_count\<close> is read by position.\<close>

lemma each_index:
  "each_result (\<lambda>i. f (at_index (Arr xs) i)) [0..<length xs] = each_result f xs"
proof -
  have "map (at_index (Arr xs)) [0..<length xs] = xs"
    by (rule nth_equalityI) simp_all
  then show ?thesis
    using each_result_map [of f "at_index (Arr xs)" "[0..<length xs]"] by simp
qed

end
