(* ===== verification/Api_Msg.thy ===== *)
theory Api_Msg
  imports Json Server_Data Db_Store Whois
begin

text \<open>
  The messages of \<open>src/src/http_api_msg.rs\<close>: for each, the JSON value that is generated and the
  parser that reads it back. The text form goes through the \<open>json_lib\<close>. Narrowing casts of the
  parsers are \<open>ucast\<close> and \<open>scast\<close>; the members are read in the order of the source, so the first
  one that is missing names the error.
\<close>

definition parsed :: "json_lib \<Rightarrow> (json \<Rightarrow> (ustr,
  'a) result) \<Rightarrow> ustr \<Rightarrow> (ustr, 'a) result" where
  "parsed lib f data = bind_result (jl_from_str lib data) f"

lemma parsed_back: "reads_back lib v \<Longrightarrow> parsed lib f (jl_to_string lib v) = f v"
  by (simp add: parsed_def reads_back_def)

section \<open>Log-in and passwords\<close>

record auth_user =
  au_username :: ustr
  au_password :: ustr

record token_response =
  tr_token :: ustr
  tr_expires_in :: ustr

definition api_msg_parse_auth :: "json_lib \<Rightarrow> ustr \<Rightarrow> (ustr, auth_user) result" where
  "api_msg_parse_auth lib = parsed lib (\<lambda>v.
     bind_result (need as_str ''username'' v) (\<lambda>username.
     bind_result (need as_str ''password'' v) (\<lambda>password.
     Inr \<lparr>au_username = username, au_password = password\<rparr>)))"

definition api_msg_parse_auth_password_change :: "json_lib \<Rightarrow> ustr \<Rightarrow> (ustr,
  ustr \<times> ustr) result" where
  "api_msg_parse_auth_password_change lib = parsed lib (\<lambda>v.
     bind_result (need as_str ''old_password'' v) (\<lambda>old_password.
     bind_result (need as_str ''password'' v) (\<lambda>password.
     Inr (old_password, password))))"

definition api_msg_gen_auth_password_change :: "json_lib \<Rightarrow> ustr \<Rightarrow> ustr \<Rightarrow> ustr" where
  "api_msg_gen_auth_password_change lib old_password password = jl_to_string lib (object
     [(''old_password'', Str old_password), (''password'', Str password)])"

definition api_msg_gen_auth_login :: "json_lib \<Rightarrow> auth_user \<Rightarrow> ustr" where
  "api_msg_gen_auth_login lib auth = jl_to_string lib (object
     [(''username'', Str (au_username auth)), (''password'', Str (au_password auth))])"

definition api_msg_auth_token :: "json_lib \<Rightarrow> ustr \<Rightarrow> ustr \<Rightarrow> ustr" where
  "api_msg_auth_token lib token expired = jl_to_string lib (object
     [(''token'', Str token), (''token_type'', Str (lit ''Bearer'')), (''expires_in'', Str expired)])"

definition api_msg_parse_auth_token :: "json_lib \<Rightarrow> ustr \<Rightarrow> (ustr,
  token_response) result" where
  "api_msg_parse_auth_token lib = parsed lib (\<lambda>v.
     bind_result (need as_str ''token'' v) (\<lambda>token.
     bind_result (need as_str ''expires_in'' v) (\<lambda>expired.
     Inr \<lparr>tr_token = token, tr_expires_in = expired\<rparr>)))"

section \<open>Numbers, errors, levels and versions\<close>

definition api_msg_parse_count :: "json_lib \<Rightarrow> ustr \<Rightarrow> (ustr, i64) result" where
  "api_msg_parse_count lib = parsed lib (need as_i64 ''count'')"

definition api_msg_gen_count :: "json_lib \<Rightarrow> i64 \<Rightarrow> ustr" where
  "api_msg_gen_count lib n = jl_to_string lib (object [(''count'', num_i n)])"

definition api_msg_gen_cache_number :: "json_lib \<Rightarrow> i32 \<Rightarrow> ustr" where
  "api_msg_gen_cache_number lib n = jl_to_string lib (object [(''cache_number'', num_i n)])"

definition api_msg_parse_cache_number :: "json_lib \<Rightarrow> ustr \<Rightarrow> (ustr, i32) result" where
  "api_msg_parse_cache_number lib = parsed lib (\<lambda>v.
     bind_result (need as_i64 ''cache_number'' v) (\<lambda>n. Inr (scast n)))"

definition api_msg_error :: "json_lib \<Rightarrow> ustr \<Rightarrow> ustr" where
  "api_msg_error lib msg = jl_to_string lib (object [(''error'', Str msg)])"

definition api_msg_parse_error :: "json_lib \<Rightarrow> ustr \<Rightarrow> (ustr, ustr) result" where
  "api_msg_parse_error lib = parsed lib (need as_str ''error'')"

definition api_msg_parse_loglevel ::
    "json_lib \<Rightarrow> (ustr \<Rightarrow> ustr) \<Rightarrow> ustr \<Rightarrow> (ustr,
      log_level) result" where
  "api_msg_parse_loglevel lib lower = parsed lib (\<lambda>v.
     bind_result (need_or ''loglevel'' as_str ''log_level'' v) (\<lambda>level.
     case log_level_of_text lower level of
       None \<Rightarrow> Inl (lit ''log level is invalid'')
     | Some l \<Rightarrow> Inr l))"

definition api_msg_gen_loglevel :: "json_lib \<Rightarrow> log_level \<Rightarrow> ustr" where
  "api_msg_gen_loglevel lib l = jl_to_string lib (object [(''log_level'', Str (log_level_text l))])"

definition api_msg_gen_version :: "json_lib \<Rightarrow> ustr \<Rightarrow> ustr \<Rightarrow> ustr" where
  "api_msg_gen_version lib smartdns_version ui_version = jl_to_string lib (object
     [(''smartdns'', Str smartdns_version), (''smartdns_ui'', Str ui_version)])"

definition api_msg_parse_version :: "json_lib \<Rightarrow> ustr \<Rightarrow> (ustr,
  ustr \<times> ustr) result" where
  "api_msg_parse_version lib = parsed lib (\<lambda>v.
     bind_result (need as_str ''smartdns'' v) (\<lambda>smartdns.
     bind_result (need_or ''ui'' as_str ''smartdns_ui'' v) (\<lambda>ui.
     Inr (smartdns, ui))))"

definition api_msg_gen_request_qps :: "json_lib \<Rightarrow> u32 \<Rightarrow> ustr" where
  "api_msg_gen_request_qps lib qps = jl_to_string lib (object [(''qps'', num_u qps)])"

section \<open>Domains and clients\<close>

definition api_msg_parse_json_object_domain_value ::
    "json_lib \<Rightarrow> json \<Rightarrow> (ustr, domain_data) result" where
  "api_msg_parse_json_object_domain_value lib data =
     bind_result (need as_u64 ''id'' data) (\<lambda>id.
     bind_result (need as_u64 ''timestamp'' data) (\<lambda>timestamp.
     bind_result (need as_str ''domain'' data) (\<lambda>domain.
     bind_result (need as_u64 ''domain_type'' data) (\<lambda>domain_type.
     bind_result (need as_str ''client'' data) (\<lambda>client.
     bind_result (need as_str ''domain_group'' data) (\<lambda>domain_group.
     bind_result (need as_u64 ''reply_code'' data) (\<lambda>reply_code.
     bind_result (need as_i64 ''query_time'' data) (\<lambda>query_time.
     bind_result (need (as_f64 lib) ''ping_time'' data) (\<lambda>ping_time.
     bind_result (need as_bool ''is_blocked'' data) (\<lambda>is_blocked.
     bind_result (need as_bool ''is_cached'' data) (\<lambda>is_cached.
     Inr \<lparr>dd_id = id, dd_timestamp = timestamp, dd_domain = domain,
          dd_domain_type = ucast domain_type, dd_client = client, dd_domain_group = domain_group,
          dd_reply_code = ucast reply_code, dd_query_time = scast query_time,
          dd_ping_time = ping_time, dd_is_blocked = is_blocked, dd_is_cached = is_cached\<rparr>)))))))))))"

definition api_msg_parse_domain :: "json_lib \<Rightarrow> ustr \<Rightarrow> (ustr,
  domain_data) result" where
  "api_msg_parse_domain lib = parsed lib (api_msg_parse_json_object_domain_value lib)"

definition api_msg_gen_json_object_domain :: "domain_data \<Rightarrow> json" where
  "api_msg_gen_json_object_domain d = object
     [(''id'', num_u (dd_id d)), (''timestamp'', num_u (dd_timestamp d)),
      (''domain'', Str (dd_domain d)), (''domain_type'', num_u (dd_domain_type d)),
      (''client'', Str (dd_client d)), (''domain_group'', Str (dd_domain_group d)),
      (''reply_code'', num_u (dd_reply_code d)), (''query_time'', num_i (dd_query_time d)),
      (''ping_time'', num_f (dd_ping_time d)), (''is_blocked'', Bool (dd_is_blocked d)),
      (''is_cached'', Bool (dd_is_cached d))]"

definition api_msg_gen_domain :: "json_lib \<Rightarrow> domain_data \<Rightarrow> ustr" where
  "api_msg_gen_domain lib d = jl_to_string lib (api_msg_gen_json_object_domain d)"

definition api_msg_parse_domain_list :: "json_lib \<Rightarrow> ustr \<Rightarrow> (ustr,
  domain_data list) result" where
  "api_msg_parse_domain_list lib = parsed lib (\<lambda>v.
     bind_result (need as_u64 ''list_count'' v) (\<lambda>list_count.
     each_result (\<lambda>i. api_msg_parse_json_object_domain_value lib
                         (at_index (at_key v (lit ''domain_list'')) i))
       [0..<unat list_count]))"

definition domain_list_json :: "domain_list_result \<Rightarrow> u64 \<Rightarrow> u64 \<Rightarrow> json" where
  "domain_list_json r total_page total_count = object
     [(''list_count'', num_u (of_nat (length (qd_domain_list r)) :: u64)),
      (''total_page'', num_u total_page), (''total_count'', num_u total_count),
      (''step_by_cursor'', Bool (qd_step_by_cursor r)),
      (''domain_list'', Arr (map api_msg_gen_json_object_domain (qd_domain_list r)))]"

definition api_msg_gen_domain_list :: "json_lib \<Rightarrow> domain_list_result \<Rightarrow> u64 \<Rightarrow> u64 \<Rightarrow> ustr" where
  "api_msg_gen_domain_list lib r total_page total_count =
     jl_to_string lib (domain_list_json r total_page total_count)"

definition parse_client :: "json \<Rightarrow> (ustr, client_data) result" where
  "parse_client v =
     bind_result (need as_u64 ''id'' v) (\<lambda>id.
     bind_result (need as_str ''client_ip'' v) (\<lambda>client_ip.
     bind_result (need as_str ''mac'' v) (\<lambda>mac.
     bind_result (need as_str ''hostname'' v) (\<lambda>hostname.
     bind_result (need as_u64 ''last_query_timestamp'' v) (\<lambda>last_query_timestamp.
     Inr \<lparr>cd_id = ucast id, cd_hostname = hostname, cd_client_ip = client_ip, cd_mac = mac,
          cd_last_query_timestamp = last_query_timestamp\<rparr>)))))"

definition api_msg_parse_client_list :: "json_lib \<Rightarrow> ustr \<Rightarrow> (ustr,
  client_data list) result" where
  "api_msg_parse_client_list lib = parsed lib (\<lambda>v.
     bind_result (need as_u64 ''list_count'' v) (\<lambda>list_count.
     each_result (\<lambda>i. parse_client (at_index (at_key v (lit ''client_list'')) i)) [0..<unat list_count]))"

definition api_msg_gen_json_object_client :: "client_data \<Rightarrow> json" where
  "api_msg_gen_json_object_client c = object
     [(''id'', num_u (cd_id c)), (''client_ip'', Str (cd_client_ip c)), (''mac'', Str (cd_mac c)),
      (''hostname'', Str (cd_hostname c)),
      (''last_query_timestamp'', num_u (cd_last_query_timestamp c))]"

definition client_list_json :: "client_list_result \<Rightarrow> u64 \<Rightarrow> u64 \<Rightarrow> json" where
  "client_list_json r total_page total_count = object
     [(''list_count'', num_u (of_nat (length (qc_client_list r)) :: u64)),
      (''total_page'', num_u total_page), (''total_count'', num_u total_count),
      (''step_by_cursor'', Bool (qc_step_by_cursor r)),
      (''client_list'', Arr (map api_msg_gen_json_object_client (qc_client_list r)))]"

definition api_msg_gen_client_list :: "json_lib \<Rightarrow> client_list_result \<Rightarrow> u64 \<Rightarrow> u64 \<Rightarrow> ustr" where
  "api_msg_gen_client_list lib r total_page total_count =
     jl_to_string lib (client_list_json r total_page total_count)"

section \<open>Upstream servers\<close>

definition upstream_server_json :: "upstream_server_info \<Rightarrow> json" where
  "upstream_server_json x = object
     [(''host'', Str (us_host x)), (''ip'', Str (us_ip x)), (''port'', num_u (us_port x)),
      (''server_type'', Str (dns_server_type_text (us_server_type x))),
      (''total_query_count'', num_u (us_total_query_count x)),
      (''total_query_success'', num_u (us_total_query_success x)),
      (''total_query_recv_count'', num_u (us_total_query_recv_count x)),
      (''query_success_rate'', num_f (us_query_success_rate x)),
      (''avg_time'', num_f (us_avg_time x)), (''status'', Str (us_status x)),
      (''security'', Str (us_security x))]"

definition upstream_list_json :: "upstream_server_info list \<Rightarrow> json" where
  "upstream_list_json xs = object [(''upstream_server_list'', Arr (map upstream_server_json xs))]"

definition api_msg_gen_upstream_server_list :: "json_lib \<Rightarrow> upstream_server_info list \<Rightarrow> ustr" where
  "api_msg_gen_upstream_server_list lib xs = jl_to_string lib (upstream_list_json xs)"

definition parse_upstream_server :: "json_lib \<Rightarrow> json \<Rightarrow> (ustr,
  upstream_server_info) result" where
  "parse_upstream_server lib v =
     bind_result (need as_str ''host'' v) (\<lambda>host.
     bind_result (need as_str ''ip'' v) (\<lambda>ip.
     bind_result (need as_u64 ''port'' v) (\<lambda>port.
     bind_result (need as_str ''server_type'' v) (\<lambda>server_type.
     bind_result (need as_u64 ''total_query_count'' v) (\<lambda>total_query_count.
     bind_result (need as_u64 ''total_query_success'' v) (\<lambda>total_query_success.
     bind_result (need as_u64 ''total_query_recv_count'' v) (\<lambda>total_query_recv_count.
     bind_result (need (as_f64 lib) ''query_success_rate'' v) (\<lambda>query_success_rate.
     bind_result (need (as_f64 lib) ''avg_time'' v) (\<lambda>avg_time.
     bind_result (need as_str ''status'' v) (\<lambda>status.
     bind_result (need as_str ''security'' v) (\<lambda>security.
     bind_result (dns_server_type_of_text server_type) (\<lambda>server_type.
     Inr \<lparr>us_host = host, us_ip = ip, us_port = ucast port, us_server_type = server_type,
          us_total_query_count = total_query_count, us_total_query_success = total_query_success,
          us_total_query_recv_count = total_query_recv_count,
          us_query_success_rate = query_success_rate, us_avg_time = avg_time, us_status = status,
          us_security = security\<rparr>))))))))))))"

definition api_msg_parse_upstream_server_list ::
    "json_lib \<Rightarrow> ustr \<Rightarrow> (ustr, upstream_server_info list) result" where
  "api_msg_parse_upstream_server_list lib = parsed lib (\<lambda>v.
     bind_result (need_or ''list_count'' as_array ''upstream_server_list'' v)
       (each_result (parse_upstream_server lib)))"

section \<open>Settings\<close>

text \<open>A \<open>HashMap<String, String>\<close> as a map. Members that are not strings are passed over.\<close>

definition api_msg_gen_key_value :: "json_lib \<Rightarrow> (ustr \<Rightarrow> ustr option) \<Rightarrow> ustr" where
  "api_msg_gen_key_value lib m = jl_to_string lib (Obj (\<lambda>k. map_option Str (m k)))"

definition api_msg_parse_key_value :: "json_lib \<Rightarrow> ustr \<Rightarrow> (ustr,
  ustr \<Rightarrow> ustr option) result" where
  "api_msg_parse_key_value lib = parsed lib (\<lambda>v. Inr
     (case v of
        Obj m \<Rightarrow> (\<lambda>k. Option.bind (m k) as_str)
      | _ \<Rightarrow> (\<lambda>k. None)))"

section \<open>Top lists\<close>

definition top_json :: "string \<Rightarrow> query_count \<Rightarrow> json" where
  "top_json name x = object
     [(name, Str (qt_name x)), (''query_count'', num_u (qt_count x)),
      (''timestamp_start'', num_u (qt_timestamp_start x)),
      (''timestamp_end'', num_u (qt_timestamp_end x))]"

definition parse_top :: "string \<Rightarrow> json \<Rightarrow> (ustr, query_count) result" where
  "parse_top name v =
     bind_result (need as_str name v) (\<lambda>x.
     bind_result (need as_u64 ''query_count'' v) (\<lambda>query_count.
     bind_result (need as_u64 ''timestamp_start'' v) (\<lambda>timestamp_start.
     bind_result (need as_u64 ''timestamp_end'' v) (\<lambda>timestamp_end.
     Inr \<lparr>qt_name = x, qt_count = ucast query_count, qt_timestamp_start = timestamp_start,
          qt_timestamp_end = timestamp_end\<rparr>))))"

definition api_msg_gen_top_client_list :: "json_lib \<Rightarrow> query_count list \<Rightarrow> ustr" where
  "api_msg_gen_top_client_list lib xs =
     jl_to_string lib (object [(''client_top_list'', Arr (map (top_json ''client_ip'') xs))])"

definition api_msg_parse_top_client_list :: "json_lib \<Rightarrow> ustr \<Rightarrow> (ustr,
  query_count list) result" where
  "api_msg_parse_top_client_list lib = parsed lib (\<lambda>v.
     bind_result (need_or ''list_count'' as_array ''client_top_list'' v)
       (each_result (parse_top ''client_ip'')))"

definition api_msg_gen_top_domain_list :: "json_lib \<Rightarrow> query_count list \<Rightarrow> ustr" where
  "api_msg_gen_top_domain_list lib xs =
     jl_to_string lib (object [(''domain_top_list'', Arr (map (top_json ''domain'') xs))])"

definition api_msg_parse_top_domain_list :: "json_lib \<Rightarrow> ustr \<Rightarrow> (ustr,
  query_count list) result" where
  "api_msg_parse_top_domain_list lib = parsed lib (\<lambda>v.
     bind_result (need_or ''list_count'' as_array ''domain_top_list'' v)
       (each_result (parse_top ''domain'')))"

section \<open>Metrics and overview\<close>

definition metrics_json :: "metrics_data \<Rightarrow> json" where
  "metrics_json d = object
     [(''total_query_count'', num_u (md_total_query_count d)),
      (''block_query_count'', num_u (md_block_query_count d)),
      (''request_drop_count'', num_u (md_request_drop_count d)),
      (''fail_query_count'', num_u (md_fail_query_count d)),
      (''avg_query_time'', num_f (md_avg_query_time d)),
      (''cache_hit_rate'', num_f (md_cache_hit_rate d)),
      (''cache_number'', num_u (md_cache_number d)),
      (''cache_memory_size'', num_u (md_cache_memory_size d)),
      (''qps'', num_u (md_qps d)), (''memory_usage'', num_u (md_memory_usage d)),
      (''is_metrics_suspended'', Bool (md_is_metrics_suspended d))]"

definition api_msg_gen_metrics_data :: "json_lib \<Rightarrow> metrics_data \<Rightarrow> ustr" where
  "api_msg_gen_metrics_data lib d = jl_to_string lib (metrics_json d)"

definition api_msg_parse_metrics_data :: "json_lib \<Rightarrow> ustr \<Rightarrow> (ustr,
  metrics_data) result" where
  "api_msg_parse_metrics_data lib = parsed lib (\<lambda>v.
     bind_result (need as_u64 ''total_query_count'' v) (\<lambda>total_query_count.
     bind_result (need as_u64 ''block_query_count'' v) (\<lambda>block_query_count.
     bind_result (need as_u64 ''request_drop_count'' v) (\<lambda>request_drop_count.
     bind_result (need as_u64 ''fail_query_count'' v) (\<lambda>fail_query_count.
     bind_result (need (as_f64 lib) ''avg_query_time'' v) (\<lambda>avg_query_time.
     bind_result (need (as_f64 lib) ''cache_hit_rate'' v) (\<lambda>cache_hit_rate.
     bind_result (need as_u64 ''cache_number'' v) (\<lambda>cache_number.
     bind_result (need as_u64 ''cache_memory_size'' v) (\<lambda>cache_memory_size.
     bind_result (need as_u64 ''qps'' v) (\<lambda>qps.
     bind_result (need as_u64 ''memory_usage'' v) (\<lambda>memory_usage.
     Inr \<lparr>md_total_query_count = total_query_count, md_block_query_count = block_query_count,
          md_request_drop_count = request_drop_count, md_fail_query_count = fail_query_count,
          md_avg_query_time = avg_query_time, md_cache_hit_rate = cache_hit_rate,
          md_cache_number = cache_number, md_cache_memory_size = cache_memory_size,
          md_qps = ucast qps, md_memory_usage = memory_usage,
          md_is_metrics_suspended =
            (case as_bool (at_key v (lit ''is_metrics_suspended'')) of None \<Rightarrow> False | Some b \<Rightarrow> b)\<rparr>)))))))))))"

definition api_msg_gen_stats_overview :: "json_lib \<Rightarrow> overview_data \<Rightarrow> ustr" where
  "api_msg_gen_stats_overview lib d = jl_to_string lib (object
     [(''server_name'', Str (od_server_name d)), (''database_size'', num_u (od_db_size d)),
      (''startup_timestamp'', num_u (od_startup_timestamp d)),
      (''free_disk_space'', num_u (od_free_disk_space d)),
      (''is_process_suspended'', Bool (od_is_process_suspended d))])"

definition api_msg_parse_stats_overview :: "json_lib \<Rightarrow> ustr \<Rightarrow> (ustr,
  overview_data) result" where
  "api_msg_parse_stats_overview lib = parsed lib (\<lambda>v.
     bind_result (need as_str ''server_name'' v) (\<lambda>server_name.
     bind_result (need_or ''db_size'' as_u64 ''database_size'' v) (\<lambda>db_size.
     bind_result (need as_u64 ''startup_timestamp'' v) (\<lambda>startup_timestamp.
     bind_result (need as_u64 ''free_disk_space'' v) (\<lambda>free_disk_space.
     bind_result (need as_bool ''is_process_suspended'' v) (\<lambda>is_process_suspended.
     Inr \<lparr>od_server_name = server_name, od_db_size = db_size,
          od_startup_timestamp = startup_timestamp, od_free_disk_space = free_disk_space,
          od_is_process_suspended = is_process_suspended\<rparr>))))))"

section \<open>Query counts\<close>

text \<open>The hourly and the daily message differ in the names of two members; their time stamp is
  \<open>query_timestamp\<close>.\<close>

definition count_json :: "string \<Rightarrow> count_item \<Rightarrow> json" where
  "count_json name x = object [(name, Str (ci_time x)), (''query_count'', num_u (ci_query_count x))]"

definition parse_count_item :: "string \<Rightarrow> json \<Rightarrow> (ustr, count_item) result" where
  "parse_count_item name v =
     bind_result (need as_str name v) (\<lambda>t.
     bind_result (need as_u64 ''query_count'' v) (\<lambda>query_count.
     Inr \<lparr>ci_time = t, ci_query_count = ucast query_count\<rparr>))"

definition api_msg_gen_hourly_query_count :: "json_lib \<Rightarrow> u64 \<times> count_item list \<Rightarrow> ustr" where
  "api_msg_gen_hourly_query_count lib c = jl_to_string lib (object
     [(''query_timestamp'', num_u (fst c)),
      (''hourly_query_count'', Arr (map (count_json ''hour'') (snd c)))])"

definition api_msg_parse_hourly_query_count ::
    "json_lib \<Rightarrow> ustr \<Rightarrow> (ustr, u64 \<times> count_item list) result" where
  "api_msg_parse_hourly_query_count lib = parsed lib (\<lambda>v.
     bind_result (need as_u64 ''query_timestamp'' v) (\<lambda>query_timestamp.
     bind_result (need as_array ''hourly_query_count'' v) (\<lambda>xs.
     bind_result (each_result (parse_count_item ''hour'') xs) (\<lambda>items.
     Inr (query_timestamp, items)))))"

definition api_msg_gen_daily_query_count :: "json_lib \<Rightarrow> u64 \<times> count_item list \<Rightarrow> ustr" where
  "api_msg_gen_daily_query_count lib c = jl_to_string lib (object
     [(''query_timestamp'', num_u (fst c)),
      (''daily_query_count'', Arr (map (count_json ''day'') (snd c)))])"

definition api_msg_parse_daily_query_count ::
    "json_lib \<Rightarrow> ustr \<Rightarrow> (ustr, u64 \<times> count_item list) result" where
  "api_msg_parse_daily_query_count lib = parsed lib (\<lambda>v.
     bind_result (need as_u64 ''query_timestamp'' v) (\<lambda>query_timestamp.
     bind_result (need as_array ''daily_query_count'' v) (\<lambda>xs.
     bind_result (each_result (parse_count_item ''day'') xs) (\<lambda>items.
     Inr (query_timestamp, items)))))"

section \<open>WHOIS\<close>

definition api_msg_gen_whois_info :: "json_lib \<Rightarrow> whois_info \<Rightarrow> ustr" where
  "api_msg_gen_whois_info lib d = jl_to_string lib (object
     [(''domain'', Str (wi_domain d)), (''registrar'', Str (wi_registrar d)),
      (''organization'', Str (wi_organization d)), (''address'', Str (wi_address d)),
      (''city'', Str (wi_city d)), (''country'', Str (wi_country d))])"

definition api_msg_parse_whois_info :: "json_lib \<Rightarrow> ustr \<Rightarrow> (ustr,
  whois_info) result" where
  "api_msg_parse_whois_info lib = parsed lib (\<lambda>v.
     bind_result (need as_str ''domain'' v) (\<lambda>domain.
     bind_result (need as_str ''registrar'' v) (\<lambda>registrar.
     bind_result (need as_str ''organization'' v) (\<lambda>organization.
     bind_result (need as_str ''address'' v) (\<lambda>address.
     bind_result (need as_str ''city'' v) (\<lambda>city.
     bind_result (need as_str ''country'' v) (\<lambda>country.
     Inr \<lparr>wi_domain = domain, wi_organization = organization, wi_address = address,
          wi_city = city, wi_country = country, wi_registrar = registrar,
          wi_refer = (case as_str (at_key v (lit ''refer'')) of None \<Rightarrow> [] | Some r \<Rightarrow> r)\<rparr>)))))))"


section \<open>Messages are read back\<close>

lemmas member_simps = json_simps scast_down_up ucast_up_ucast_id is_up

lemma domain_value_back:
  "api_msg_parse_json_object_domain_value lib (api_msg_gen_json_object_domain d) =
     (if is_finite (dd_ping_time d) then Inr d else Inl (lit ''ping_time not found''))"
  by (simp add: api_msg_parse_json_object_domain_value_def api_msg_gen_json_object_domain_def
      member_simps)

lemma client_back: "parse_client (api_msg_gen_json_object_client c) = Inr c"
  by (simp add: parse_client_def api_msg_gen_json_object_client_def member_simps)

lemma top_back:
  "parse_top ''client_ip'' (top_json ''client_ip'' x) = Inr x"
  "parse_top ''domain'' (top_json ''domain'' x) = Inr x"
  by (simp_all add: parse_top_def top_json_def member_simps)

lemma count_back:
  "parse_count_item ''hour'' (count_json ''hour'' x) = Inr x"
  "parse_count_item ''day'' (count_json ''day'' x) = Inr x"
  by (simp_all add: parse_count_item_def count_json_def member_simps)

lemma upstream_back:
  "parse_upstream_server lib (upstream_server_json x) =
     (if \<not> is_finite (us_query_success_rate x) then Inl (lit ''query_success_rate not found'')
      else if \<not> is_finite (us_avg_time x) then Inl (lit ''avg_time not found'')
      else if us_server_type x = SERVER_UNKNOWN then Inl (lit ''unknown'')
      else Inr x)"
  by (simp add: parse_upstream_server_def upstream_server_json_def member_simps dns_server_type_round)

lemma counted_list_back:
  assumes "length xs < 2 ^ 64" "\<And>x. x \<in> set xs \<Longrightarrow> f (g x) = h x"
  shows "each_result (\<lambda>i. f (at_index (Arr (map g xs)) i)) [0..<unat (of_nat (length xs) :: u64)] =
    each_result h xs"
proof -
  have "unat (of_nat (length xs) :: u64) = length (map g xs)"
    using assms(1) by (simp add: unat_of_nat)
  then have "each_result (\<lambda>i. f (at_index (Arr (map g xs)) i)) [0..<unat (of_nat (length xs) :: u64)]
      = each_result (\<lambda>x. f (g x)) xs"
    by (simp only: each_index each_result_map)
  also have "\<dots> = each_result h xs" using assms(2) by (induction xs) auto
  finally show ?thesis .
qed

lemma read_back_simps:
  "need as_u64 ''list_count'' (domain_list_json r p c) = Inr (of_nat (length (qd_domain_list r)))"
  "at_key (domain_list_json r p c) (lit ''domain_list'') =
     Arr (map api_msg_gen_json_object_domain (qd_domain_list r))"
  "need as_u64 ''list_count'' (client_list_json r' p c) = Inr (of_nat (length (qc_client_list r')))"
  "at_key (client_list_json r' p c) (lit ''client_list'') =
     Arr (map api_msg_gen_json_object_client (qc_client_list r'))"
  "need_or ''list_count'' as_array ''upstream_server_list'' (upstream_list_json xs) =
     Inr (map upstream_server_json xs)"
  by (simp_all add: domain_list_json_def client_list_json_def upstream_list_json_def json_simps)


lemma client_list_read_back:
  assumes "reads_back lib (client_list_json r total_page total_count)"
    and "length (qc_client_list r) < 2 ^ 64"
  shows "api_msg_parse_client_list lib (api_msg_gen_client_list lib r total_page total_count) =
    Inr (qc_client_list r)"
proof -
  have "api_msg_parse_client_list lib (api_msg_gen_client_list lib r total_page total_count) =
      each_result Inr (qc_client_list r)"
    unfolding api_msg_parse_client_list_def api_msg_gen_client_list_def parsed_back [OF assms(1)]
      read_back_simps bind_result_simps
    by (rule counted_list_back [OF assms(2)]) (rule client_back)
  also have "\<dots> = Inr (map (\<lambda>x. x) (qc_client_list r))" by (rule each_result_ok) simp
  finally show ?thesis by simp
qed

text \<open>The list of upstream servers is read back if each can be: one server of unknown kind or with
  a rate that is no finite number makes the whole list unreadable.\<close>

definition upstream_readable :: "upstream_server_info \<Rightarrow> bool" where
  "upstream_readable x \<longleftrightarrow> us_server_type x \<noteq> SERVER_UNKNOWN \<and>
     is_finite (us_query_success_rate x) \<and> is_finite (us_avg_time x)"

text \<open>The upstream list message is read back exactly when every server has a known kind and
  finite rates: one server of unknown kind makes the whole list unreadable.\<close>

theorem upstream_list_read_back:
  assumes "reads_back lib (upstream_list_json xs)"
  shows "api_msg_parse_upstream_server_list lib (api_msg_gen_upstream_server_list lib xs) = Inr ys \<longleftrightarrow>
    ys = xs \<and> list_all upstream_readable xs"
proof -
  let ?read = "\<lambda>x. parse_upstream_server lib (upstream_server_json x)"
  have "api_msg_parse_upstream_server_list lib (api_msg_gen_upstream_server_list lib xs) =
      each_result ?read xs"
    by (simp add: api_msg_parse_upstream_server_list_def api_msg_gen_upstream_server_list_def
        parsed_back [OF assms] read_back_simps each_result_map)
  moreover have "each_result ?read xs = Inr ys \<longleftrightarrow> ys = xs \<and> list_all upstream_readable xs"
  proof (cases "list_all upstream_readable xs")
    case True
    then have "each_result ?read xs = Inr (map (\<lambda>x. x) xs)"
      by (intro each_result_ok) (auto simp: upstream_back upstream_readable_def list_all_iff)
    then show ?thesis using True by auto
  next
    case False
    then obtain x where "x \<in> set xs" "\<not> upstream_readable x" by (auto simp: list_all_iff)
    then have "isl (each_result ?read xs)"
      by (intro each_result_fails) (auto simp: upstream_back upstream_readable_def)
    then show ?thesis using False by (auto simp: isl_def)
  qed
  ultimately show ?thesis by simp
qed

text \<open>The other messages.\<close>

lemma login_read_back:
  "reads_back lib (object [(''username'', Str (au_username a)), (''password'', Str (au_password a))])
   \<Longrightarrow> api_msg_parse_auth lib (api_msg_gen_auth_login lib a) = Inr a"
  by (simp add: api_msg_parse_auth_def api_msg_gen_auth_login_def parsed_back json_simps)

lemma cache_number_read_back:
  "reads_back lib (object [(''cache_number'', num_i n)]) \<Longrightarrow>
   api_msg_parse_cache_number lib (api_msg_gen_cache_number lib n) = Inr n"
  by (simp add: api_msg_parse_cache_number_def api_msg_gen_cache_number_def parsed_back member_simps)

lemma count_read_back:
  "reads_back lib (object [(''count'', num_i n)]) \<Longrightarrow>
   api_msg_parse_count lib (api_msg_gen_count lib n) = Inr n"
  by (simp add: api_msg_parse_count_def api_msg_gen_count_def parsed_back member_simps)

lemma loglevel_read_back:
  "reads_back lib (object [(''log_level'', Str (log_level_text l))]) \<Longrightarrow>
   lower (log_level_text l) = log_level_text l \<Longrightarrow>
   api_msg_parse_loglevel lib lower (api_msg_gen_loglevel lib l) = Inr l"
  by (simp add: api_msg_parse_loglevel_def api_msg_gen_loglevel_def parsed_back json_simps
      log_level_text_round)

lemma metrics_read_back:
  "reads_back lib (metrics_json d) \<Longrightarrow>
   api_msg_parse_metrics_data lib (api_msg_gen_metrics_data lib d) =
     (if \<not> is_finite (md_avg_query_time d) then Inl (lit ''avg_query_time not found'')
      else if \<not> is_finite (md_cache_hit_rate d) then Inl (lit ''cache_hit_rate not found'')
      else Inr d)"
  by (simp add: api_msg_parse_metrics_data_def api_msg_gen_metrics_data_def parsed_back
      metrics_json_def member_simps)



theorem key_values_read_back:
  assumes "reads_back lib (Obj (\<lambda>k. map_option Str (m k)))"
  shows "api_msg_parse_key_value lib (api_msg_gen_key_value lib m) = Inr m"
proof -
  have "(\<lambda>k. Option.bind (map_option Str (m k)) as_str) = m"
  proof
    fix k show "Option.bind (map_option Str (m k)) as_str = m k" by (cases "m k") simp_all
  qed
  then show ?thesis
    by (simp add: api_msg_parse_key_value_def api_msg_gen_key_value_def parsed_back [OF assms])
qed

text \<open>The referral of a WHOIS answer is not part of the message.\<close>

lemma whois_read_back:
  "reads_back lib (object
     [(''domain'', Str (wi_domain d)), (''registrar'', Str (wi_registrar d)),
      (''organization'', Str (wi_organization d)), (''address'', Str (wi_address d)),
      (''city'', Str (wi_city d)), (''country'', Str (wi_country d))]) \<Longrightarrow>
   api_msg_parse_whois_info lib (api_msg_gen_whois_info lib d) = Inr (d\<lparr>wi_refer := []\<rparr>)"
  by (simp add: api_msg_parse_whois_info_def api_msg_gen_whois_info_def parsed_back json_simps)

text \<open>A text with more counted than listed members is an error, and a result has the counted
  length.\<close>

lemma domain_list_counted:
  assumes "api_msg_parse_domain_list lib data = Inr xs" "jl_from_str lib data = Inr v"
  shows "need as_u64 ''list_count'' v = Inr (of_nat (length xs))"
proof -
  obtain n where n: "need as_u64 ''list_count'' v = Inr n"
    and e: "each_result (\<lambda>i. api_msg_parse_json_object_domain_value lib
        (at_index (at_key v (lit ''domain_list'')) i)) [0..<unat n] = Inr xs"
    using assms by (auto simp: api_msg_parse_domain_list_def parsed_def bind_result_def split: sum.splits)
  from each_result_length [OF e] show ?thesis using n by simp
qed

section \<open>Witnesses\<close>

text \<open>A library that knows one message.\<close>

definition one_text_lib :: "json \<Rightarrow> json_lib" where
  "one_text_lib v = \<lparr>jl_from_str = (\<lambda>s. if s = lit ''{}'' then Inr v else Inl (lit ''expected value'')),
     jl_to_string = (\<lambda>_. lit ''{}''), jl_float_of_int = of_int\<rparr>"

lemma one_text_lib_reads_back: "reads_back (one_text_lib v) v"
  by (simp add: reads_back_def one_text_lib_def)

definition sample_domain :: domain_data where
  "sample_domain = \<lparr>dd_id = 7, dd_timestamp = 1700000000000, dd_domain = lit ''a.b'',
    dd_domain_type = 28,
     dd_client = lit ''10.0.0.1'', dd_domain_group = lit ''default'', dd_reply_code = 3,
     dd_query_time = - 1, dd_ping_time = 0x3FF0000000000000, dd_is_blocked = False,
       dd_is_cached = True\<rparr>"


definition sample_upstream :: upstream_server_info where
  "sample_upstream = \<lparr>us_host = lit ''dns'', us_ip = lit ''1.1.1.1'', us_port = 853,
    us_server_type = SERVER_TLS,
     us_total_query_count = 1, us_total_query_success = 1, us_total_query_recv_count = 1,
     us_query_success_rate = 0x4059000000000000, us_avg_time = 0, us_status = lit ''Normal'',
     us_security = lit ''Secure''\<rparr>"

theorem upstream_list_read_back_witness:
  "\<exists>lib. api_msg_parse_upstream_server_list lib
     (api_msg_gen_upstream_server_list lib [sample_upstream]) = Inr [sample_upstream]"
proof -
  have "upstream_readable sample_upstream" by code_simp
  then show ?thesis
    using upstream_list_read_back [OF one_text_lib_reads_back, of "[sample_upstream]" "[sample_upstream]"]
    by auto
qed

theorem key_values_read_back_witness:
  "\<exists>lib text. api_msg_parse_key_value lib text = Inr [lit ''log-level'' \<mapsto> lit ''info'']"
  using key_values_read_back [OF one_text_lib_reads_back, of "[lit ''log-level'' \<mapsto> lit ''info'']"]
  by blast
end
