(* ===== verification/Conf_Lines.thy ===== *)
theory Conf_Lines
  imports Rust_Scan
begin

text \<open>
  The line reader of \<open>src/src/config_ui.rs\<close> that every configuration parser of the program is built
  on: \<open>logical_lines\<close> (comments dropped, backslash continuations merged), the key/value split of a
  line, and the option and target readers \<open>parse_named_option\<close>, \<open>split_target_value\<close>,
  \<open>split_target_options\<close> and \<open>parse_domain_set_value\<close>. The lemmas give the normal form of the
  logical lines and what the reader returns on rendered texts.
\<close>

section \<open>Logical lines\<close>

definition logical_step :: "ustr list \<times> ustr \<Rightarrow> ustr \<Rightarrow> ustr list \<times> ustr" where
  "logical_step st raw_line =
     (let (merged, current) = st;
          trimmed_end = trim_end raw_line;
          trimmed = trim trimmed_end
      in if starts_with [35] trimmed then (merged, current)
         else if ends_with [92] trimmed_end then
           (let piece = trim_end (trim_end_char 92 trimmed_end)
            in if piece \<noteq> []
               then (merged, (if current \<noteq> [] then current @ [32] else current) @ trim piece)
               else (merged, current))
         else if trimmed \<noteq> [] then
           (if current \<noteq> [] then (merged @ [trim (current @ [32] @ trimmed)], [])
            else (merged @ [trimmed], current))
         else if current \<noteq> [] then (merged @ [trim current], [])
         else (merged, current))"

definition logical_lines :: "ustr \<Rightarrow> ustr list" where
  "logical_lines text =
     (let (merged, current) = foldl logical_step ([], []) (str_lines text)
      in if current \<noteq> [] then merged @ [trim current] else merged)"

text \<open>What a logical line looks like: trimmed, non-empty, and not a comment.\<close>

definition logical_line :: "ustr \<Rightarrow> bool" where
  "logical_line l \<longleftrightarrow> trimmed l \<and> l \<noteq> [] \<and> hd l \<noteq> 35"

definition pending_ok :: "ustr \<Rightarrow> bool" where
  "pending_ok c \<longleftrightarrow> c = [] \<or> (non_ws (hd c) \<and> hd c \<noteq> 35)"

lemma trim_pending:
  assumes "pending_ok c" and "c \<noteq> []"
  shows "logical_line (trim c)"
proof -
  have h: "non_ws (hd c)" "hd c \<noteq> 35" using assms by (auto simp: pending_ok_def)
  then have ne: "trim_end c \<noteq> []" using assms(2) by (auto simp: trim_end_eq_Nil_iff)
  have "trim c = trim_end c"
    using h(1) hd_trim_end [OF ne] by (simp add: trim_def trim_start_id)
  then show ?thesis
    using ne h hd_trim_end [OF ne] trim_end_last [OF ne]
    by (simp add: logical_line_def trimmed_def)
qed

lemma pending_append: "pending_ok a \<Longrightarrow> a \<noteq> [] \<Longrightarrow> pending_ok (a @ b)"
  by (simp add: pending_ok_def)

lemma logical_line_pending: "logical_line l \<Longrightarrow> pending_ok l"
  by (auto simp: logical_line_def pending_ok_def trimmed_def)

lemma trim_prefix_hd:
  assumes "t = p @ q" and "trim p \<noteq> []"
  shows "hd (trim p) = hd (trim t)" "trim t \<noteq> []"
proof -
  have ex: "\<not> (\<forall>c \<in> set p. is_whitespace c)" using assms(2) by (simp add: trim_eq_Nil_iff)
  then have ne: "trim t \<noteq> []" using assms(1) by (auto simp: trim_eq_Nil_iff)
  have trim_hd: "hd (trim s) = hd (dropWhile is_whitespace s)" if "trim s \<noteq> []" for s
  proof -
    obtain w where w: "s = trim_end s @ w" using trim_end_prefix by blast
    have "\<not> (\<forall>c \<in> set (trim_end s). is_whitespace c)"
      using that by (auto simp: trim_def trim_start_def)
    then have "dropWhile is_whitespace s = dropWhile is_whitespace (trim_end s) @ w"
      using w by (metis dropWhile_append1)
    moreover have "dropWhile is_whitespace (trim_end s) \<noteq> []"
      using that by (simp add: trim_def trim_start_def)
    ultimately show ?thesis by (simp add: trim_def trim_start_def)
  qed
  have "dropWhile is_whitespace t = dropWhile is_whitespace p @ q"
    using ex assms(1) by (metis dropWhile_append1)
  moreover have "dropWhile is_whitespace p \<noteq> []" using ex by auto
  ultimately show "hd (trim p) = hd (trim t)" using trim_hd assms(2) ne by simp
  show "trim t \<noteq> []" by (rule ne)
qed

lemma logical_step_inv:
  assumes "\<forall>l \<in> set m. logical_line l" and "pending_ok c"
    and "logical_step (m, c) raw = (m', c')"
  shows "(\<forall>l \<in> set m'. logical_line l) \<and> pending_ok c'"
proof -
  define te where "te = trim_end raw"
  define t where "t = trim te"
  have t: "starts_with [35] t \<or> t = [] \<or> logical_line t"
    using trimmed_trim [of te] unfolding t_def [symmetric] by (cases t) (auto simp: logical_line_def)
  show ?thesis
  proof (cases "starts_with [35] t")
    case True
    then show ?thesis using assms by (auto simp: logical_step_def te_def t_def)
  next
    case no_comment: False
    show ?thesis
    proof (cases "ends_with [92] te")
      case True
      define piece where "piece = trim_end (trim_end_char 92 te)"
      show ?thesis
      proof (cases "piece = []")
        case True
        then show ?thesis using assms no_comment \<open>ends_with [92] te\<close>
          by (auto simp: logical_step_def te_def t_def piece_def Let_def)
      next
        case False
        have c': "m' = m" "c' = (if c \<noteq> [] then c @ [32] else c) @ trim piece"
          using assms(3) no_comment \<open>ends_with [92] te\<close> False
          by (auto simp: logical_step_def te_def t_def piece_def Let_def)
        obtain q where q: "te = trim_end_char 92 te @ q" using trim_end_char_prefix by blast
        have np: "trim (trim_end_char 92 te) \<noteq> []"
          using False by (auto simp: piece_def trim_eq_Nil_iff trim_end_eq_Nil_iff)
        have "hd (trim piece) = hd t" "t \<noteq> []" "trim piece \<noteq> []"
          using trim_prefix_hd [OF q np] np by (simp_all add: piece_def t_def)
        then have "logical_line (trim piece)"
          using no_comment by (cases t) (auto simp: logical_line_def)
        then show ?thesis using c' assms(1,2) logical_line_pending pending_append
          by (auto simp: pending_ok_def)
      qed
    next
      case False
      have "logical_line (trim (c @ [32] @ t))" if "c \<noteq> []"
        using that assms(2) pending_append [of c "[32] @ t"] trim_pending [of "c @ [32] @ t"] by simp
      then show ?thesis
        using assms t no_comment False trim_pending [of c]
        by (auto simp: logical_step_def te_def [symmetric] t_def [symmetric] Let_def pending_ok_def
            split: if_splits)
    qed
  qed
qed

lemma logical_fold_inv:
  "\<forall>l \<in> set m. logical_line l \<Longrightarrow> pending_ok c \<Longrightarrow> foldl logical_step (m, c) ls = (m', c') \<Longrightarrow>
     (\<forall>l \<in> set m'. logical_line l) \<and> pending_ok c'"
proof (induction ls arbitrary: m c)
  case (Cons l ls)
  obtain m1 c1 where s: "logical_step (m, c) l = (m1, c1)" by (cases "logical_step (m, c) l")
  have "(\<forall>l \<in> set m1. logical_line l) \<and> pending_ok c1"
    by (rule logical_step_inv [OF Cons.prems(1,2) s])
  moreover have "foldl logical_step (m1, c1) ls = (m', c')" using Cons.prems(3) s by simp
  ultimately show ?case by (intro Cons.IH [of m1 c1]) auto
qed auto

lemma logical_lines_normal: "l \<in> set (logical_lines text) \<Longrightarrow> logical_line l"
proof -
  assume l: "l \<in> set (logical_lines text)"
  obtain m c where f: "foldl logical_step ([], []) (str_lines text) = (m, c)" by fastforce
  have "(\<forall>l \<in> set m. logical_line l) \<and> pending_ok c"
    by (rule logical_fold_inv [OF _ _ f]) (auto simp: pending_ok_def)
  then show ?thesis using l f trim_pending by (auto simp: logical_lines_def split: if_splits)
qed

section \<open>Texts without continuations\<close>

definition significant :: "ustr \<Rightarrow> bool" where
  "significant l \<longleftrightarrow> trim l \<noteq> [] \<and> hd (trim l) \<noteq> 35"

definition plain_line :: "ustr \<Rightarrow> bool" where
  "plain_line l \<longleftrightarrow> no_nl l \<and> (significant l \<longrightarrow> last (trim l) \<noteq> 92)"

lemma last_trim: "trim l \<noteq> [] \<Longrightarrow> last (trim l) = last (trim_end l)"
  by (simp add: trim_def trim_start_last)

lemma logical_step_plain:
  assumes "plain_line l"
  shows "logical_step (m, []) l = (if significant l then (m @ [trim l], []) else (m, []))"
proof (cases "significant l")
  case True
  then have "trim l \<noteq> []" "hd (trim l) \<noteq> 35" "last (trim l) \<noteq> 92"
    using assms by (auto simp: plain_line_def significant_def)
  moreover from this have "\<not> ends_with [92] (trim_end l)"
    using last_trim [of l] by (simp add: ends_with_single)
  moreover have "\<not> starts_with [35] (trim l)"
    using calculation by (cases "trim l") auto
  ultimately show ?thesis using True by (simp add: logical_step_def Let_def)
next
  case False
  then consider "trim l = []" | "starts_with [35] (trim l)"
    by (cases "trim l") (auto simp: significant_def)
  then show ?thesis
  proof cases
    case 1
    then have "trim_end l = []" by (simp add: trim_end_eq_Nil_iff trim_eq_Nil_iff)
    then show ?thesis using False 1 by (simp add: logical_step_def Let_def ends_with_single)
  next
    case 2
    then show ?thesis using False by (simp add: logical_step_def Let_def)
  qed
qed

lemma logical_fold_plain:
  "(\<And>l. l \<in> set ls \<Longrightarrow> plain_line l) \<Longrightarrow>
     foldl logical_step (m, []) ls = (m @ map trim (filter significant ls), [])"
  by (induction ls arbitrary: m) (auto simp: logical_step_plain)

lemma significant_strip_cr [simp]: "significant (strip_cr l) = significant l"
  by (simp add: significant_def)

lemma no_nl_strip_cr: "no_nl l \<Longrightarrow> no_nl (strip_cr l)"
  by (auto simp: no_nl_def strip_cr_def dest: in_set_butlastD)

lemma plain_strip_cr: "plain_line l \<Longrightarrow> plain_line (strip_cr l)"
  by (simp add: plain_line_def no_nl_strip_cr)

lemma str_lines_join:
  assumes "\<And>l. l \<in> set ls \<Longrightarrow> no_nl l"
  shows "\<exists>ks. str_lines (join [10] ls) = ks \<and>
     (\<forall>k \<in> set ks. \<exists>l \<in> set ls. k = l \<or> k = strip_cr l) \<and>
     map trim (filter significant ks) = map trim (filter significant ls)"
  using assms
proof (induction ls rule: induct_list012)
  case (2 l)
  then show ?case by (cases "l = []") (auto simp: str_lines_last significant_def)
next
  case (3 l l2 ls)
  have nl: "no_nl l" using 3 by auto
  obtain ks where ks: "str_lines (join [10] (l2 # ls)) = ks"
    "\<forall>k \<in> set ks. \<exists>l \<in> set (l2 # ls). k = l \<or> k = strip_cr l"
    "map trim (filter significant ks) = map trim (filter significant (l2 # ls))"
    using 3 by auto
  have "str_lines (join [10] (l # l2 # ls)) = strip_cr l # ks"
    using str_lines_Cons [OF nl] ks(1) by simp
  then show ?case using ks by auto
qed simp

lemma plain_lines_join:
  assumes "\<And>l. l \<in> set ls \<Longrightarrow> plain_line l"
  shows "logical_lines (join [10] ls) = map trim (filter significant ls)"
proof -
  obtain ks where ks: "str_lines (join [10] ls) = ks"
    "\<forall>k \<in> set ks. \<exists>l \<in> set ls. k = l \<or> k = strip_cr l"
    "map trim (filter significant ks) = map trim (filter significant ls)"
    using str_lines_join [of ls] assms by (auto simp: plain_line_def)
  have "plain_line k" if "k \<in> set ks" for k
    using that ks(2) assms plain_strip_cr by blast
  then have "foldl logical_step ([], []) ks = ([] @ map trim (filter significant ks), [])"
    by (rule logical_fold_plain)
  then show ?thesis using ks by (simp add: logical_lines_def)
qed

lemma plain_Nil [line_intros]: "plain_line []"
  by (simp add: plain_line_def significant_def)

lemma not_significant_Nil [simp]: "\<not> significant []"
  by (simp add: significant_def)

lemma hd_trim_non_ws: "s \<noteq> [] \<Longrightarrow> non_ws (hd s) \<Longrightarrow> trim s \<noteq> [] \<and> hd (trim s) = hd s"
proof -
  assume "s \<noteq> []" "non_ws (hd s)"
  then have "trim_end s \<noteq> []" by (auto simp: trim_end_eq_Nil_iff)
  then show ?thesis using hd_trim_end \<open>non_ws (hd s)\<close> by (simp add: trim_def trim_start_id)
qed

lemma comment_not_significant [simp]: "\<not> significant (35 # s)"
  using hd_trim_non_ws [of "35 # s"] by (simp add: significant_def)

lemma comment_plain [line_intros]: "no_nl s \<Longrightarrow> plain_line (35 # s)"
  by (simp add: plain_line_def)

section \<open>Keys and values\<close>

text \<open>The head of every parsing loop: trim the line, split it at the first white space, trim key
  and value.\<close>

definition key_value :: "ustr \<Rightarrow> ustr \<times> ustr" where
  "key_value line =
     (let (key, rest) = split_first_ws (trim line)
      in (trim key, trim (case rest of None \<Rightarrow> [] | Some r \<Rightarrow> r)))"

definition config_entries :: "ustr \<Rightarrow> (ustr \<times> ustr) list" where
  "config_entries text =
     map key_value
       (filter (\<lambda>line. \<not> (trim line = [] \<or> starts_with [35] (trim line))) (logical_lines text))"

lemma config_entries_logical: "config_entries text = map key_value (logical_lines text)"
proof -
  have "\<not> (trim l = [] \<or> starts_with [35] (trim l))" if "l \<in> set (logical_lines text)" for l
    using logical_lines_normal [OF that]
    by (cases l) (auto simp: logical_line_def trimmed_trim_id)
  then show ?thesis by (simp add: config_entries_def cong: filter_cong)
qed

lemma key_value_word: "word k \<Longrightarrow> key_value k = (k, [])"
  by (simp add: key_value_def split_first_ws_word)

lemma key_value_pair:
  assumes "word k"
  shows "key_value (k @ 32 # v) = (k, trim v)"
proof -
  have k: "k \<noteq> []" "non_ws (hd k)" using assms by (auto simp: word_def)
  show ?thesis
  proof (cases "trim v = []")
    case True
    then have "\<And>c. c \<in> set (rev v @ [32]) \<Longrightarrow> is_whitespace c" by (auto simp: trim_eq_Nil_iff)
    then have "dropWhile is_whitespace ((rev v @ [32]) @ rev k) = dropWhile is_whitespace (rev k)"
      by (rule dropWhile_append2)
    then have "trim_end (k @ 32 # v) = trim_end k"
      by (simp add: trim_end_def)
    also have "\<dots> = k" using word_trimmed [OF assms] by (rule trimmed_trim_end_id)
    finally have "trim (k @ 32 # v) = k" using k by (simp add: trim_def trim_start_id)
    then show ?thesis using True assms by (simp add: key_value_def split_first_ws_word)
  next
    case False
    then have ne: "\<not> (\<forall>c \<in> set (rev v). is_whitespace c)" by (simp add: trim_eq_Nil_iff)
    then have "trim_end (k @ 32 # v) = k @ 32 # trim_end v"
      by (auto simp: trim_end_def dropWhile_append)
    then have "trim (k @ 32 # v) = k @ 32 # trim_end v" using k by (simp add: trim_def trim_start_id)
    then show ?thesis using assms by (simp add: key_value_def split_first_ws_append)
  qed
qed

lemma config_entries_plain:
  assumes "\<And>l. l \<in> set ls \<Longrightarrow> plain_line l"
  shows "config_entries (join [10] ls) = map key_value (filter significant ls)"
  using plain_lines_join [OF assms] by (simp add: config_entries_logical key_value_def)

section \<open>Options and targets\<close>

fun named_option :: "ustr list \<Rightarrow> ustr \<Rightarrow> ustr option" where
  "named_option [] name = None"
| "named_option (t # ts) name =
     (if t = name then (case ts of [] \<Rightarrow> None | v # _ \<Rightarrow> Some v) else named_option ts name)"

definition parse_named_option :: "ustr \<Rightarrow> ustr \<Rightarrow> ustr option" where
  "parse_named_option value name = named_option (split_whitespace value) name"

text \<open>\<open>value.split_whitespace().next().unwrap_or("").trim()\<close>\<close>

definition first_word :: "ustr \<Rightarrow> ustr" where
  "first_word value = trim (case split_whitespace value of [] \<Rightarrow> [] | w # _ \<Rightarrow> w)"

definition split_target_options :: "ustr \<Rightarrow> ustr \<times> ustr" where
  "split_target_options value =
     (let t = trim value;
          fallback =
            (let (first, second) = split_first_ws t
             in (trim first, trim (case second of None \<Rightarrow> [] | Some r \<Rightarrow> r)))
      in case strip_prefix [47] t of
           None \<Rightarrow> fallback
         | Some rest \<Rightarrow>
             (case str_find [47, 32] rest of
                None \<Rightarrow> fallback
              | Some pos \<Rightarrow> (47 # take pos rest, trim (drop (pos + 2) rest))))"

definition split_target_value :: "ustr \<Rightarrow> ustr \<times> ustr" where
  "split_target_value value =
     (case strip_prefix [47] (trim value) of
        None \<Rightarrow> split_target_options value
      | Some rest \<Rightarrow>
          (case rsplit_char 47 rest of
             None \<Rightarrow> split_target_options value
           | Some (before, after) \<Rightarrow> (47 # before, trim after)))"

definition domain_set_token :: "ustr \<times> ustr \<Rightarrow> ustr \<Rightarrow> ustr \<times> ustr" where
  "domain_set_token st token =
     (let (set_type, file) = st
      in if token = lit ''type='' then (set_type, file)
         else if starts_with (lit ''type='') token then
           (trim_start_str (lit ''type='') token, file)
         else if starts_with (lit ''file='') token then
           (set_type, trim_start_str (lit ''file='') token)
         else (set_type, file))"

definition parse_domain_set_value :: "ustr \<Rightarrow> ustr \<times> ustr" where
  "parse_domain_set_value value =
     foldl domain_set_token (lit ''list'', []) (split_whitespace value)"

lemma first_word_word: "first_word value = [] \<or> word (first_word value)"
proof (cases "split_whitespace value")
  case (Cons w ws)
  then have "w \<in> set (split_whitespace value)" by simp
  then have "word w" by (rule split_whitespace_words)
  then show ?thesis using Cons by (simp add: first_word_def)
qed (simp add: first_word_def)

lemma named_option_word: "named_option (split_whitespace v) n = Some w \<Longrightarrow> word w"
proof -
  have "named_option ts n = Some w \<Longrightarrow> w \<in> set ts" for ts
    by (induction ts) (auto split: if_splits list.splits)
  then show "named_option (split_whitespace v) n = Some w \<Longrightarrow> word w"
    using split_whitespace_words by blast
qed

section \<open>Texts as sequences of significant lines\<close>

text \<open>
  On a text without continuation lines the logical lines are the trimmed significant lines. This
  view is stable under trimming the text and splits at every line break, so rendered pages can be
  joined, trimmed and read back section by section.
\<close>

definition norm_lines :: "ustr \<Rightarrow> ustr list" where
  "norm_lines s = map trim (filter significant (str_lines s))"

definition plain_text :: "ustr \<Rightarrow> bool" where
  "plain_text s \<longleftrightarrow> (\<forall>t \<in> set (norm_lines s). last t \<noteq> 92)"

lemma logical_lines_plain: "plain_text s \<Longrightarrow> logical_lines s = norm_lines s"
proof -
  assume "plain_text s"
  then have "plain_line l" if "l \<in> set (str_lines s)" for l
    using that str_lines_no_nl [OF that] by (auto simp: plain_text_def norm_lines_def plain_line_def)
  then have "foldl logical_step ([], []) (str_lines s) = ([] @ map trim (filter significant (str_lines s)), [])"
    by (rule logical_fold_plain)
  then show ?thesis by (simp add: logical_lines_def norm_lines_def)
qed

lemma norm_lines_Nil [simp]: "norm_lines [] = []"
  by (simp add: norm_lines_def)

lemma norm_lines_no_nl: "no_nl l \<Longrightarrow> norm_lines l = (if significant l then [trim l] else [])"
  by (cases "l = []") (auto simp: norm_lines_def str_lines_last)

lemma norm_lines_line:
  "no_nl l \<Longrightarrow> norm_lines (l @ 10 # r) = (if significant l then [trim l] else []) @ norm_lines r"
  by (simp add: norm_lines_def str_lines_Cons)

lemma first_line_cases:
  obtains "no_nl s" | l r where "s = l @ 10 # r" "no_nl l"
  using split_list_first [of "10::uchar" s] by (auto simp: no_nl_def)

lemma norm_lines_append: "norm_lines (a @ 10 # b) = norm_lines a @ norm_lines b"
proof (induction "length a" arbitrary: a rule: less_induct)
  case less
  show ?case
  proof (rule first_line_cases [of a])
    assume "no_nl a"
    then show ?thesis by (simp add: norm_lines_line norm_lines_no_nl)
  next
    fix l r assume a: "a = l @ 10 # r" and l: "no_nl l"
    have "norm_lines (r @ 10 # b) = norm_lines r @ norm_lines b"
      by (rule less) (simp add: a)
    then show ?thesis using l by (simp add: a norm_lines_line)
  qed
qed

lemma significant_Cons_ws: "is_whitespace c \<Longrightarrow> significant (c # l) = significant l"
  by (simp add: significant_def trim_Cons_ws)

lemma norm_lines_Cons_ws: "is_whitespace c \<Longrightarrow> norm_lines (c # s) = norm_lines s"
proof (cases "c = 10")
  case True
  then show ?thesis using norm_lines_append [of "[]" s] by simp
next
  case False
  assume c: "is_whitespace c"
  show ?thesis
  proof (rule first_line_cases [of s])
    assume "no_nl s"
    then show ?thesis using False c
      by (simp add: norm_lines_no_nl significant_Cons_ws trim_Cons_ws)
  next
    fix l r assume "s = l @ 10 # r" and l: "no_nl l"
    then show ?thesis using False c norm_lines_line [of "c # l" r] norm_lines_line [OF l, of r]
      by (simp add: significant_Cons_ws trim_Cons_ws)
  qed
qed

lemma norm_lines_snoc_ws:
  assumes c: "is_whitespace c"
  shows "norm_lines (s @ [c]) = norm_lines s"
proof (cases "c = 10")
  case True
  then show ?thesis using norm_lines_append [of s "[]"] by simp
next
  case False
  show ?thesis
  proof (induction "length s" arbitrary: s rule: less_induct)
    case less
    show ?case
    proof (rule first_line_cases [of s])
      assume "no_nl s"
      then show ?thesis using False c
        by (simp add: norm_lines_no_nl significant_def trim_snoc_ws)
    next
      fix l r assume s: "s = l @ 10 # r" and "no_nl l"
      have "norm_lines (r @ [c]) = norm_lines r" by (rule less) (simp add: s)
      then show ?thesis using norm_lines_append [of l "r @ [c]"] by (simp add: s norm_lines_append)
    qed
  qed
qed

lemma norm_lines_prepend_ws:
  "(\<And>c. c \<in> set p \<Longrightarrow> is_whitespace c) \<Longrightarrow> norm_lines (p @ s) = norm_lines s"
  by (induction p) (simp_all add: norm_lines_Cons_ws)

lemma norm_lines_append_ws:
  "(\<And>c. c \<in> set p \<Longrightarrow> is_whitespace c) \<Longrightarrow> norm_lines (s @ p) = norm_lines s"
proof (induction p arbitrary: s)
  case (Cons c p)
  then show ?case using Cons.IH [of "s @ [c]"] by (simp add: norm_lines_snoc_ws)
qed simp

lemma norm_lines_trim_end [simp]: "norm_lines (trim_end s) = norm_lines s"
  using trim_end_prefix [of s] norm_lines_append_ws by metis

lemma norm_lines_trim [simp]: "norm_lines (trim s) = norm_lines s"
proof -
  obtain p where "trim_end s = p @ trim s" "\<forall>c \<in> set p. is_whitespace c"
    using trim_start_suffix [of "trim_end s"] by (auto simp: trim_def)
  then show ?thesis using norm_lines_prepend_ws [of p "trim s"] by (metis norm_lines_trim_end)
qed

lemma plain_text_append [simp]:
  "plain_text (a @ 10 # b) \<longleftrightarrow> plain_text a \<and> plain_text b"
  by (auto simp: plain_text_def norm_lines_append)

lemma plain_text_trim [simp]: "plain_text (trim s) = plain_text s"
  by (simp add: plain_text_def)

lemma plain_text_Nil [simp]: "plain_text []"
  by (simp add: plain_text_def)

lemma norm_lines_join:
  assumes "\<And>l. l \<in> set ls \<Longrightarrow> no_nl l"
  shows "norm_lines (join [10] ls) = map trim (filter significant ls)"
  using str_lines_join [OF assms] by (auto simp: norm_lines_def)

lemma plain_text_join:
  assumes "\<And>l. l \<in> set ls \<Longrightarrow> plain_line l"
  shows "plain_text (join [10] ls)"
proof -
  have "norm_lines (join [10] ls) = map trim (filter significant ls)"
    by (rule norm_lines_join) (use assms in \<open>auto simp: plain_line_def\<close>)
  then show ?thesis using assms by (auto simp: plain_text_def plain_line_def)
qed

lemma config_entries_text: "plain_text s \<Longrightarrow> config_entries s = map key_value (norm_lines s)"
  by (simp add: config_entries_logical logical_lines_plain)

lemma config_entries_append:
  "plain_text a \<Longrightarrow> plain_text b \<Longrightarrow> config_entries (a @ 10 # b) = config_entries a @ config_entries b"
  by (simp add: config_entries_text norm_lines_append)

text \<open>\<open>join_nonempty_sections\<close>\<close>

definition join_nonempty_sections :: "ustr list \<Rightarrow> ustr" where
  "join_nonempty_sections parts = join [10, 10] (filter (\<lambda>t. t \<noteq> []) (map trim parts))"

lemma norm_lines_join2: "norm_lines (join [10, 10] ts) = concat (map norm_lines ts)"
proof (induction ts rule: induct_list012)
  case (3 t t2 ts)
  then show ?case using norm_lines_append [of t "10 # join [10, 10] (t2 # ts)"]
    by (simp add: norm_lines_Cons_ws)
qed simp_all

lemma norm_lines_sections: "norm_lines (join_nonempty_sections ts) = concat (map norm_lines ts)"
proof -
  have "concat (map norm_lines (filter (\<lambda>t. t \<noteq> []) (map trim ts))) = concat (map norm_lines ts)"
    by (induction ts) (auto, metis norm_lines_Nil norm_lines_trim)
  then show ?thesis by (simp add: join_nonempty_sections_def norm_lines_join2)
qed

lemma plain_text_sections: "(\<And>t. t \<in> set ts \<Longrightarrow> plain_text t) \<Longrightarrow> plain_text (join_nonempty_sections ts)"
  by (fastforce simp: plain_text_def norm_lines_sections)

lemma config_entries_sections:
  assumes "\<And>t. t \<in> set ts \<Longrightarrow> plain_text t"
  shows "config_entries (join_nonempty_sections ts) = concat (map config_entries ts)"
proof -
  have "config_entries (join_nonempty_sections ts) = map key_value (concat (map norm_lines ts))"
    using config_entries_text [OF plain_text_sections [OF assms]] by (simp add: norm_lines_sections)
  also have "\<dots> = concat (map (\<lambda>t. map key_value (norm_lines t)) ts)"
    by (induction ts) simp_all
  also have "\<dots> = concat (map config_entries ts)"
    using assms by (auto simp: config_entries_text intro!: arg_cong [where f = concat])
  finally show ?thesis .
qed

section \<open>Pages\<close>

text \<open>\<open>page_entries ls es\<close>: the lines \<open>ls\<close> of a rendered page are read back as the entries \<open>es\<close>.\<close>

definition page_entries :: "ustr list \<Rightarrow> (ustr \<times> ustr) list \<Rightarrow> bool" where
  "page_entries ls es \<longleftrightarrow>
     (\<forall>l \<in> set ls. plain_line l) \<and> map key_value (filter significant ls) = es"

definition key_ok :: "ustr \<Rightarrow> bool" where
  "key_ok k \<longleftrightarrow> word k \<and> hd k \<noteq> 35 \<and> last k \<noteq> 92"

text \<open>A value that fits on a line: no line break, no trailing continuation mark.\<close>

definition clean_value :: "ustr \<Rightarrow> bool" where
  "clean_value v \<longleftrightarrow> no_nl v \<and> (trim v \<noteq> [] \<longrightarrow> last (trim v) \<noteq> 92)"

lemma page_entries_read:
  "page_entries ls es \<Longrightarrow> config_entries (join [10] ls) = es \<and> plain_text (join [10] ls)"
  using config_entries_plain [of ls] plain_text_join [of ls] by (auto simp: page_entries_def)

lemma page_Nil [line_intros]: "page_entries [] []"
  by (simp add: page_entries_def)

lemma page_append [line_intros]:
  "page_entries a x \<Longrightarrow> page_entries b y \<Longrightarrow> page_entries (a @ b) (x @ y)"
  by (auto simp: page_entries_def)

lemma page_comment: "no_nl s \<Longrightarrow> page_entries [35 # s] []"
  by (simp add: page_entries_def comment_plain)

lemma page_blank [line_intros]: "page_entries [[]] []"
  by (simp add: page_entries_def plain_Nil)

lemma page_concat:
  "(\<And>x. x \<in> set xs \<Longrightarrow> page_entries (f x) (g x)) \<Longrightarrow>
     page_entries (concat (map f xs)) (concat (map g xs))"
  by (induction xs) (auto intro: line_intros)

lemma trim_key_value_line:
  assumes "word k"
  shows "trim (k @ 32 # v) = (if trim v = [] then k else k @ 32 # trim_end v)"
proof (cases "trim v = []")
  case True
  then have "\<And>c. c \<in> set (rev v @ [32]) \<Longrightarrow> is_whitespace c" by (auto simp: trim_eq_Nil_iff)
  then have "dropWhile is_whitespace ((rev v @ [32]) @ rev k) = dropWhile is_whitespace (rev k)"
    by (rule dropWhile_append2)
  then have "trim_end (k @ 32 # v) = trim_end k" by (simp add: trim_end_def)
  then show ?thesis using True assms trimmed_trim_id [OF word_trimmed [OF assms]]
    by (simp add: trim_def)
next
  case False
  then have "\<not> (\<forall>c \<in> set (rev v). is_whitespace c)" by (simp add: trim_eq_Nil_iff)
  then have "trim_end (k @ 32 # v) = k @ 32 # trim_end v"
    by (auto simp: trim_end_def dropWhile_append)
  then show ?thesis using assms False by (simp add: trim_def trim_start_id word_def)
qed

lemma page_kv:
  assumes k: "key_ok k" and v: "clean_value v"
  shows "page_entries [k @ [32] @ v] [(k, trim v)]"
proof -
  have kw: "word k" "k \<noteq> []" "hd k \<noteq> 35" "last k \<noteq> 92" using k by (auto simp: key_ok_def word_def)
  have ne: "trim v \<noteq> [] \<Longrightarrow> trim_end v \<noteq> []" by (auto simp: trim_def)
  have "significant (k @ [32] @ v)"
    using kw by (simp add: significant_def trim_key_value_line)
  moreover have "plain_line (k @ [32] @ v)"
    using kw v ne last_trim [of v]
    by (auto simp: plain_line_def trim_key_value_line no_nl_word clean_value_def)
  ultimately show ?thesis by (simp add: page_entries_def key_value_pair [OF kw(1)])
qed

lemma clean_trim: "clean_value v \<Longrightarrow> clean_value (trim v)"
  by (auto simp: clean_value_def no_nl_trim)

lemma clean_word: "word w \<Longrightarrow> last w \<noteq> 92 \<Longrightarrow> clean_value w"
  by (simp add: clean_value_def no_nl_word)

end
