(* ===== verification/Managed_Block.thy ===== *)
theory Managed_Block
  imports Conf_Lines
begin

text \<open>
  Paths and the managed block of the main configuration file (\<open>src/src/config_ui.rs\<close>):
  \<open>Path::parent\<close>, \<open>file_name\<close> and \<open>join\<close> on Unix path strings,
    \<open>path_join\<close>, \<open>managed_conf_dir\<close>,
  \<open>ensure_managed_block\<close>, which replaces the block between the two marker comments or appends it,
  and \<open>render_effective_config_preview\<close>, which splices the managed pages in its place. The lemmas
  show when the block is stable under repetition and that the text outside of it is kept.
\<close>

section \<open>Paths\<close>

text \<open>The components of a path that \<open>Path::components\<close> skips: empty ones and \<open>.\<close>, the latter not
  at the start of a relative path.\<close>

definition skip_components :: "ustr list \<Rightarrow> ustr list" where
  "skip_components parts = rev (dropWhile (\<lambda>c. c = [] \<or> c = [46]) (rev parts))"

definition relative_skip :: "ustr list \<Rightarrow> ustr list" where
  "relative_skip parts =
     (case parts of
        [] \<Rightarrow> []
      | c # cs \<Rightarrow> if skip_components cs = [] \<and> c = [] then [] else c # skip_components cs)"

definition path_parent :: "ustr \<Rightarrow> ustr option" where
  "path_parent p =
     (if starts_with [47] p
      then (let parts = skip_components (split_char 47 (drop 1 p))
            in if parts = [] then None
               else Some (47 # join [47] (skip_components (butlast parts))))
      else (let parts = relative_skip (split_char 47 p)
            in if parts = [] then None
               else Some (join [47] (relative_skip (butlast parts)))))"

definition path_file_name :: "ustr \<Rightarrow> ustr option" where
  "path_file_name p =
     (let parts = (if starts_with [47] p then skip_components (split_char 47 (drop 1 p))
                   else relative_skip (split_char 47 p))
      in if parts = [] \<or> last parts = [46] \<or> last parts = [46, 46] then None else Some (last parts))"

definition path_is_absolute :: "ustr \<Rightarrow> bool" where
  "path_is_absolute p = starts_with [47] p"

definition path_push :: "ustr \<Rightarrow> ustr \<Rightarrow> ustr" where
  "path_push dir p =
     (if path_is_absolute p then p
      else if dir = [] \<or> ends_with [47] dir then dir @ p
      else dir @ [47] @ p)"

definition path_join :: "ustr \<Rightarrow> ustr \<Rightarrow> ustr" where
  "path_join dir file_name = path_push dir file_name"

definition managed_conf_dir :: "ustr \<Rightarrow> ustr" where
  "managed_conf_dir rules_dir =
     (let parent = (case path_parent rules_dir of None \<Rightarrow> rules_dir | Some p \<Rightarrow> p)
      in path_push parent (lit ''conf.d''))"

definition service_file_name :: ustr where "service_file_name = lit ''10-basic.conf''"
definition upstreams_file_name :: ustr where "upstreams_file_name = lit ''20-upstreams.conf''"
definition performance_file_name :: ustr where "performance_file_name = lit ''30-cache.conf''"
definition routing_file_name :: ustr where "routing_file_name = lit ''40-nameserver.conf''"
definition rules_file_name :: ustr where "rules_file_name = lit ''50-rules.conf''"
definition sets_file_name :: ustr where "sets_file_name = lit ''60-sets.conf''"
definition logging_file_name :: ustr where "logging_file_name = lit ''70-logging.conf''"
definition network_file_name :: ustr where "network_file_name = lit ''80-network.conf''"

definition managed_file_names :: "ustr list" where
  "managed_file_names =
     [service_file_name, upstreams_file_name, performance_file_name, sets_file_name,
      routing_file_name, rules_file_name, logging_file_name, network_file_name]"

lemmas file_name_defs = service_file_name_def upstreams_file_name_def performance_file_name_def
  routing_file_name_def rules_file_name_def sets_file_name_def logging_file_name_def
  network_file_name_def

section \<open>The managed block\<close>

definition managed_begin :: ustr where "managed_begin = lit ''# BEGIN smartdns-plus-ui managed''"
definition managed_end :: ustr where "managed_end = lit ''# END smartdns-plus-ui managed''"

definition managed_block :: "ustr \<Rightarrow> ustr" where
  "managed_block rules_dir =
     join [10] ([managed_begin] @
       map (\<lambda>name. lit ''conf-file '' @ path_join (managed_conf_dir rules_dir) name) managed_file_names @
       [managed_end])"

text \<open>\<open>after.trim_start_matches(|c| c == '\r' || c == '\n')\<close>\<close>

definition trim_newlines :: "ustr \<Rightarrow> ustr" where
  "trim_newlines s = dropWhile (\<lambda>c. c = 13 \<or> c = 10) s"

definition block_prefix :: "ustr \<Rightarrow> ustr" where
  "block_prefix before = (if trim_end before \<noteq> [] then trim_end before @ [10, 10] else [])"

definition ensure_managed_block :: "ustr \<Rightarrow> ustr \<Rightarrow> ustr" where
  "ensure_managed_block main_config_text rules_dir =
     (let block = managed_block rules_dir;
          appended = block_prefix main_config_text @ block @ [10]
      in case str_find managed_begin main_config_text of
           None \<Rightarrow> appended
         | Some start \<Rightarrow>
             (case str_find managed_end (drop start main_config_text) of
                None \<Rightarrow> appended
              | Some end_rel \<Rightarrow>
                  (let before = take start main_config_text;
                       after = trim_newlines
                         (drop (start + end_rel + length managed_end) main_config_text)
                   in block_prefix before @ block @
                      (if trim after \<noteq> [] then [10, 10] @ after else [10]))))"

section \<open>The preview of the effective configuration\<close>

definition preview_step :: "ustr list \<Rightarrow> ustr list \<times> bool \<Rightarrow> ustr \<Rightarrow> ustr list \<times> bool" where
  "preview_step managed_texts st line =
     (let (lines, in_managed_block) = st; t = trim line
      in if t = managed_begin then
           (lines @ [line] @
              concat (map (\<lambda>text. if trim text = [] then [] else [] # str_lines text) managed_texts), True)
         else if in_managed_block then
           (if t = managed_end then (lines @ [line], False) else (lines, True))
         else (lines @ [line], False))"

definition effective_preview :: "ustr \<Rightarrow> ustr list \<Rightarrow> ustr" where
  "effective_preview main_config_text managed_texts =
     (let lines = fst (foldl (preview_step managed_texts) ([], False) (str_lines main_config_text))
      in join [10] (if lines \<noteq> [] then lines @ [[]] else []))"

section \<open>Finding the markers\<close>

lemma str_find_skip:
  assumes "c \<notin> set p" and "p \<noteq> []"
  shows "str_find p a = None \<Longrightarrow>
     str_find p (a @ c # s) = map_option (\<lambda>i. i + Suc (length a)) (str_find p s)"
proof (induction a)
  case Nil
  have "\<not> starts_with p (c # s)" using assms by (cases p) auto
  then show ?case by (cases "str_find p s") simp_all
next
  case (Cons x a)
  have none: "\<not> starts_with p (x # a)" "str_find p a = None" using Cons.prems by (auto split: if_splits)
  have "\<not> starts_with p ((x # a) @ c # s)"
  proof
    assume "starts_with p ((x # a) @ c # s)"
    then obtain t where t: "(x # a) @ c # s = p @ t" by (auto simp: starts_with_iff)
    then obtain u where "x # a = p @ u \<or> (x # a) @ u = p \<and> c # s = u @ t"
      unfolding append_eq_append_conv2 by blast
    then show False
    proof
      assume "x # a = p @ u"
      then show ?thesis using none(1) by simp
    next
      assume u: "(x # a) @ u = p \<and> c # s = u @ t"
      then have "u = []" using assms(1) by (cases u) auto
      then show ?thesis using u none(1) starts_with_append [of p "[]"] by simp
    qed
  qed
  then show ?case using Cons.IH none(2) by (cases "str_find p s") simp_all
qed

lemma str_find_prefix: "starts_with p s \<Longrightarrow> str_find p s = Some 0"
  by (cases s) (auto simp: starts_with_def)

lemma str_find_None_sub: "str_find p (a @ b) = None \<Longrightarrow> str_find p a = None \<and> str_find p b = None"
  unfolding str_find_None by (metis append.assoc)

lemma str_find_take: "str_find p s = Some i \<Longrightarrow> p \<noteq> [] \<Longrightarrow> str_find p (take i s) = None"
proof (rule ccontr)
  assume f: "str_find p s = Some i" "p \<noteq> []" "str_find p (take i s) \<noteq> None"
  then obtain j where j: "str_find p (take i s) = Some j" by blast
  note o = str_find_Some [OF j]
  have "j + length p \<le> i" using o by simp
  then have ji: "j < i" using f(2) by (cases p) auto
  have "starts_with p (drop j (take i s))" using o by (metis append_take_drop_id drop_take starts_with_append
      append.assoc add_diff_cancel_left' append_eq_conv_conj diff_is_0_eq drop_append length_take take_all_iff)
  then have "starts_with p (drop j s)" unfolding starts_with_iff
    by (metis append.assoc append_take_drop_id drop_take)
  then show False using str_find_Some [OF f(1)] ji by blast
qed

lemma str_find_append: "str_find p s = Some i \<Longrightarrow> str_find p (s @ t) = Some i"
proof (induction s arbitrary: i)
  case Nil
  then show ?case by (cases t) (auto split: if_splits)
next
  case (Cons c s)
  show ?case
  proof (cases "starts_with p (c # s)")
    case True
    then have "starts_with p ((c # s) @ t)" by (auto simp: starts_with_iff) (metis append.assoc append_Cons)
    then show ?thesis using True Cons.prems by simp
  next
    case False
    then obtain k where k: "str_find p s = Some k" "i = Suc k" using Cons.prems by auto
    have "\<not> starts_with p (c # s @ t)"
    proof
      assume "starts_with p (c # s @ t)"
      moreover have "length p \<le> length s" using str_find_Some [OF k(1)] by simp
      ultimately have "starts_with p (c # s)"
        by (cases p) (simp_all add: starts_with_def)
      then show False using False by simp
    qed
    then show ?thesis using Cons.IH [OF k(1)] k(2) by simp
  qed
qed

lemma marker_facts:
  "10 \<notin> set managed_begin" "10 \<notin> set managed_end" "managed_begin \<noteq> []" "managed_end \<noteq> []"
  "str_find managed_end managed_begin = None"
  by (simp_all add: managed_begin_def managed_end_def lit_def)

lemma markers_hash: "managed_begin = 35 # tl managed_begin" "managed_end = 35 # tl managed_end"
  by (simp_all add: managed_begin_def managed_end_def lit_def)

lemma no_marker_without_hash: "35 \<notin> set s \<Longrightarrow> str_find managed_end s = None"
proof -
  assume h: "35 \<notin> set s"
  have "35 \<in> set managed_end" using markers_hash(2) by (metis list.set_intros(1))
  then show ?thesis using h unfolding str_find_None by auto
qed

lemma str_find_block_prefix:
  assumes "str_find p a = None" and "10 \<notin> set p" and "p \<noteq> []"
  shows "str_find p (block_prefix a @ s) = map_option (\<lambda>i. i + length (block_prefix a)) (str_find p s)"
proof (cases "trim_end a = []")
  case True
  then show ?thesis by (cases "str_find p s") (simp_all add: block_prefix_def)
next
  case False
  obtain q where "a = trim_end a @ q" using trim_end_prefix by blast
  then have n: "str_find p (trim_end a) = None" using assms(1) str_find_None_sub by metis
  have "str_find p ([] @ 10 # s) = map_option (\<lambda>i. i + Suc (length ([] :: ustr))) (str_find p s)"
    using assms by (intro str_find_skip) auto
  then have "str_find p (trim_end a @ 10 # 10 # s) =
      map_option (\<lambda>i. i + Suc (Suc (length (trim_end a)))) (str_find p s)"
    using str_find_skip [OF assms(2,3) n, of "10 # s"] by (cases "str_find p s") simp_all
  then show ?thesis using False by (simp add: block_prefix_def)
qed

lemma trim_end_block_prefix: "trim_end (block_prefix a) = trim_end a"
proof (cases "trim_end a = []")
  case False
  then have "non_ws (last (trim_end a))" by (rule trim_end_last)
  then have "trim_end (trim_end a @ [10, 10]) = trim_end a"
    using False by (simp add: trim_end_def [of "trim_end a @ [10, 10]"])
      (metis dropWhile_eq_self hd_rev rev_rev_ident)
  then show ?thesis using False by (simp add: block_prefix_def)
qed (simp add: block_prefix_def)

lemma block_prefix_prefix [simp]: "block_prefix (block_prefix a) = block_prefix a"
  by (simp add: block_prefix_def [of "block_prefix a"] trim_end_block_prefix)
    (simp add: block_prefix_def)
section \<open>Stability\<close>

definition block_lines :: "ustr \<Rightarrow> ustr list" where
  "block_lines rules_dir =
     map (\<lambda>name. lit ''conf-file '' @ path_join (managed_conf_dir rules_dir) name) managed_file_names"

lemma managed_block_lines:
  "managed_block rules_dir = managed_begin @ 10 # join [10] (block_lines rules_dir @ [managed_end])"
  by (simp add: managed_block_def block_lines_def join_Cons)

lemma str_find_last_line:
  "\<forall>l \<in> set ls. str_find managed_end l = None \<Longrightarrow>
     str_find managed_end (join [10] (ls @ [managed_end]) @ t) = Some (length (join [10] ls) + min 1 (length ls))"
proof (induction ls)
  case Nil
  then show ?case by (simp add: str_find_prefix)
next
  case (Cons l ls)
  have "str_find managed_end (l @ 10 # join [10] (ls @ [managed_end]) @ t) =
      map_option (\<lambda>i. i + Suc (length l)) (str_find managed_end (join [10] (ls @ [managed_end]) @ t))"
    using Cons.prems by (intro str_find_skip) (simp_all add: marker_facts)
  then show ?case using Cons by (cases ls) (simp_all add: join_Cons)
qed

lemma length_join_snoc: "ls \<noteq> [] \<Longrightarrow> length (join [10] (ls @
  [m])) = Suc (length (join [10] ls) + length m)"
  by (simp add: join_append)

lemma find_end_block:
  assumes "35 \<notin> set (managed_conf_dir rules_dir)"
  shows "str_find managed_end (managed_block rules_dir @ t) =
     Some (length (managed_block rules_dir) - length managed_end)"
proof -
  have names: "n \<in> set managed_file_names \<Longrightarrow> 35 \<notin> set n" for n
    by (auto simp: managed_file_names_def file_name_defs lit_def)
  have "35 \<notin> set l" if l: "l \<in> set (block_lines rules_dir)" for l
    using l names assms
    by (fastforce simp: block_lines_def path_join_def path_push_def lit_def split: if_splits)
  then have ls: "\<forall>l \<in> set (block_lines rules_dir). str_find managed_end l = None"
    by (simp add: no_marker_without_hash)
  have ne: "block_lines rules_dir \<noteq> []" by (simp add: block_lines_def managed_file_names_def)
  have "str_find managed_end (managed_begin @ 10 # join [10] (block_lines rules_dir @ [managed_end]) @ t) =
      map_option (\<lambda>i. i + Suc (length managed_begin))
        (str_find managed_end (join [10] (block_lines rules_dir @ [managed_end]) @ t))"
    by (intro str_find_skip) (simp_all add: marker_facts)
  moreover have "min 1 (length (block_lines rules_dir)) = 1" using ne by (cases "block_lines rules_dir") auto
  ultimately show ?thesis using ne
    by (simp add: managed_block_lines str_find_last_line [OF ls] length_join_snoc)
qed

lemma managed_block_end: "length managed_end \<le> length (managed_block rules_dir)"
  by (simp add: managed_block_lines join_append block_lines_def managed_file_names_def)

definition block_tail :: "ustr \<Rightarrow> ustr" where
  "block_tail after = (if trim after \<noteq> [] then [10, 10] @ after else [10])"

lemma trim_newlines_tail:
  "block_tail (trim_newlines (block_tail (trim_newlines s))) = block_tail (trim_newlines s)"
  by (simp add: block_tail_def trim_newlines_def)

text \<open>A text whose first block is where \<open>ensure_managed_block\<close> puts it is rewritten in place.\<close>

lemma ensure_at_block:
  assumes h: "35 \<notin> set (managed_conf_dir rules_dir)" and b: "str_find managed_begin before = None"
  shows "ensure_managed_block (block_prefix before @ managed_block rules_dir @ tail) rules_dir =
     block_prefix before @ managed_block rules_dir @ block_tail (trim_newlines tail)"
proof -
  let ?p = "block_prefix before" and ?b = "managed_block rules_dir"
  have "starts_with managed_begin (?b @ tail)" by (simp add: managed_block_lines)
  then have f: "str_find managed_begin (?p @ ?b @ tail) = Some (length ?p)"
    using str_find_block_prefix [OF b marker_facts(1,3), of "?b @ tail"] by (simp add: str_find_prefix)
  have e: "str_find managed_end (drop (length ?p) (?p @ ?b @ tail)) = Some (length ?b - length managed_end)"
    using find_end_block [OF h, of tail] by simp
  have d: "drop (length ?p + (length ?b - length managed_end) + length managed_end) (?p @ ?b @ tail) = tail"
    using managed_block_end [of rules_dir] by simp
  show ?thesis
    unfolding ensure_managed_block_def Let_def f e option.case d block_tail_def by simp
qed

definition markers_paired :: "ustr \<Rightarrow> bool" where
  "markers_paired m \<longleftrightarrow>
     (case str_find managed_begin m of
        None \<Rightarrow> True
      | Some s \<Rightarrow> str_find managed_end (drop s m) \<noteq> None)"

lemma ensure_shape:
  assumes "markers_paired m"
  obtains before tail where "ensure_managed_block m rules_dir =
      block_prefix before @ managed_block rules_dir @ block_tail (trim_newlines tail)"
    and "str_find managed_begin before = None"
proof (cases "str_find managed_begin m")
  case None
  then have "ensure_managed_block m rules_dir =
      block_prefix m @ managed_block rules_dir @ block_tail (trim_newlines [])"
    by (simp add: ensure_managed_block_def block_tail_def trim_newlines_def)
  then show ?thesis using None that by blast
next
  case (Some st)
  then obtain en where e: "str_find managed_end (drop st m) = Some en"
    using assms by (auto simp: markers_paired_def)
  have "ensure_managed_block m rules_dir = block_prefix (take st m) @ managed_block rules_dir @
      block_tail (trim_newlines (drop (st + en + length managed_end) m))"
    using Some e by (simp add: ensure_managed_block_def block_tail_def Let_def)
  then show ?thesis using that str_find_take [OF Some marker_facts(3)] by blast
qed

text \<open>C16: Ensuring the managed block twice is the same as once, when a begin marker in the file is
  followed by an end marker.\<close>

theorem ensure_managed_block_idem:
  assumes "35 \<notin> set (managed_conf_dir rules_dir)" and "markers_paired m"
  shows "ensure_managed_block (ensure_managed_block m rules_dir) rules_dir =
     ensure_managed_block m rules_dir"
proof -
  obtain before tail where s: "ensure_managed_block m rules_dir =
      block_prefix before @ managed_block rules_dir @ block_tail (trim_newlines tail)"
    "str_find managed_begin before = None"
    using ensure_shape [OF assms(2)] by blast
  show ?thesis unfolding s(1) ensure_at_block [OF assms(1) s(2)] trim_newlines_tail ..
qed

lemma trim_end_append_non_ws:
  "\<exists>c \<in> set b. non_ws c \<Longrightarrow> trim_end (a @ b) = a @ trim_end b"
  by (auto simp: trim_end_def dropWhile_append)

lemma str_find_cut:
  assumes "str_find p (a @ q) = Some i" and "i + length p \<le> length a"
  shows "str_find p a = Some i"
proof (cases "str_find p a")
  case None
  have "drop i (a @ q) = p @ drop (i + length p) (a @ q)"
    using str_find_Some [OF assms(1)] by (metis append_eq_conv_conj length_take add_leD1 min.absorb2)
  then have "take (length p) (drop i a @ q) = p" using assms(2) by (simp add: append_eq_conv_conj)
  then have "take (length p) (drop i a) = p" using assms(2) by simp
  then have "drop i a = p @ drop (length p) (drop i a)" by (metis append_take_drop_id)
  then have "a = take i a @ p @ drop (length p) (drop i a)" by (metis append_take_drop_id)
  then show ?thesis using None unfolding str_find_None by blast
next
  case (Some j)
  then show ?thesis using str_find_append [OF Some, of q] assms(1) by simp
qed

lemma stale_marker_rerun:
  assumes "35 \<notin> set (managed_conf_dir rules_dir)"
    and "str_find managed_begin m = Some s" and "str_find managed_end (drop s m) = None"
  shows "ensure_managed_block m rules_dir = trim_end m @ [10, 10] @ managed_block rules_dir @ [10]"
    and "ensure_managed_block (ensure_managed_block m rules_dir) rules_dir =
      block_prefix (take s m) @ managed_block rules_dir @ [10]"
proof -
  let ?b = "managed_block rules_dir"
  obtain r where m: "m = take s m @ managed_begin @ r" and sl: "s + length managed_begin \<le> length m"
    using str_find_Some [OF assms(2)] by blast
  define u where "u = trim_end (managed_begin @ r)"
  have nw: "\<exists>c \<in> set (managed_begin @ r). non_ws c"
    using markers_hash(1) by (metis Un_iff is_whitespace_simps(5) list.set_intros(1) set_append)
  have te: "trim_end m = take s m @ u"
    using trim_end_append_non_ws [OF nw, of "take s m"] m by (simp add: u_def)
  have "u \<noteq> []" using nw by (auto simp: u_def trim_end_eq_Nil_iff)
  then have pre: "block_prefix m = take s m @ u @ [10, 10]" using te by (simp add: block_prefix_def)
  show one: "ensure_managed_block m rules_dir = trim_end m @ [10, 10] @ ?b @ [10]"
    using assms(2,3) pre te by (simp add: ensure_managed_block_def Let_def)
  have ub: "\<exists>v. u = managed_begin @ v"
  proof -
    have "non_ws (last managed_begin)" by (simp add: managed_begin_def lit_def is_whitespace_def)
    then have "trim_end managed_begin = managed_begin" by (simp add: trim_end_id)
    show ?thesis
    proof (cases "\<exists>c \<in> set r. non_ws c")
      case True
      then show ?thesis using trim_end_append_non_ws [of r managed_begin] by (auto simp: u_def)
    next
      case False
      then have "dropWhile is_whitespace (rev r @ rev managed_begin) = dropWhile is_whitespace (rev managed_begin)"
        by (intro dropWhile_append2) auto
      then have "u = managed_begin" using \<open>trim_end managed_begin = managed_begin\<close>
        by (simp add: u_def trim_end_def)
      then show ?thesis by auto
    qed
  qed
  have ds: "drop s m = managed_begin @ r" by (metis append_eq_conv_conj length_take m min.absorb2
      add_leE sl)
  obtain q where q: "managed_begin @ r = u @ q" using trim_end_prefix unfolding u_def by blast
  have nu: "str_find managed_end u = None"
    using assms(3) q str_find_None_sub unfolding ds by metis
  let ?r = "take s m @ u @ [10, 10] @ ?b @ [10]"
  have r: "ensure_managed_block m rules_dir = ?r" using one te by simp
  have s: "length (take s m) = s" using sl by simp
  have "str_find managed_begin (take s m @ u) = Some s"
  proof (rule str_find_cut)
    have "(take s m @ u) @ q = m" using m q by (metis append.assoc)
    then show "str_find managed_begin ((take s m @ u) @ q) = Some s" using assms(2) by simp
    show "s + length managed_begin \<le> length (take s m @ u)" using ub s by auto
  qed
  then have fb: "str_find managed_begin ?r = Some s"
    using str_find_append [of managed_begin "take s m @ u" s "[10, 10] @ ?b @ [10]"] by simp
  have "str_find managed_end (10 # ?b @ [10]) = Some (Suc (length ?b - length managed_end))"
    using find_end_block [OF assms(1), of "[10]"] marker_facts(4)
      str_find_skip [OF marker_facts(2,4), of "[]" "?b @ [10]"] by simp
  then have fe: "str_find managed_end (drop s ?r) =
      Some (Suc (length ?b - length managed_end) + Suc (length u))"
    using str_find_skip [OF marker_facts(2,4) nu, of "10 # ?b @ [10]"] s by simp
  have d: "drop (s + (Suc (length ?b - length managed_end) + Suc (length u)) + length managed_end) ?r = [10]"
    using managed_block_end [of rules_dir] s by simp
  have t: "take s ?r = take s m" using s by simp
  show "ensure_managed_block (ensure_managed_block m rules_dir) rules_dir =
      block_prefix (take s m) @ ?b @ [10]"
    unfolding r
    by (simp only: ensure_managed_block_def Let_def fb fe option.case d t) (simp add: trim_newlines_def)
qed

text \<open>With a begin marker that has no end marker the block is appended; the next run takes the
  stale marker for the start of that block and deletes all text between.\<close>

theorem stale_marker_loses_text:
  assumes "35 \<notin> set (managed_conf_dir rules_dir)"
    and "str_find managed_begin m = Some s" and "str_find managed_end (drop s m) = None"
  shows "ensure_managed_block m rules_dir = trim_end m @ [10, 10] @ managed_block rules_dir @ [10] \<and>
    ensure_managed_block (ensure_managed_block m rules_dir) rules_dir =
      block_prefix (take s m) @ managed_block rules_dir @ [10]"
  using stale_marker_rerun [OF assms] by simp
section \<open>What the preview shows\<close>

definition page_lines :: "ustr list \<Rightarrow> ustr list" where
  "page_lines texts = concat (map (\<lambda>text. if trim text = [] then [] else [] # str_lines text) texts)"

lemma preview_outside:
  "\<forall>l \<in> set ls. trim l \<noteq> managed_begin \<Longrightarrow>
     foldl (preview_step texts) (acc, False) ls = (acc @ ls, False)"
  by (induction ls arbitrary: acc) (auto simp: preview_step_def)

lemma preview_inside:
  "\<forall>l \<in> set ls. trim l \<noteq> managed_begin \<and> trim l \<noteq> managed_end \<Longrightarrow>
     foldl (preview_step texts) (acc, True) ls = (acc, True)"
  by (induction ls arbitrary: acc) (auto simp: preview_step_def)

lemma markers_differ: "managed_begin \<noteq> managed_end"
  by (simp add: managed_begin_def managed_end_def)

lemma preview_block:
  assumes "\<forall>l \<in> set before. trim l \<noteq> managed_begin" and "trim b = managed_begin"
    and "\<forall>l \<in> set inside. trim l \<noteq> managed_begin \<and> trim l \<noteq> managed_end" and "trim e = managed_end"
    and "\<forall>l \<in> set after. trim l \<noteq> managed_begin"
  shows "fst (foldl (preview_step texts) ([], False) (before @ [b] @ inside @ [e] @ after)) =
     before @ [b] @ page_lines texts @ [e] @ after"
  using assms markers_differ
  by (simp add: preview_outside preview_inside preview_step_def page_lines_def)

text \<open>The preview shows the lines outside the managed block unchanged and the non-blank pages,
  each after an empty line, in place of the lines of the block.\<close>

theorem preview_splices_pages:
  assumes "str_lines m = before @ [b] @ inside @ [e] @ after"
    and "\<forall>l \<in> set before. trim l \<noteq> managed_begin" and "trim b = managed_begin"
    and "\<forall>l \<in> set inside. trim l \<noteq> managed_begin \<and> trim l \<noteq> managed_end" and "trim e = managed_end"
    and "\<forall>l \<in> set after. trim l \<noteq> managed_begin"
  shows "effective_preview m texts = join [10] (before @ [b] @ page_lines texts @ [e] @ after @ [[]])"
  using preview_block [OF assms(2-6), of texts] by (simp add: effective_preview_def assms(1))

lemma significant_page_lines:
  "filter significant (page_lines texts) = concat (map (\<lambda>t. filter significant (str_lines t)) texts)"
proof (induction texts)
  case (Cons t texts)
  have "filter significant (str_lines t) = []" if "trim t = []"
  proof -
    have "norm_lines t = norm_lines (trim t)" by simp
    then show ?thesis using that by (simp add: norm_lines_def)
  qed
  then show ?case using Cons by (simp add: page_lines_def)
qed (simp add: page_lines_def)

lemma marker_insignificant: "trim l = managed_begin \<or> trim l = managed_end \<Longrightarrow> \<not> significant l"
  by (auto simp: significant_def managed_begin_def managed_end_def lit_def)

lemma plain_marker: "no_nl l \<Longrightarrow> trim l = managed_begin \<or> trim l = managed_end \<Longrightarrow> plain_line l"
  unfolding plain_line_def significant_def
  by (auto simp: managed_begin_def managed_end_def lit_def)

lemma plain_text_lines: "plain_text t \<Longrightarrow> l \<in> set (str_lines t) \<Longrightarrow> plain_line l"
  using str_lines_no_nl [of l t] by (auto simp: plain_text_def norm_lines_def plain_line_def)

text \<open>The preview is read as the directives before the block, those of the pages, those after.\<close>

lemma preview_entries:
  assumes m: "str_lines m = before @ [b] @ inside @ [e] @ after"
    and "\<forall>l \<in> set before. trim l \<noteq> managed_begin" and "trim b = managed_begin"
    and "\<forall>l \<in> set inside. trim l \<noteq> managed_begin \<and> trim l \<noteq> managed_end" and "trim e = managed_end"
    and "\<forall>l \<in> set after. trim l \<noteq> managed_begin"
    and plain: "\<forall>l \<in> set (before @ after). plain_line l" "\<forall>t \<in> set texts. plain_text t"
  shows "config_entries (effective_preview m texts) =
     map key_value (filter significant before) @ concat (map config_entries texts) @
     map key_value (filter significant after)"
proof -
  let ?ls = "before @ [b] @ page_lines texts @ [e] @ after @ [[]]"
  have nl: "no_nl l" if "l \<in> set (str_lines m)" for l by (rule str_lines_no_nl [OF that])
  have pages: "plain_line l" if "l \<in> set (page_lines texts)" for l
    using that plain(2) plain_text_lines by (auto simp: page_lines_def plain_Nil split: if_splits)
  have "plain_line b" "plain_line e"
    using plain_marker [of b] plain_marker [of e] nl [of b] nl [of e] assms(3,5) m by auto
  then have "\<And>l. l \<in> set ?ls \<Longrightarrow> plain_line l"
    using plain(1) pages by (auto simp: plain_Nil)
  then have "config_entries (effective_preview m texts) = map key_value (filter significant ?ls)"
    unfolding preview_splices_pages [OF assms(1-6)] by (rule config_entries_plain)
  moreover have "map key_value (concat (map (\<lambda>t. filter significant (str_lines t)) texts)) =
      concat (map config_entries texts)"
  proof -
    have "config_entries t = map key_value (filter significant (str_lines t))" if "t \<in> set texts" for t
      using config_entries_text [of t] plain(2) that by (simp add: norm_lines_def key_value_def)
    then show ?thesis by (simp add: map_concat comp_def cong: map_cong)
  qed
  ultimately show ?thesis
    using marker_insignificant [of b] marker_insignificant [of e] assms(3,5)
    by (simp add: significant_page_lines)
qed


section \<open>Witnesses\<close>

definition sample_rules_dir :: ustr where
  "sample_rules_dir = lit ''/etc/smartdns/rules''"

definition sample_main :: ustr where
  "sample_main = join [10] [lit ''server 1.1.1.1'', managed_begin, lit ''conf-file old.conf'',
    managed_end, lit ''bind :53'']"

definition sample_stale :: ustr where
  "sample_stale = join [10] [lit ''server 1.1.1.1'', managed_begin, lit ''bind :53'']"

theorem ensure_managed_block_idem_witness:
  "ensure_managed_block (ensure_managed_block sample_main sample_rules_dir) sample_rules_dir =
     ensure_managed_block sample_main sample_rules_dir"
  by (rule ensure_managed_block_idem) code_simp+

lemma is_stale_sample:
  "35 \<notin> set (managed_conf_dir sample_rules_dir)" "str_find managed_begin sample_stale = Some 15"
  "str_find managed_end (drop 15 sample_stale) = None"
  by code_simp+

theorem stale_marker_loses_text_witness:
  "ensure_managed_block sample_stale sample_rules_dir =
     trim_end sample_stale @ [10, 10] @ managed_block sample_rules_dir @ [10] \<and>
   ensure_managed_block (ensure_managed_block sample_stale sample_rules_dir) sample_rules_dir =
     block_prefix (take 15 sample_stale) @ managed_block sample_rules_dir @ [10]"
  by (rule stale_marker_loses_text [OF is_stale_sample])

theorem preview_splices_pages_witness:
  "effective_preview sample_main [lit ''cache-size 1''] = join [10]
     ([lit ''server 1.1.1.1''] @ [managed_begin] @ page_lines [lit ''cache-size 1''] @ [managed_end] @
      [lit ''bind :53''] @ [[]])"
proof (rule preview_splices_pages)
  show "str_lines sample_main = [lit ''server 1.1.1.1''] @ [managed_begin] @ [lit ''conf-file old.conf''] @
      [managed_end] @ [lit ''bind :53'']"
    by code_simp
qed code_simp+
end
