(* ===== verification/Files.thy ===== *)
theory Files
  imports Managed_Block "HOL-Library.AList"
begin

text \<open>
  The file operations of \<open>src/src/config_ui.rs\<close>: \<open>read_text_or_default\<close>,
    \<open>write_text_atomic\<close>,
  \<open>backup_file\<close>, \<open>prune_backup_files\<close>,
    \<open>write_text_with_backup_if_changed\<close>, \<open>list_backups\<close> and
  \<open>restore_backup\<close>, over a model of the \<open>std::fs\<close> calls they make. The file system is a list of
  path/content pairs together with the failures the operating system reports; a failing write
  leaves whatever content the failure names, a failing rename leaves both files. Paths are compared
  as strings, so two spellings of one path are two files.
\<close>

section \<open>The file system\<close>

datatype io_kind = Not_Found | Permission_Denied | Invalid_Input | Other_Kind

record io_error =
  ie_kind :: io_kind
  ie_message :: ustr

record file_system =
  fs_files :: "(ustr \<times> ustr) list"
  fs_mtime :: "ustr \<Rightarrow> nat"
  fs_canonical :: "ustr \<Rightarrow> ustr option"
  fs_read_fault :: "ustr \<Rightarrow> io_error option"
  fs_write_fault :: "ustr \<Rightarrow> (io_error \<times> ustr) option"
  fs_rename_fault :: "ustr \<Rightarrow> io_error option"
  fs_mkdir_fault :: "ustr \<Rightarrow> io_error option"
  fs_list_fault :: "ustr \<Rightarrow> io_error option"

type_synonym 'a io = "file_system \<Rightarrow> (io_error, 'a) result \<times> file_system"

definition io_return :: "'a \<Rightarrow> 'a io" where
  "io_return x fs = (Inr x, fs)"

definition io_fail :: "io_error \<Rightarrow> 'a io" where
  "io_fail e fs = (Inl e, fs)"

definition io_bind :: "'a io \<Rightarrow> ('a \<Rightarrow> 'b io) \<Rightarrow> 'b io" where
  "io_bind m f fs = (case m fs of (Inl e, fs') \<Rightarrow> (Inl e, fs') | (Inr x,
    fs') \<Rightarrow> f x fs')"

text \<open>\<open>let _ = m;\<close> and \<open>m.map_err(f)\<close>\<close>

definition io_ignore :: "'a io \<Rightarrow> unit io" where
  "io_ignore m fs = (Inr (), snd (m fs))"

definition io_map_err :: "(io_error \<Rightarrow> io_error) \<Rightarrow> 'a io \<Rightarrow> 'a io" where
  "io_map_err f m fs = (case m fs of (Inl e, fs') \<Rightarrow> (Inl (f e), fs') | r \<Rightarrow> r)"

definition os_not_found :: io_error where
  "os_not_found = \<lparr>ie_kind = Not_Found, ie_message = lit ''No such file or directory (os error 2)''\<rparr>"

definition lookup_file :: "file_system \<Rightarrow> ustr \<Rightarrow> ustr option" where
  "lookup_file fs p = map_of (fs_files fs) p"

definition fs_exists :: "file_system \<Rightarrow> ustr \<Rightarrow> bool" where
  "fs_exists fs p = (lookup_file fs p \<noteq> None)"

definition put_file :: "ustr \<Rightarrow> ustr \<Rightarrow> file_system \<Rightarrow> file_system" where
  "put_file p t fs = fs\<lparr>fs_files := AList.update p t (fs_files fs)\<rparr>"

definition drop_file :: "ustr \<Rightarrow> file_system \<Rightarrow> file_system" where
  "drop_file p fs = fs\<lparr>fs_files := AList.delete p (fs_files fs)\<rparr>"

definition read_to_string :: "ustr \<Rightarrow> ustr io" where
  "read_to_string p fs =
     (case fs_read_fault fs p of
        Some e \<Rightarrow> (Inl e, fs)
      | None \<Rightarrow>
          (case lookup_file fs p of
             None \<Rightarrow> (Inl os_not_found, fs)
           | Some t \<Rightarrow> (Inr t, fs)))"

definition fs_write :: "ustr \<Rightarrow> ustr \<Rightarrow> unit io" where
  "fs_write p t fs =
     (case fs_write_fault fs p of
        Some (e, left) \<Rightarrow> (Inl e, put_file p left fs)
      | None \<Rightarrow> (Inr (), put_file p t fs))"

definition fs_rename :: "ustr \<Rightarrow> ustr \<Rightarrow> unit io" where
  "fs_rename a b fs =
     (case fs_rename_fault fs b of
        Some e \<Rightarrow> (Inl e, fs)
      | None \<Rightarrow>
          (case lookup_file fs a of
             None \<Rightarrow> (Inl os_not_found, fs)
           | Some t \<Rightarrow> (Inr (), put_file b t (drop_file a fs))))"

definition fs_copy :: "ustr \<Rightarrow> ustr \<Rightarrow> unit io" where
  "fs_copy a b = io_bind (read_to_string a) (fs_write b)"

definition fs_remove_file :: "ustr \<Rightarrow> unit io" where
  "fs_remove_file p fs =
     (if fs_exists fs p then (Inr (), drop_file p fs) else (Inl os_not_found, fs))"

definition create_dir_all :: "ustr \<Rightarrow> unit io" where
  "create_dir_all p fs =
     (case fs_mkdir_fault fs p of Some e \<Rightarrow> (Inl e, fs) | None \<Rightarrow> (Inr (), fs))"

text \<open>\<open>fs::read_dir\<close>: the paths of the files of a directory; the empty path names no directory.\<close>

definition read_dir :: "ustr \<Rightarrow> ustr list io" where
  "read_dir dir fs =
     (if dir = [] then (Inl os_not_found, fs)
      else case fs_list_fault fs dir of
             Some e \<Rightarrow> (Inl e, fs)
           | None \<Rightarrow> (Inr (filter (\<lambda>q. path_parent q = Some dir) (map fst (fs_files fs))), fs))"

section \<open>Operations of the program\<close>

definition read_text_or_default :: "ustr \<Rightarrow> ustr io" where
  "read_text_or_default path fs =
     (case read_to_string path fs of
        (Inr text, fs') \<Rightarrow> (Inr text, fs')
      | (Inl e, fs') \<Rightarrow> if ie_kind e = Not_Found then (Inr [], fs') else (Inl e, fs'))"

definition tmp_path :: "ustr \<Rightarrow> ustr" where
  "tmp_path path = path @ lit ''.tmp''"

definition write_text_atomic :: "ustr \<Rightarrow> ustr \<Rightarrow> unit io" where
  "write_text_atomic path content =
     io_bind (case path_parent path of None \<Rightarrow> io_return () | Some parent \<Rightarrow> create_dir_all parent) (\<lambda>_.
     io_bind (fs_write (tmp_path path) content) (\<lambda>_ fs.
       (case fs_rename (tmp_path path) path fs of
          (Inr _, fs1) \<Rightarrow> (Inr (), fs1)
        | (Inl err, fs1) \<Rightarrow>
            if ie_kind err = Permission_Denied then
              io_bind (fs_write path content) (\<lambda>_. io_ignore (fs_remove_file (tmp_path path))) fs1
            else
              io_bind (io_ignore (fs_remove_file (tmp_path path))) (\<lambda>_. io_fail err) fs1)))"

definition file_name_or_default :: "ustr \<Rightarrow> ustr" where
  "file_name_or_default path = (case path_file_name path of None \<Rightarrow> lit ''smartdns.conf'' | Some n \<Rightarrow> n)"

definition parent_or_dot :: "ustr \<Rightarrow> ustr" where
  "parent_or_dot path = (case path_parent path of None \<Rightarrow> lit ''.'' | Some p \<Rightarrow> p)"

definition backup_name :: "ustr \<Rightarrow> ustr" where
  "backup_name path = file_name_or_default path @ lit ''.backup''"

definition backup_path :: "ustr \<Rightarrow> ustr" where
  "backup_path path = path_push (parent_or_dot path) (backup_name path)"

text \<open>The entries of the directory with the exact backup name, newest first.\<close>

definition backup_entries :: "ustr \<Rightarrow> ustr list \<Rightarrow> file_system \<Rightarrow> (nat \<times> ustr) list" where
  "backup_entries exact_name entries fs =
     sort_key (\<lambda>b. - int (fst b))
       (map (\<lambda>q. (fs_mtime fs q, q)) (filter (\<lambda>q. path_file_name q = Some exact_name) entries))"

fun remove_all :: "ustr list \<Rightarrow> unit io" where
  "remove_all [] = io_return ()"
| "remove_all (p # ps) = io_bind (io_ignore (fs_remove_file p)) (\<lambda>_. remove_all ps)"

definition prune_backup_files :: "ustr \<Rightarrow> nat \<Rightarrow> unit io" where
  "prune_backup_files path keep =
     io_bind (read_dir (parent_or_dot path)) (\<lambda>entries fs.
       remove_all (map snd (drop keep (backup_entries (backup_name path) entries fs))) fs)"

definition backup_file :: "ustr \<Rightarrow> unit io" where
  "backup_file path fs =
     (if \<not> fs_exists fs path then (Inr (), fs)
      else io_bind (fs_copy path (backup_path path)) (\<lambda>_. prune_backup_files path 1) fs)"

definition write_text_with_backup_if_changed :: "ustr \<Rightarrow> ustr \<Rightarrow> unit io" where
  "write_text_with_backup_if_changed path content =
     io_bind (read_text_or_default path) (\<lambda>current fs.
       if current = content then (Inr (), fs)
       else io_bind (if fs_exists fs path then backup_file path else io_return ())
              (\<lambda>_. write_text_atomic path content) fs)"

record backup_info =
  bi_path :: ustr
  bi_modified_unix :: nat

definition list_backups :: "ustr \<Rightarrow> backup_info list io" where
  "list_backups config_file =
     io_bind (read_dir (parent_or_dot config_file)) (\<lambda>entries fs.
       (Inr (map (\<lambda>(m, q). \<lparr>bi_path = q, bi_modified_unix = m\<rparr>)
          (backup_entries (backup_name config_file) entries fs)), fs))"

definition restore_backup :: "ustr \<Rightarrow> ustr \<Rightarrow> unit io" where
  "restore_backup config_file backup_file_path =
     io_bind (read_to_string backup_file_path) (\<lambda>backup_text. write_text_atomic config_file backup_text)"

section \<open>Laws of the file system\<close>

lemma lookup_put [simp]: "lookup_file (put_file p t fs) q = (if q = p then Some t else lookup_file fs q)"
  by (auto simp: lookup_file_def put_file_def update_conv')

lemma lookup_drop [simp]: "lookup_file (drop_file p fs) q = (if q = p then None else lookup_file fs q)"
  by (auto simp: lookup_file_def drop_file_def delete_conv')

lemma faults_put [simp]:
  "fs_read_fault (put_file p t fs) = fs_read_fault fs" "fs_write_fault (put_file p t fs) = fs_write_fault fs"
  "fs_rename_fault (put_file p t fs) = fs_rename_fault fs" "fs_mkdir_fault (put_file p t fs) = fs_mkdir_fault fs"
  "fs_list_fault (put_file p t fs) = fs_list_fault fs" "fs_mtime (put_file p t fs) = fs_mtime fs"
  "fs_canonical (put_file p t fs) = fs_canonical fs"
  by (simp_all add: put_file_def)

lemma faults_drop [simp]:
  "fs_read_fault (drop_file p fs) = fs_read_fault fs" "fs_write_fault (drop_file p fs) = fs_write_fault fs"
  "fs_rename_fault (drop_file p fs) = fs_rename_fault fs" "fs_mkdir_fault (drop_file p fs) = fs_mkdir_fault fs"
  "fs_list_fault (drop_file p fs) = fs_list_fault fs" "fs_mtime (drop_file p fs) = fs_mtime fs"
  "fs_canonical (drop_file p fs) = fs_canonical fs"
  by (simp_all add: drop_file_def)

lemma io_bind_simps [simp]:
  "io_bind (io_return x) f fs = f x fs" "io_bind (io_fail e) f fs = (Inl e, fs)"
  by (simp_all add: io_bind_def io_return_def io_fail_def)

text \<open>A client of the file system sees texts under paths.\<close>

locale text_store =
  fixes get :: "'s \<Rightarrow> ustr \<Rightarrow> ustr option"
    and put :: "ustr \<Rightarrow> ustr \<Rightarrow> 's \<Rightarrow> 's"
    and del :: "ustr \<Rightarrow> 's \<Rightarrow> 's"
  assumes get_put: "get (put p t s) q = (if q = p then Some t else get s q)"
    and get_del: "get (del p s) q = (if q = p then None else get s q)"
begin

lemma get_put_same: "get (put p t s) p = Some t"
  by (simp add: get_put)

lemma get_put_other: "q \<noteq> p \<Longrightarrow> get (put p t s) q = get s q"
  by (simp add: get_put)

definition agree_except :: "ustr set \<Rightarrow> 's \<Rightarrow> 's \<Rightarrow> bool" where
  "agree_except ps s s' \<longleftrightarrow> (\<forall>q. q \<notin> ps \<longrightarrow> get s' q = get s q)"

lemma agree_refl: "agree_except ps s s"
  by (simp add: agree_except_def)

lemma agree_trans: "agree_except ps s s' \<Longrightarrow> agree_except ps s' s'' \<Longrightarrow> agree_except ps s s''"
  by (simp add: agree_except_def)

lemma agree_put: "p \<in> ps \<Longrightarrow> agree_except ps s (put p t s)"
  by (auto simp: agree_except_def get_put)

lemma agree_del: "p \<in> ps \<Longrightarrow> agree_except ps s (del p s)"
  by (auto simp: agree_except_def get_del)

lemma agree_mono: "agree_except ps s s' \<Longrightarrow> ps \<subseteq> qs \<Longrightarrow> agree_except qs s s'"
  by (auto simp: agree_except_def)

end

interpretation files: text_store lookup_file put_file drop_file
  by unfold_locales simp_all

section \<open>Saving a text\<close>

lemma tmp_path_other [simp]: "tmp_path p \<noteq> p" "p \<noteq> tmp_path p"
  by (simp_all add: tmp_path_def)

definition same_faults :: "file_system \<Rightarrow> file_system \<Rightarrow> bool" where
  "same_faults fs fs' \<longleftrightarrow> fs' = fs\<lparr>fs_files := fs_files fs'\<rparr>"

lemma same_faults_refl [simp]: "same_faults fs fs"
  by (simp add: same_faults_def)

lemma same_faults_put [simp]: "same_faults fs (put_file p t fs') = same_faults fs fs'"
  by (cases fs; cases fs') (simp add: same_faults_def put_file_def)

lemma same_faults_drop [simp]: "same_faults fs (drop_file p fs') = same_faults fs fs'"
  by (cases fs; cases fs') (simp add: same_faults_def drop_file_def)

lemma same_faults_trans: "same_faults fs fs' \<Longrightarrow> same_faults fs' fs'' \<Longrightarrow> same_faults fs fs''"
  by (cases fs; cases fs'; cases fs'') (simp add: same_faults_def)

lemma same_faultsD:
  assumes "same_faults fs fs'"
  shows "fs_read_fault fs' = fs_read_fault fs" "fs_write_fault fs' = fs_write_fault fs"
    "fs_rename_fault fs' = fs_rename_fault fs" "fs_mkdir_fault fs' = fs_mkdir_fault fs"
    "fs_list_fault fs' = fs_list_fault fs" "fs_canonical fs' = fs_canonical fs" "fs_mtime fs' = fs_mtime fs"
  using assms by (cases fs; cases fs'; simp add: same_faults_def)+

text \<open>The ways a save ends: nothing but the temporary file touched, the rename done, or the direct
  write of the fallback.\<close>

lemma write_text_atomic_outcome:
  assumes "write_text_atomic p t fs = (r, fs')"
  obtains (unchanged) e where "r = Inl e" "lookup_file fs' p = lookup_file fs p"
    | (saved) "r = Inr ()" "lookup_file fs' p = Some t" "lookup_file fs' (tmp_path p) = None"
    | (fallback) e e' left where "r = Inl e" "fs_rename_fault fs p = Some e'"
        "ie_kind e' = Permission_Denied" "fs_write_fault fs p = Some (e, left)"
  using assms
  by (auto simp: write_text_atomic_def io_bind_def io_return_def io_fail_def io_ignore_def create_dir_all_def
      fs_write_def fs_rename_def fs_remove_file_def fs_exists_def
      split: option.splits sum.splits prod.splits if_splits)

lemma write_text_atomic_frame:
  assumes "write_text_atomic p t fs = (r, fs')"
  shows "files.agree_except {p, tmp_path p} fs fs' \<and> same_faults fs fs'"
  using assms
  by (auto simp: write_text_atomic_def io_bind_def io_return_def io_fail_def io_ignore_def create_dir_all_def
      fs_write_def fs_rename_def fs_remove_file_def files.agree_except_def
      split: option.splits sum.splits prod.splits if_splits)

lemma agree_weaken:
  "files.agree_except ps fs fs' \<Longrightarrow> ps \<subseteq> qs \<Longrightarrow> files.agree_except qs fs fs'"
  by (rule files.agree_mono)

lemma read_text_or_default_pure:
  "read_text_or_default p fs = (r, fs') \<Longrightarrow> fs' = fs"
  by (auto simp: read_text_or_default_def read_to_string_def split: option.splits if_splits)

lemma read_text_or_default_value:
  "fs_read_fault fs p = None \<Longrightarrow>
     read_text_or_default p fs = (Inr (case lookup_file fs p of None \<Rightarrow> [] | Some t \<Rightarrow> t), fs)"
  by (simp add: read_text_or_default_def read_to_string_def os_not_found_def split: option.splits)

text \<open>At most one file of a directory has the backup name, so pruning removes nothing.\<close>

definition normal_path :: "ustr \<Rightarrow> bool" where
  "normal_path q \<longleftrightarrow>
     (case (path_parent q, path_file_name q) of
        (Some d, Some n) \<Rightarrow> q = path_push d n
      | _ \<Rightarrow> False)"

definition fs_ok :: "file_system \<Rightarrow> bool" where
  "fs_ok fs \<longleftrightarrow> distinct (map fst (fs_files fs)) \<and> (\<forall>q \<in> fst ` set (fs_files fs). normal_path q) \<and>
     (\<forall>p e. fs_read_fault fs p = Some e \<longrightarrow> ie_kind e \<noteq> Not_Found)"

lemma lookup_dom: "lookup_file fs q \<noteq> None \<longleftrightarrow> q \<in> fst ` set (fs_files fs)"
  using dom_map_of_conv_image_fst [of "fs_files fs"] by (auto simp: lookup_file_def dom_def)

lemma read_fault_kind: "fs_ok fs \<Longrightarrow> fs_read_fault fs p = Some e \<Longrightarrow> ie_kind e \<noteq> Not_Found"
  by (simp add: fs_ok_def)

lemma fs_ok_put: "fs_ok fs \<Longrightarrow> normal_path p \<Longrightarrow> fs_ok (put_file p t fs)"
  by (auto simp: fs_ok_def put_file_def distinct_update dom_update)

lemma fs_ok_drop:
  assumes "fs_ok fs"
  shows "fs_ok (drop_file p fs)"
proof -
  have "normal_path q" if "q \<in> fst ` set (AList.delete p (fs_files fs))" for q
    using that assms dom_delete_subset [of p "fs_files fs"] unfolding fs_ok_def by blast
  then show ?thesis using assms by (simp add: fs_ok_def drop_file_def distinct_delete)
qed

lemma filter_unique_length:
  "distinct xs \<Longrightarrow> (\<And>x y. x \<in> set xs \<Longrightarrow> y \<in> set xs \<Longrightarrow> P x \<Longrightarrow> P y \<Longrightarrow> x = y) \<Longrightarrow> length (filter P xs) \<le> 1"
proof (induction xs)
  case (Cons x xs)
  show ?case
  proof (cases "P x")
    case True
    then have "filter P xs = []" using Cons.prems by (fastforce simp: filter_empty_conv)
    then show ?thesis by simp
  next
    case False
    then show ?thesis using Cons by simp
  qed
qed simp

lemma prune_nothing:
  assumes "fs_ok fs" and "prune_backup_files p (Suc k) fs = (r, fs')"
  shows "fs' = fs"
proof -
  let ?d = "parent_or_dot p" and ?n = "backup_name p"
  let ?es = "filter (\<lambda>q. path_parent q = Some ?d) (map fst (fs_files fs))"
  have "length (filter (\<lambda>q. path_file_name q = Some ?n) ?es) \<le> 1"
  proof (rule filter_unique_length)
    show "distinct ?es" using assms(1) by (simp add: fs_ok_def)
    show "x = y" if "x \<in> set ?es" "y \<in> set ?es" "path_file_name x = Some ?n" "path_file_name y = Some ?n" for x y
    proof -
      have "normal_path x" "normal_path y" "path_parent x = Some ?d" "path_parent y = Some ?d"
        using that(1,2) assms(1) by (auto simp: fs_ok_def)
      then show ?thesis using that(3,4) by (simp add: normal_path_def)
    qed
  qed
  then have "drop (Suc k) (backup_entries ?n ?es fs) = []"
    by (simp add: backup_entries_def)
  then show ?thesis using assms(2)
    by (auto simp: prune_backup_files_def read_dir_def io_bind_def io_return_def
        split: if_splits option.splits)
qed

text \<open>A backup leaves everything but the backup file alone, which then holds the saved text.\<close>

lemma backup_file_outcome:
  assumes "fs_ok fs" and "normal_path (backup_path p)" and "backup_path p \<noteq> p"
    and "backup_file p fs = (r, fs')"
  shows "files.agree_except {backup_path p} fs fs' \<and> same_faults fs fs' \<and> fs_ok fs' \<and>
    (r = Inr () \<longrightarrow> lookup_file fs' (backup_path p) =
       (if fs_exists fs p then lookup_file fs p else lookup_file fs (backup_path p)))"
proof (cases "lookup_file fs p")
  case None
  then show ?thesis using assms by (auto simp: backup_file_def fs_exists_def files.agree_refl)
next
  case (Some old)
  let ?b = "backup_path p"
  have ok: "fs_ok (put_file ?b x fs)" for x using assms(1,2) by (rule fs_ok_put)
  have prune: "prune_backup_files p (Suc 0) (put_file ?b x fs) = (q,
    fs2) \<Longrightarrow> fs2 = put_file ?b x fs" for x q fs2
    using prune_nothing [OF ok, of p 0] by simp
  show ?thesis using assms(1,3,4) Some ok
    by (auto simp: backup_file_def fs_exists_def fs_copy_def io_bind_def read_to_string_def fs_write_def
        files.agree_put files.agree_refl split: option.splits sum.splits prod.splits if_splits dest!: prune)
qed

definition savable :: "ustr \<Rightarrow> bool" where
  "savable p \<longleftrightarrow> normal_path p \<and> normal_path (tmp_path p) \<and> normal_path (backup_path p) \<and>
     backup_path p \<noteq> p \<and> backup_path p \<noteq> tmp_path p"

definition save_paths :: "ustr \<Rightarrow> ustr set" where
  "save_paths p = {p, tmp_path p, backup_path p}"

lemma fs_ok_write_atomic:
  assumes "fs_ok fs" and "normal_path p" and "normal_path (tmp_path p)"
    and "write_text_atomic p t fs = (r, fs')"
  shows "fs_ok fs'"
  using assms
  by (auto simp: write_text_atomic_def io_bind_def io_return_def io_fail_def io_ignore_def create_dir_all_def
      fs_write_def fs_rename_def fs_remove_file_def fs_ok_put fs_ok_drop
      split: option.splits sum.splits prod.splits if_splits)

lemma write_with_backup_cases:
  assumes "write_text_with_backup_if_changed p t fs = (r, fs')"
  obtains (read) e where "r = Inl e" "fs' = fs"
    | (same) "r = Inr ()" "fs' = fs" "read_text_or_default p fs = (Inr t, fs)"
    | (backup) e where "r = Inl e" "fs_exists fs p" "backup_file p fs = (Inl e, fs')"
    | (written) fs1 where "(if fs_exists fs p then backup_file p else io_return ()) fs = (Inr (), fs1)"
        "write_text_atomic p t fs1 = (r, fs')"
proof -
  obtain c fs0 where c: "read_text_or_default p fs = (c, fs0)" by fastforce
  have fs0: "fs0 = fs" by (rule read_text_or_default_pure [OF c])
  show ?thesis
  proof (cases c)
    case (Inl e)
    then have "(r, fs') = (Inl e, fs)" using assms c fs0
      by (simp add: write_text_with_backup_if_changed_def io_bind_def)
    then show ?thesis using read by blast
  next
    case (Inr current)
    show ?thesis
    proof (cases "current = t")
      case True
      then show ?thesis using assms c fs0 Inr same
        by (simp add: write_text_with_backup_if_changed_def io_bind_def)
    next
      case False
      obtain b fs1 where b: "(if fs_exists fs p then backup_file p else io_return ()) fs = (b, fs1)"
        by fastforce
      show ?thesis
      proof (cases b)
        case (Inl e)
        then show ?thesis using assms c fs0 Inr False b backup
          by (auto simp: write_text_with_backup_if_changed_def io_bind_def io_return_def split: if_splits)
      next
        case (Inr u)
        then show ?thesis using assms c fs0 \<open>c = Inr current\<close> False b written
          by (simp add: write_text_with_backup_if_changed_def io_bind_def)
      qed
    qed
  qed
qed

lemma backup_step:
  assumes "fs_ok fs" and "savable p"
    and "(if fs_exists fs p then backup_file p else io_return ()) fs = (Inr (), fs1)"
  shows "fs_ok fs1 \<and> same_faults fs fs1 \<and> files.agree_except {backup_path p} fs fs1 \<and>
    (\<forall>old. lookup_file fs p = Some old \<longrightarrow> lookup_file fs1 (backup_path p) = Some old)"
proof (cases "fs_exists fs p")
  case True
  then have "backup_file p fs = (Inr (), fs1)" using assms(3) by simp
  from backup_file_outcome [OF assms(1) _ _ this] show ?thesis
    using assms(2) True by (auto simp: savable_def fs_exists_def)
next
  case False
  then show ?thesis using assms
    by (auto simp: io_return_def fs_exists_def files.agree_refl)
qed

lemma write_with_backup_frame:
  assumes "fs_ok fs" and "savable p" and "write_text_with_backup_if_changed p t fs = (r, fs')"
  shows "fs_ok fs' \<and> same_faults fs fs' \<and> files.agree_except (save_paths p) fs fs'"
  using assms(3)
proof (cases rule: write_with_backup_cases)
  case (backup e)
  from backup_file_outcome [OF assms(1) _ _ backup(3)] assms(2) show ?thesis
    by (auto simp: savable_def save_paths_def intro: files.agree_mono)
next
  case (written fs1)
  note b = backup_step [OF assms(1,2) written(1)]
  note w = write_text_atomic_frame [OF written(2)]
  have "fs_ok fs'" using b assms(2) by (intro fs_ok_write_atomic [OF _ _ _ written(2)]) (simp_all add: savable_def)
  moreover have "files.agree_except (save_paths p) fs fs1" "files.agree_except (save_paths p) fs1 fs'"
    using b w by (auto simp: save_paths_def intro: files.agree_mono)
  ultimately show ?thesis using b w by (blast intro: files.agree_trans same_faults_trans)
qed (use assms(1) in \<open>simp_all add: files.agree_refl\<close>)

lemma written_backup:
  assumes "fs_ok fs" and "savable p" and "(if fs_exists fs p then backup_file p else io_return ()) fs = (Inr (), fs1)"
    and "write_text_atomic p t fs1 = (r, fs')" and "lookup_file fs p = Some old"
  shows "lookup_file fs' (backup_path p) = Some old"
proof -
  have "backup_path p \<notin> {p, tmp_path p}" using assms(2) by (auto simp: savable_def)
  then have "lookup_file fs' (backup_path p) = lookup_file fs1 (backup_path p)"
    using write_text_atomic_frame [OF assms(4)] by (simp add: files.agree_except_def)
  then show ?thesis using backup_step [OF assms(1-3)] assms(5) by simp
qed

text \<open>A file holds a text, or the text is empty and the file is not there.\<close>

definition saved_as :: "ustr \<Rightarrow> ustr \<Rightarrow> file_system \<Rightarrow> bool" where
  "saved_as p t fs \<longleftrightarrow> lookup_file fs p = Some t \<or> t = [] \<and> lookup_file fs p = None"

lemma read_saved:
  "fs_ok fs \<Longrightarrow> saved_as p t fs \<Longrightarrow> read_text_or_default p fs = (Inr x, fs') \<Longrightarrow> x = t"
  using read_fault_kind [of fs p]
  by (auto simp: saved_as_def read_text_or_default_def read_to_string_def split: option.splits if_splits)

lemma saved_text:
  assumes "fs_ok fs" and "savable p" and "write_text_with_backup_if_changed p t fs = (Inr (), fs')"
  shows "saved_as p t fs'"
  using assms(3)
proof (cases rule: write_with_backup_cases)
  case same
  then show ?thesis using read_fault_kind [OF assms(1), of p]
    by (auto simp: saved_as_def read_text_or_default_def read_to_string_def split: option.splits if_splits)
next
  case (written fs1)
  have "lookup_file fs' p = Some t" by (rule write_text_atomic_outcome [OF written(2)]) auto
  then show ?thesis by (simp add: saved_as_def)
qed simp_all

text \<open>C11: A save that reports success leaves the new text in the file, the replaced text in the
  backup, and every other file as it was.\<close>

theorem save_result:
  assumes "fs_ok fs" and "savable p"
    and "write_text_with_backup_if_changed p t fs = (Inr (), fs')"
  shows "(lookup_file fs' p = Some t \<or> t = [] \<and> lookup_file fs' p = None) \<and>
    (\<forall>old. lookup_file fs p = Some old \<longrightarrow> old \<noteq> t \<longrightarrow> lookup_file fs' (backup_path p) = Some old) \<and>
    (\<forall>q. q \<notin> save_paths p \<longrightarrow> lookup_file fs' q = lookup_file fs q)"
proof -
  have "lookup_file fs' (backup_path p) = Some old" if "lookup_file fs p = Some old" "old \<noteq> t" for old
    using assms(3)
  proof (cases rule: write_with_backup_cases)
    case same
    then show ?thesis using read_saved [OF assms(1), of p old] that by (auto simp: saved_as_def)
  qed (use written_backup [OF assms(1,2) _ _ that(1)] in auto)
  then show ?thesis
    using saved_text [OF assms] write_with_backup_frame [OF assms]
    by (auto simp: saved_as_def files.agree_except_def)
qed

text \<open>C4: Whatever failures the file system reports, after a save of a file the previous text is
  still in the file or in its backup.\<close>

theorem save_never_loses_text:
  assumes "fs_ok fs" and "savable p" and "lookup_file fs p = Some old"
    and "write_text_with_backup_if_changed p t fs = (r, fs')"
  shows "lookup_file fs' p = Some old \<or> lookup_file fs' (backup_path p) = Some old"
  using assms(4)
proof (cases rule: write_with_backup_cases)
  case (backup e)
  from backup_file_outcome [OF assms(1) _ _ backup(3)] assms(2,3) show ?thesis
    by (auto simp: savable_def files.agree_except_def)
next
  case (written fs1)
  then show ?thesis using written_backup [OF assms(1,2) _ _ assms(3)] by blast
qed (use assms(3) in simp_all)

section \<open>Witnesses\<close>

definition sample_path :: ustr where
  "sample_path = lit ''/etc/smartdns/conf.d/30-cache.conf''"

definition file_system_with :: "(ustr \<times> ustr) list \<Rightarrow> file_system" where
  "file_system_with files =
     \<lparr>fs_files = files, fs_mtime = (\<lambda>_. 0), fs_canonical = Map.empty,
       fs_read_fault = Map.empty,
      fs_write_fault = Map.empty, fs_rename_fault = Map.empty, fs_mkdir_fault = Map.empty,
      fs_list_fault = Map.empty\<rparr>"

lemma fs_ok_with:
  "distinct (map fst files) \<Longrightarrow> list_all (\<lambda>f. normal_path (fst f)) files \<Longrightarrow> fs_ok (file_system_with files)"
  by (auto simp: fs_ok_def file_system_with_def list_all_iff)

definition sample_fs :: file_system where
  "sample_fs = file_system_with [(sample_path, lit ''cache-size 1'')]"

lemma sample_fs_ok: "fs_ok sample_fs" "savable sample_path"
  "lookup_file sample_fs sample_path = Some (lit ''cache-size 1'')"
  unfolding sample_fs_def by (rule fs_ok_with; code_simp) code_simp+

theorem save_result_witness:
  "\<exists>fs'. write_text_with_backup_if_changed sample_path (lit ''cache-size 2'') sample_fs = (Inr (), fs') \<and>
     lookup_file fs' sample_path = Some (lit ''cache-size 2'') \<and>
     lookup_file fs' (backup_path sample_path) = Some (lit ''cache-size 1'')"
proof -
  let ?w = "write_text_with_backup_if_changed sample_path (lit ''cache-size 2'') sample_fs"
  have "fst ?w = Inr ()" by code_simp
  then have w: "?w = (Inr (), snd ?w)" by (simp add: prod_eq_iff)
  show ?thesis using save_result [OF sample_fs_ok(1,2) w] sample_fs_ok(3) w by auto
qed

theorem save_never_loses_text_witness:
  "\<exists>r fs'. write_text_with_backup_if_changed sample_path (lit ''cache-size 2'') sample_fs = (r,
    fs') \<and>
     (lookup_file fs' sample_path = Some (lit ''cache-size 1'') \<or>
      lookup_file fs' (backup_path sample_path) = Some (lit ''cache-size 1''))"
proof -
  obtain r fs' where w: "write_text_with_backup_if_changed sample_path (lit ''cache-size 2'') sample_fs = (r, fs')"
    by fastforce
  show ?thesis using save_never_loses_text [OF sample_fs_ok w] w by blast
qed
end
