(* ===== verification/Config_Sources.thy ===== *)
theory Config_Sources
  imports Files
begin

text \<open>
  How \<open>src/src/config_ui.rs\<close> collects the main configuration file and everything it includes:
  \<open>collect_config_sources\<close>, \<open>collect_config_source_recursive\<close> and \<open>resolve_include_path\<close>. The
  recursion is bounded by fuel here; \<open>collect_enough_fuel\<close> shows that the visited set bounds its
  depth, so the program's recursion ends on every file system, include cycles included.
\<close>

record config_source =
  cs_path :: ustr
  cs_text :: ustr
  cs_implicit_group :: "ustr option"

definition resolve_include_path :: "ustr \<Rightarrow> ustr \<Rightarrow> ustr" where
  "resolve_include_path base_file include_value =
     (if path_is_absolute include_value then include_value
      else path_push (parent_or_dot base_file) include_value)"

definition canonicalize :: "file_system \<Rightarrow> ustr \<Rightarrow> ustr" where
  "canonicalize fs path = (case fs_canonical fs path of None \<Rightarrow> path | Some p \<Rightarrow> p)"

definition group_or_empty :: "ustr option \<Rightarrow> ustr" where
  "group_or_empty g = (case g of None \<Rightarrow> [] | Some n \<Rightarrow> n)"

definition visit_key :: "ustr \<Rightarrow> ustr option \<Rightarrow> ustr" where
  "visit_key canonical implicit_group = canonical @ lit ''::'' @ group_or_empty implicit_group"

text \<open>The \<open>conf-file\<close> directives of a text: the file and the \<open>-group\<close> option of each.\<close>

definition conf_includes :: "ustr \<Rightarrow> (ustr \<times> ustr option) list" where
  "conf_includes text =
     map (\<lambda>(key, v). (first_word v, parse_named_option v (lit ''-group'')))
       (filter (\<lambda>(key, v). \<not> (key \<noteq> lit ''conf-file'' \<or> v = [])) (config_entries text))"

type_synonym collected = "ustr set \<times> config_source list"

fun collect :: "nat \<Rightarrow> file_system \<Rightarrow> ustr \<Rightarrow> ustr option \<Rightarrow> collected \<Rightarrow>
    (io_error, collected) result option"
  and collect_includes :: "nat \<Rightarrow> file_system \<Rightarrow> ustr \<Rightarrow> (ustr \<times> ustr option) list \<Rightarrow> collected \<Rightarrow>
    (io_error, collected) result option" where
  "collect 0 fs path implicit_group st = None"
| "collect (Suc n) fs path implicit_group (visited, items) =
     (let canonical = canonicalize fs path; key = visit_key canonical implicit_group
      in if key \<in> visited then Some (Inr (visited, items))
         else case fst (read_text_or_default canonical fs) of
                Inl e \<Rightarrow> Some (Inl e)
              | Inr text \<Rightarrow>
                  collect_includes n fs canonical (conf_includes text)
                    (insert key visited,
                     items @ [\<lparr>cs_path = canonical, cs_text = text,
                       cs_implicit_group = implicit_group\<rparr>]))"
| "collect_includes n fs base [] st = Some (Inr st)"
| "collect_includes n fs base ((include_file, include_group) # rest) st =
     (let include_path = resolve_include_path base include_file
      in if fs_exists fs include_path then
           (case collect n fs include_path include_group st of
              None \<Rightarrow> None
            | Some (Inl e) \<Rightarrow> Some (Inl e)
            | Some (Inr st') \<Rightarrow> collect_includes n fs base rest st')
         else collect_includes n fs base rest st)"

text \<open>The files that can be visited, the groups they can be included under,
  and the keys of both.\<close>

definition reachable_texts :: "file_system \<Rightarrow> ustr set" where
  "reachable_texts fs = insert [] (snd ` set (fs_files fs))"

definition include_groups :: "file_system \<Rightarrow> ustr option set" where
  "include_groups fs = insert None (\<Union>t \<in> reachable_texts fs. snd ` set (conf_includes t))"

definition reachable_paths :: "file_system \<Rightarrow> ustr \<Rightarrow> ustr set" where
  "reachable_paths fs root = insert root (fst ` set (fs_files fs))"

definition reachable_keys :: "file_system \<Rightarrow> ustr \<Rightarrow> ustr set" where
  "reachable_keys fs root =
     (\<lambda>(p, g). visit_key (canonicalize fs p) g) ` (reachable_paths fs root \<times> include_groups fs)"

definition include_fuel :: "file_system \<Rightarrow> ustr \<Rightarrow> nat" where
  "include_fuel fs root = Suc (card (reachable_keys fs root))"

definition collect_config_sources :: "ustr \<Rightarrow> config_source list io" where
  "collect_config_sources config_file fs =
     (case collect (include_fuel fs config_file) fs config_file None ({}, []) of
        None \<Rightarrow> (Inr [], fs)
      | Some (Inl e) \<Rightarrow> (Inl e, fs)
      | Some (Inr (visited, items)) \<Rightarrow> (Inr items, fs))"

lemma finite_keys: "finite (reachable_keys fs root)"
  by (simp add: reachable_keys_def reachable_paths_def include_groups_def reachable_texts_def)

lemma read_text_reachable:
  "fst (read_text_or_default p fs) = Inr t \<Longrightarrow> t \<in> reachable_texts fs"
  by (auto simp: read_text_or_default_def read_to_string_def reachable_texts_def lookup_file_def
      split: option.splits if_splits dest!: map_of_SomeD) force+

lemma exists_reachable: "fs_exists fs p \<Longrightarrow> p \<in> reachable_paths fs root"
  using lookup_dom [of fs p] by (simp add: fs_exists_def reachable_paths_def)

lemma key_reachable:
  "p \<in> reachable_paths fs root \<Longrightarrow> g \<in> include_groups fs \<Longrightarrow>
     visit_key (canonicalize fs p) g \<in> reachable_keys fs root"
  by (auto simp: reachable_keys_def)

lemma collect_includes_step:
  assumes "collect_includes n fs base ((f, g) # rest) st = Some (Inr st')"
  shows "(\<not> fs_exists fs (resolve_include_path base f) \<and> collect_includes n fs base rest st = Some (Inr st')) \<or>
    (fs_exists fs (resolve_include_path base f) \<and>
     (\<exists>st1. collect n fs (resolve_include_path base f) g st = Some (Inr st1) \<and>
       collect_includes n fs base rest st1 = Some (Inr st')))"
  using assms by (cases "collect n fs (resolve_include_path base f) g st")
    (auto simp: Let_def split: if_splits sum.splits)

lemma collect_monotone:
  "collect n fs p g st = Some (Inr st') \<Longrightarrow> fst st \<subseteq> fst st'"
  "collect_includes n fs b xs st = Some (Inr st') \<Longrightarrow> fst st \<subseteq> fst st'"
proof (induction n fs p g st and n fs b xs st arbitrary: st' and st'
    rule: collect_collect_includes.induct)
  case (2 n fs path grp visited items)
  then show ?case by (auto simp: Let_def split: if_splits sum.splits)
next
  case (4 n fs base f g rest st)
  from collect_includes_step [OF "4.prems"] show ?case
  proof (elim disjE conjE exE)
    assume n: "\<not> fs_exists fs (resolve_include_path base f)"
      and r: "collect_includes n fs base rest st = Some (Inr st')"
    show ?thesis by (rule 4(3) [OF refl n r])
  next
    fix st1 assume e: "fs_exists fs (resolve_include_path base f)"
      and c: "collect n fs (resolve_include_path base f) g st = Some (Inr st1)"
      and r: "collect_includes n fs base rest st1 = Some (Inr st')"
    have "fst st \<subseteq> fst st1" by (rule 4(1) [OF refl e c])
    moreover have "fst st1 \<subseteq> fst st'" by (rule 4(2) [OF refl e c refl r])
    ultimately show ?thesis by blast
  qed
qed auto

lemma enough_fuel:
  "p \<in> reachable_paths fs root \<Longrightarrow> g \<in> include_groups fs \<Longrightarrow>
     card (reachable_keys fs root - fst st) < n \<Longrightarrow> collect n fs p g st \<noteq> None"
  "snd ` set xs \<subseteq> include_groups fs \<Longrightarrow>
     card (reachable_keys fs root - fst st) < n \<Longrightarrow> collect_includes n fs b xs st \<noteq> None"
proof (induction n fs p g st and n fs b xs st rule: collect_collect_includes.induct)
  case (2 n fs path grp visited items)
  let ?c = "canonicalize fs path" and ?k = "visit_key (canonicalize fs path) grp"
  show ?case
  proof (cases "?k \<in> visited \<or> (\<exists>e. fst (read_text_or_default ?c fs) = Inl e)")
    case False
    then obtain t where k: "?k \<notin> visited" and t: "fst (read_text_or_default ?c fs) = Inr t"
      by (cases "fst (read_text_or_default ?c fs)") auto
    have "?k \<in> reachable_keys fs root - visited" using key_reachable 2(2,3) k by blast
    then have "card (reachable_keys fs root - insert ?k visited) < card (reachable_keys fs root - visited)"
      using finite_keys by (metis Diff_insert card_Diff1_less finite_Diff)
    then have c: "card (reachable_keys fs root - fst (insert ?k visited, items @
        [\<lparr>cs_path = ?c, cs_text = t, cs_implicit_group = grp\<rparr>])) < n" using 2(4) by simp
    have g: "snd ` set (conf_includes t) \<subseteq> include_groups fs"
      using read_text_reachable [OF t] by (auto simp: include_groups_def)
    from 2(1) [OF refl refl k t g c] show ?thesis using k t by (simp add: Let_def)
  qed (auto simp: Let_def)
next
  case (4 n fs base f g rest st)
  let ?p = "resolve_include_path base f"
  show ?case
  proof (cases "fs_exists fs ?p")
    case True
    have "collect n fs ?p g st \<noteq> None"
      using 4(1) [OF refl True exists_reachable [OF True]] "4.prems" by simp
    then consider (err) e where "collect n fs ?p g st = Some (Inl e)"
      | (ok) st' where "collect n fs ?p g st = Some (Inr st')"
      by (metis not_None_eq sum.exhaust)
    then show ?thesis
    proof cases
      case ok
      have "fst st \<subseteq> fst st'" by (rule collect_monotone(1) [OF ok])
      then have "card (reachable_keys fs root - fst st') \<le> card (reachable_keys fs root - fst st)"
        using finite_keys by (intro card_mono) auto
      then show ?thesis using 4(2) [OF refl True ok refl] "4.prems" ok True by (simp add: Let_def)
    qed (use True in \<open>simp add: Let_def\<close>)
  next
    case False
    then show ?thesis using 4(3) [OF refl False] "4.prems" by (simp add: Let_def)
  qed
qed auto


definition source_key :: "config_source \<Rightarrow> ustr" where
  "source_key s = visit_key (cs_path s) (cs_implicit_group s)"

definition visited_ok :: "collected \<Rightarrow> bool" where
  "visited_ok st \<longleftrightarrow> distinct (map source_key (snd st)) \<and> source_key ` set (snd st) \<subseteq> fst st"

lemma collect_visited:
  "visited_ok st \<Longrightarrow> collect n fs p g st = Some (Inr st') \<Longrightarrow> visited_ok st'"
  "visited_ok st \<Longrightarrow> collect_includes n fs b xs st = Some (Inr st') \<Longrightarrow> visited_ok st'"
proof (induction n fs p g st and n fs b xs st arbitrary: st' and st'
    rule: collect_collect_includes.induct)
  case (2 n fs path grp visited items)
  let ?c = "canonicalize fs path"
  show ?case
  proof (cases "visit_key ?c grp \<in> visited")
    case True
    then show ?thesis using "2.prems" by (simp add: Let_def)
  next
    case False
    then obtain t where t: "fst (read_text_or_default ?c fs) = Inr t"
      using "2.prems"(2) by (auto simp: Let_def split: sum.splits)
    have "visited_ok (insert (visit_key ?c grp) visited,
        items @ [\<lparr>cs_path = ?c, cs_text = t, cs_implicit_group = grp\<rparr>])"
      using "2.prems"(1) False by (auto simp: visited_ok_def source_key_def)
    from "2.IH" [OF refl refl False t this] show ?thesis using "2.prems"(2) False t by (simp add: Let_def)
  qed
next
  case (4 n fs base f g rest st)
  from collect_includes_step [OF "4.prems"(2)] show ?case
  proof (elim disjE conjE exE)
    assume n: "\<not> fs_exists fs (resolve_include_path base f)"
      and r: "collect_includes n fs base rest st = Some (Inr st')"
    show ?thesis by (rule 4(3) [OF refl n "4.prems"(1) r])
  next
    fix st1 assume e: "fs_exists fs (resolve_include_path base f)"
      and c: "collect n fs (resolve_include_path base f) g st = Some (Inr st1)"
      and r: "collect_includes n fs base rest st1 = Some (Inr st')"
    have "visited_ok st1" by (rule 4(1) [OF refl e "4.prems"(1) c])
    then show ?thesis by (rule 4(2) [OF refl e c refl _ r])
  qed
qed auto

text \<open>No file is collected twice under the same implicit group.\<close>

theorem sources_distinct:
  "collect_config_sources config_file fs = (Inr items, fs') \<Longrightarrow> distinct (map source_key items)"
  using collect_visited(1) [of "({}, [])"]
  by (auto simp: collect_config_sources_def visited_ok_def split: option.splits sum.splits prod.splits)


section \<open>Witness\<close>

text \<open>A main file that includes a second file, which includes the main file again.\<close>

definition cyclic_fs :: file_system where
  "cyclic_fs = file_system_with
     [(lit ''/etc/a.conf'', lit ''conf-file b.conf -group kids''), (lit ''/etc/b.conf'',
       lit ''conf-file /etc/a.conf'')]"

theorem sources_distinct_witness:
  "\<exists>items fs'. collect_config_sources (lit ''/etc/a.conf'') cyclic_fs = (Inr items, fs') \<and>
     length items = 2 \<and> distinct (map source_key items)"
proof -
  let ?c = "collect_config_sources (lit ''/etc/a.conf'') cyclic_fs"
  have "(case fst ?c of Inl e \<Rightarrow> False | Inr items \<Rightarrow> length items = 2)" by code_simp
  then obtain items where i: "?c = (Inr items, snd ?c)" "length items = 2"
    by (auto simp: prod_eq_iff split: sum.splits)
  show ?thesis using sources_distinct [OF i(1)] i by metis
qed
end
