(* ===== verification/Rule_Assets.thy ===== *)
theory Rule_Assets
  imports Config_Sources
begin

text \<open>
  What \<open>src/src/config_ui.rs\<close> derives from the collected sources: \<open>parse_routing_items\<close>,
  \<open>build_rule_set_assets\<close>, \<open>build_rule_group_assets\<close>,
    \<open>build_client_rule_assets\<close>,
  \<open>build_ip_rule_assets\<close>, \<open>build_ip_set_assets\<close>, their descriptions and
  \<open>render_detected_rules_text\<close>; and the rule set files themselves: reading, paging
  (\<open>read_rule_set_detail\<close>, \<open>read_ip_set_detail\<close>),
    editing (\<open>save_rule_set_file\<close>,
  \<open>save_ip_set_file\<close>). \<open>str::to_lowercase\<close> needs the Unicode tables and is an argument.
\<close>

section \<open>Records\<close>

record routing_rule_item =
  rr_rule_type :: ustr
  rr_target :: ustr
  rr_value :: ustr
  rr_source :: ustr
  rr_note :: ustr

record rule_set_asset =
  rs_name :: ustr
  rs_set_type :: ustr
  rs_file :: ustr
  rs_source :: ustr
  rs_rule_count :: nat
  rs_sample_items :: "ustr list"
  rs_referenced_by :: "ustr list"

record rule_set_file_detail =
  rd_name :: ustr
  rd_set_type :: ustr
  rd_file :: ustr
  rd_source :: ustr
  rd_exists :: bool
  rd_rule_count :: nat
  rd_filtered_count :: nat
  rd_offset :: nat
  rd_limit :: nat
  rd_has_more :: bool
  rd_items :: "ustr list"
  rd_sample_items :: "ustr list"
  rd_referenced_by :: "ustr list"

record rule_group_asset =
  rg_name :: ustr
  rg_inherit :: ustr
  rg_source :: ustr
  rg_include_file :: ustr
  rg_matchers :: "ustr list"
  rg_rule_count :: nat

record client_rule_asset =
  cr_matcher :: ustr
  cr_group_name :: ustr
  cr_source :: ustr
  cr_note :: ustr

record ip_rule_asset =
  ir_rule_type :: ustr
  ir_target :: ustr
  ir_options :: ustr
  ir_group_name :: ustr
  ir_source :: ustr
  ir_note :: ustr

record ip_set_asset =
  is_name :: ustr
  is_file :: ustr
  is_source :: ustr
  is_rule_count :: nat
  is_sample_items :: "ustr list"
  is_referenced_by :: "ustr list"

record save_rule_set_request =
  sr_add_items :: "ustr list"
  sr_remove_items :: "ustr list"

section \<open>Routing items\<close>

definition describe_target_hint :: "ustr \<Rightarrow> ustr \<Rightarrow> ustr" where
  "describe_target_hint v fallback =
     (if str_contains (lit ''domain-set:'') v then [25226, 19968, 20010, 22495, 21517, 38598, 21512,
       25972, 20307, 23548, 21521, 25351, 23450, 19978, 28216, 32452]
      else if str_contains (lit ''/.cn/'') v then [25226, 21629, 20013, 30340, 39030, 32423, 22495,
        21517, 25110, 27169, 24335, 23548, 21521, 25351, 23450, 19978, 28216, 32452]
      else fallback)"

definition routing_item :: "ustr \<Rightarrow> ustr \<times> ustr \<Rightarrow> routing_rule_item list" where
  "routing_item source entry =
     (let (key, v) = entry
      in if v = [] then []
         else if key = lit ''nameserver'' then
           (let (target, server_group) = split_target_value v
            in [\<lparr>rr_rule_type = key, rr_target = target, rr_value = server_group, rr_source = source,
                 rr_note = describe_target_hint v [25226, 22495, 21517, 25110, 35268, 21017, 38598,
                   23548, 21521, 25351, 23450, 19978, 28216, 32452]\<rparr>])
         else if key = lit ''domain-rules'' then
           (let (target, options) = split_target_options v
            in [\<lparr>rr_rule_type = key, rr_target = target, rr_value = options, rr_source = source,
                 rr_note = ([32473, 22495, 21517, 25110, 35268, 21017, 38598, 38468, 21152, 34892,
                   20026, 65292, 20363, 22914, 31105, 32531, 23384, 12289, 31105] @ lit '' IPv6'' @
                     [12289, 25913, 27979, 36895])\<rparr>])
         else if key = lit ''address'' then
           (let (target, address) = split_target_value v
            in [\<lparr>rr_rule_type = key, rr_target = target, rr_value = address, rr_source = source,
                 rr_note = [32473, 22495, 21517, 25110, 35268, 21017, 38598, 30452, 25509, 36820, 22238,
                   22266, 23450, 22320, 22336, 25110, 31354, 22320, 22336]\<rparr>])
         else if key = lit ''cname'' then
           (let (target, cname) = split_target_value v
            in [\<lparr>rr_rule_type = key, rr_target = target, rr_value = cname, rr_source = source,
                 rr_note = ([25226, 26597, 35810, 32467, 26524, 25913, 20889, 20026, 25351, 23450] @
                   lit '' CNAME'')\<rparr>])
         else if key = lit ''domain-set'' then
           (case parse_named_option v (lit ''-name'') of
              None \<Rightarrow> []
            | Some name \<Rightarrow>
                (let set_type = (case parse_named_option v (lit ''-type'') of None \<Rightarrow> lit ''list'' | Some t \<Rightarrow> t);
                     file = (case parse_named_option v (lit ''-file'') of None \<Rightarrow> [] | Some f \<Rightarrow> f)
                 in [\<lparr>rr_rule_type = key, rr_target = name,
                      rr_value = lit ''type='' @ set_type @ lit '' file='' @ file, rr_source = source,
                      rr_note = ([23450, 20041, 19968, 20010, 21487, 34987] @ lit '' nameserver '' @
                        [25110] @ lit '' domain-rules '' @ [24341, 29992, 30340, 22495, 21517, 38598,
                          21512])\<rparr>]))
         else [])"

definition parse_routing_items :: "config_source list \<Rightarrow> routing_rule_item list" where
  "parse_routing_items sources =
     concat (map (\<lambda>s. concat (map (routing_item (cs_path s)) (config_entries (cs_text s)))) sources)"

definition render_detected_rules_text :: "routing_rule_item list \<Rightarrow> ustr" where
  "render_detected_rules_text items =
     (if items = [] then ([24403, 21069, 27809, 26377, 20174, 20027, 37197, 32622, 25110] @
       lit '' conf-file '' @ [20013, 26816, 27979, 21040, 20998, 27969, 35268, 21017, 12290])
      else join [10]
        ([lit ''# Detected by smartdns-plus-ui'',
          (lit ''# '' @ [19979, 38754, 26159, 20174, 24403, 21069, 20027, 37197, 32622, 21644] @
            lit '' conf-file '' @ [20013, 35782, 21035, 20986, 26469, 30340, 29616, 26377, 35268, 21017,
              65292, 21482, 35835, 23637, 31034, 65292, 19981, 20250, 30452, 25509, 35206, 30422, 21407,
                25991, 20214, 12290]), []] @
         concat (map (\<lambda>item.
           [rr_rule_type item @ [32] @ rr_target item @
              (if trim (rr_value item) = [] then [] else 32 # trim (rr_value item)),
            lit ''# source: '' @ rr_source item] @
           (if trim (rr_note item) \<noteq> [] then [lit ''# note: '' @ rr_note item] else []) @
             [[]]) items)))"

section \<open>Rule set files\<close>

definition set_item_lines :: "ustr list \<Rightarrow> ustr list" where
  "set_item_lines ls = filter (\<lambda>l. l \<noteq> [] \<and> \<not> starts_with [35] l) (map trim ls)"

definition read_rule_set_items :: "ustr \<Rightarrow> ustr list io" where
  "read_rule_set_items path =
     io_bind (read_text_or_default path) (\<lambda>text. io_return (set_item_lines (str_lines text)))"

definition inspect_rule_set_file :: "file_system \<Rightarrow> ustr \<Rightarrow> nat \<times> ustr list" where
  "inspect_rule_set_file fs path =
     (if trim path = [] then (0, [])
      else case fst (read_rule_set_items path fs) of
             Inl e \<Rightarrow> (0, [])
           | Inr items \<Rightarrow> (length items, take 5 items))"

definition rule_reference :: "ustr \<Rightarrow> ustr \<Rightarrow> ustr \<Rightarrow> ustr" where
  "rule_reference rule_type target v =
     rule_type @ lit '' -> '' @ target @ (if v = [] then [] else lit '' ('' @ v @ lit '')'')"

definition build_rule_set_assets :: "file_system \<Rightarrow> routing_rule_item list \<Rightarrow> rule_set_asset list" where
  "build_rule_set_assets fs items =
     map (\<lambda>item.
       (let (set_type, file) = parse_domain_set_value (rr_value item);
            (rule_count, sample_items) = inspect_rule_set_file fs file;
            expected = lit ''domain-set:'' @ rr_target item
        in \<lparr>rs_name = rr_target item, rs_set_type = set_type, rs_file = file,
          rs_source = rr_source item,
            rs_rule_count = rule_count, rs_sample_items = sample_items,
            rs_referenced_by =
              map (\<lambda>c. rule_reference (rr_rule_type c) (rr_target c) (rr_value c))
                (filter (\<lambda>c. str_contains expected (rr_target c))
                  (filter (\<lambda>c. rr_rule_type c \<noteq> lit ''domain-set'') items))\<rparr>))
       (filter (\<lambda>x. rr_rule_type x = lit ''domain-set'') items)"

definition normalize_rule_set_items :: "ustr list \<Rightarrow> ustr list" where
  "normalize_rule_set_items items = set_item_lines items"

fun dedupe_items :: "ustr set \<Rightarrow> ustr list \<Rightarrow> ustr list" where
  "dedupe_items seen [] = []"
| "dedupe_items seen (x # xs) =
     (if x \<in> seen then dedupe_items seen xs else x # dedupe_items (insert x seen) xs)"

definition dedupe_rule_set_items :: "ustr list \<Rightarrow> ustr list" where
  "dedupe_rule_set_items items = dedupe_items {} items"

definition render_rule_set_items :: "ustr list \<Rightarrow> ustr" where
  "render_rule_set_items items = (if items = [] then [] else join [10] items @ [10])"

section \<open>Groups, client rules, address rules, address sets\<close>

text \<open>The first pass announces the groups; the second counts matchers and rules with a stack that
  lives across the sources.\<close>

definition group_asset :: "ustr \<Rightarrow> ustr \<Rightarrow> ustr \<Rightarrow> ustr \<Rightarrow> rule_group_asset" where
  "group_asset name inherit source include_file =
     \<lparr>rg_name = name, rg_inherit = inherit, rg_source = source, rg_include_file = include_file,
      rg_matchers = [], rg_rule_count = 0\<rparr>"

definition announced_group :: "ustr \<Rightarrow> ustr \<times> ustr \<Rightarrow> rule_group_asset list" where
  "announced_group source entry =
     (let (key, v) = entry
      in if key = lit ''group-begin'' then
           [group_asset (first_word v) (group_or_empty (parse_named_option v (lit ''-inherit''))) source []]
         else if key = lit ''conf-file'' then
           (case parse_named_option v (lit ''-group'') of
              None \<Rightarrow> []
            | Some group_name \<Rightarrow> [group_asset group_name [] source (first_word v)])
         else [])"

type_synonym group_stack = "rule_group_asset list"

text \<open>The stack grows at its head; \<open>last_mut\<close> is the head.\<close>

fun on_top :: "(rule_group_asset \<Rightarrow> rule_group_asset) \<Rightarrow> group_stack \<Rightarrow> group_stack" where
  "on_top f [] = []"
| "on_top f (g # gs) = f g # gs"

fun pop_group :: "group_stack \<times> rule_group_asset list \<Rightarrow> group_stack \<times> rule_group_asset list" where
  "pop_group ([], realized) = ([], realized)"
| "pop_group (g # stack, realized) = (stack, realized @ [g])"

definition group_entry ::
  "ustr \<Rightarrow> group_stack \<times> rule_group_asset list \<Rightarrow> ustr \<times> ustr \<Rightarrow> group_stack \<times> rule_group_asset list" where
  "group_entry source st entry =
     (let (stack, realized) = st; (key, v) = entry
      in if key = lit ''group-begin'' then
           (group_asset (first_word v) (group_or_empty (parse_named_option v (lit ''-inherit''))) source [] # stack,
            realized)
         else if key = lit ''group-match'' then
           (on_top (\<lambda>g. g\<lparr>rg_matchers := rg_matchers g @ [v]\<rparr>) stack, realized)
         else if key = lit ''group-end'' then pop_group st
         else (on_top (\<lambda>g. g\<lparr>rg_rule_count := rg_rule_count g + 1\<rparr>) stack, realized))"

definition group_source ::
  "group_stack \<times> rule_group_asset list \<Rightarrow> config_source \<Rightarrow> group_stack \<times> rule_group_asset list" where
  "group_source st source =
     (let st1 = (case cs_implicit_group source of
                   None \<Rightarrow> st
                 | Some g \<Rightarrow> (group_asset g [] (cs_path source) (cs_path source) # fst st,
                   snd st));
          st2 = foldl (group_entry (cs_path source)) st1 (config_entries (cs_text source))
      in if cs_implicit_group source \<noteq> None then pop_group st2 else st2)"

definition same_group :: "rule_group_asset \<Rightarrow> rule_group_asset \<Rightarrow> bool" where
  "same_group a d \<longleftrightarrow> rg_name a = rg_name d \<and> rg_source a = rg_source d \<and> rg_include_file a = rg_include_file d"

fun merge_group :: "rule_group_asset list \<Rightarrow> rule_group_asset \<Rightarrow> rule_group_asset list" where
  "merge_group [] d = [d]"
| "merge_group (a # as) d =
     (if same_group a d
      then a\<lparr>rg_matchers := rg_matchers d, rg_rule_count := rg_rule_count d,
             rg_inherit := (if rg_inherit a = [] then rg_inherit d else rg_inherit a)\<rparr> # as
      else a # merge_group as d)"

definition build_rule_group_assets :: "config_source list \<Rightarrow> rule_group_asset list" where
  "build_rule_group_assets sources =
     (let announced = concat (map (\<lambda>s. concat (map (announced_group (cs_path s)) (config_entries (cs_text s))))
                        sources);
          realized = snd (foldl group_source ([], []) sources)
      in foldl merge_group announced realized)"

text \<open>Client rules and address rules take the innermost open group of their own source.\<close>

definition name_stack_entry :: "ustr list \<Rightarrow> ustr \<times> ustr \<Rightarrow> ustr list" where
  "name_stack_entry stack entry =
     (let (key, v) = entry
      in if key = lit ''group-begin'' then first_word v # stack
         else if key = lit ''group-end'' then drop 1 stack
         else stack)"

definition top_name :: "ustr list \<Rightarrow> ustr" where
  "top_name stack = (case stack of [] \<Rightarrow> [] | n # _ \<Rightarrow> n)"

definition describe_client_matcher :: "ustr \<Rightarrow> ustr" where
  "describe_client_matcher v =
     (if 58 \<in> set v \<and> 5 \<le> length (filter (\<lambda>c. c = 58) v) then ([25353, 23458,
       25143, 31471] @ lit '' MAC '' @ [22320, 22336, 21305, 37197])
      else ([25353, 23458, 25143, 31471] @ lit '' IP '' @ [25110, 32593, 27573, 21305, 37197]))"

definition describe_ip_rule_type :: "ustr \<Rightarrow> ustr" where
  "describe_ip_rule_type t =
     (if t = lit ''whitelist-ip'' then ([21482, 25509, 21463, 30333, 21517, 21333, 33539, 22260, 20869,
       30340, 36820, 22238] @ lit '' IP'')
      else if t = lit ''blacklist-ip'' then ([20002, 24323, 21629, 20013, 40657, 21517, 21333, 33539,
        22260, 30340, 36820, 22238] @ lit '' IP'')
      else if t = lit ''ignore-ip'' then ([24573, 30053, 25351, 23450] @ lit '' IP '' @ [25110] @
        lit '' IP '' @ [38598, 21512])
      else if t = lit ''bogus-nxdomain'' then ([21629, 20013, 20551, 20882, 22320, 22336, 26102, 36820,
        22238] @ lit '' SOA'')
      else if t = lit ''ip-alias'' then ([25226, 21629, 20013, 30340] @ lit '' IP '' @ [26144, 23556,
        21040, 21035, 21517, 22320, 22336])
      else (lit ''IP '' @ [35268, 21017]))"

definition client_entry ::
  "ustr \<Rightarrow> ustr list \<times> client_rule_asset list \<Rightarrow> ustr \<times> ustr \<Rightarrow> ustr list \<times> client_rule_asset list" where
  "client_entry source st entry =
     (let (stack, assets) = st; (key, v) = entry
      in if key = lit ''client-rules'' then
           (stack, assets @ [\<lparr>cr_matcher = v, cr_group_name = top_name stack, cr_source = source,
              cr_note = describe_client_matcher v\<rparr>])
         else (name_stack_entry stack entry, assets))"

definition initial_names :: "config_source \<Rightarrow> ustr list" where
  "initial_names source = (case cs_implicit_group source of None \<Rightarrow> [] | Some g \<Rightarrow> [g])"

definition build_client_rule_assets :: "config_source list \<Rightarrow> client_rule_asset list" where
  "build_client_rule_assets sources =
     concat (map (\<lambda>s. snd (foldl (client_entry (cs_path s)) (initial_names s, [])
       (config_entries (cs_text s)))) sources)"

definition plain_ip_keys :: "ustr list" where
  "plain_ip_keys = [lit ''whitelist-ip'', lit ''blacklist-ip'', lit ''ignore-ip'',
    lit ''bogus-nxdomain'', lit ''ip-alias'']"

definition ip_entry ::
  "ustr \<Rightarrow> ustr list \<times> ip_rule_asset list \<Rightarrow> ustr \<times> ustr \<Rightarrow> ustr list \<times> ip_rule_asset list" where
  "ip_entry source st entry =
     (let (stack, assets) = st; (key, v) = entry
      in if key = lit ''ip-rules'' \<or> key \<in> set plain_ip_keys then
           (let (target, options) = split_target_options v
            in (stack, assets @ [\<lparr>ir_rule_type = key, ir_target = target, ir_options = options,
                 ir_group_name = top_name stack, ir_source = source,
                 ir_note = (if key = lit ''ip-rules'' then ([23545, 25351, 23450] @ lit '' IP'' @
                   [12289, 32593, 27573, 25110] @ lit '' ip-set '' @ [24212, 29992] @ lit '' IP '' @
                     [35268, 21017, 36873, 39033])
                            else describe_ip_rule_type key)\<rparr>]))
         else (name_stack_entry stack entry, assets))"

definition build_ip_rule_assets :: "config_source list \<Rightarrow> ip_rule_asset list" where
  "build_ip_rule_assets sources =
     concat (map (\<lambda>s. snd (foldl (ip_entry (cs_path s)) (initial_names s, [])
       (config_entries (cs_text s)))) sources)"

definition ip_set_asset_of ::
  "file_system \<Rightarrow> rule_group_asset list \<Rightarrow> ip_rule_asset list \<Rightarrow> ustr \<Rightarrow> ustr \<times> ustr \<Rightarrow> ip_set_asset list" where
  "ip_set_asset_of fs rule_groups ip_rules source entry =
     (let (key, v) = entry
      in if key \<noteq> lit ''ip-set'' then []
         else case parse_named_option v (lit ''-name'') of
                None \<Rightarrow> []
              | Some name \<Rightarrow>
                  (let file = group_or_empty (parse_named_option v (lit ''-file''));
                       (rule_count, sample_items) = inspect_rule_set_file fs file;
                       marker = lit ''ip-set:'' @ name
                   in [\<lparr>is_name = name, is_file = file, is_source = source, is_rule_count = rule_count,
                        is_sample_items = sample_items,
                        is_referenced_by =
                          concat (map (\<lambda>g. concat (map (\<lambda>m.
                              if str_contains marker m
                              then [lit ''group-match -> '' @ rg_name g @ lit '' ('' @ m @ lit '')''] else [])
                            (rg_matchers g))) rule_groups) @
                          concat (map (\<lambda>i.
                              if str_contains marker (ir_target i) \<or> str_contains marker (ir_options i)
                              then [rule_reference (ir_rule_type i) (ir_target i) (ir_options i)] else [])
                            ip_rules)\<rparr>]))"

definition build_ip_set_assets ::
  "file_system \<Rightarrow> config_source list \<Rightarrow> rule_group_asset list \<Rightarrow> ip_rule_asset list \<Rightarrow> ip_set_asset list" where
  "build_ip_set_assets fs sources rule_groups ip_rules =
     concat (map (\<lambda>s. concat (map (ip_set_asset_of fs rule_groups ip_rules (cs_path s))
       (config_entries (cs_text s)))) sources)"

section \<open>Paging and editing a rule set\<close>

definition usize_max :: nat where
  "usize_max = 2 ^ 64 - 1"

definition saturating_add :: "nat \<Rightarrow> nat \<Rightarrow> nat" where
  "saturating_add a b = min usize_max (a + b)"

definition filter_items :: "(ustr \<Rightarrow> ustr) \<Rightarrow> ustr option \<Rightarrow> ustr list \<Rightarrow> ustr list" where
  "filter_items lower query all_items =
     (let q = lower (trim (case query of None \<Rightarrow> [] | Some s \<Rightarrow> s))
      in if q = [] then all_items else filter (\<lambda>item. str_contains q (lower item)) all_items)"

definition set_detail ::
  "(ustr \<Rightarrow> ustr) \<Rightarrow> file_system \<Rightarrow> ustr option \<Rightarrow> nat \<Rightarrow> nat \<Rightarrow> rule_set_asset \<Rightarrow> ustr list \<Rightarrow> rule_set_file_detail" where
  "set_detail lower fs query offset limit asset all_items =
     (let filtered = filter_items lower query all_items;
          limit1 = max 1 limit;
          items = take limit1 (drop offset filtered)
      in \<lparr>rd_name = rs_name asset, rd_set_type = rs_set_type asset, rd_file = rs_file asset,
          rd_source = rs_source asset, rd_exists = fs_exists fs (rs_file asset),
          rd_rule_count = length all_items, rd_filtered_count = length filtered,
          rd_offset = offset, rd_limit = limit1,
          rd_has_more = (saturating_add offset (length items) < length filtered),
          rd_items = items, rd_sample_items = rs_sample_items asset,
          rd_referenced_by = rs_referenced_by asset\<rparr>)"

definition detail_of_assets ::
  "(ustr \<Rightarrow> ustr) \<Rightarrow> ustr \<Rightarrow> ustr option \<Rightarrow> nat \<Rightarrow> nat \<Rightarrow> (file_system \<Rightarrow> rule_set_asset list) \<Rightarrow>
   rule_set_file_detail option io" where
  "detail_of_assets lower name query offset limit assets fs =
     (case find (\<lambda>a. rs_name a = name) (assets fs) of
        None \<Rightarrow> (Inr None, fs)
      | Some asset \<Rightarrow>
          io_bind (read_rule_set_items (rs_file asset))
            (\<lambda>all_items fs'. (Inr (Some (set_detail lower fs' query offset limit asset all_items)), fs')) fs)"

definition read_rule_set_detail ::
  "(ustr \<Rightarrow> ustr) \<Rightarrow> ustr \<Rightarrow> ustr \<Rightarrow> ustr option \<Rightarrow> nat \<Rightarrow> nat \<Rightarrow> rule_set_file_detail option io" where
  "read_rule_set_detail lower config_file name query offset limit =
     io_bind (collect_config_sources config_file) (\<lambda>sources.
       detail_of_assets lower name query offset limit
         (\<lambda>fs. build_rule_set_assets fs (parse_routing_items sources)))"

text \<open>An address set is shown through the same detail record,
  with the type \<open>ip-set\<close>.\<close>

definition ip_set_view :: "ip_set_asset \<Rightarrow> rule_set_asset" where
  "ip_set_view a =
     \<lparr>rs_name = is_name a, rs_set_type = lit ''ip-set'', rs_file = is_file a, rs_source = is_source a,
      rs_rule_count = is_rule_count a, rs_sample_items = is_sample_items a,
      rs_referenced_by = is_referenced_by a\<rparr>"

definition read_ip_set_detail ::
  "(ustr \<Rightarrow> ustr) \<Rightarrow> ustr \<Rightarrow> ustr \<Rightarrow> ustr option \<Rightarrow> nat \<Rightarrow> nat \<Rightarrow> rule_set_file_detail option io" where
  "read_ip_set_detail lower config_file name query offset limit =
     io_bind (collect_config_sources config_file) (\<lambda>sources.
       detail_of_assets lower name query offset limit
         (\<lambda>fs. map ip_set_view (build_ip_set_assets fs sources (build_rule_group_assets sources)
            (build_ip_rule_assets sources))))"

definition edit_items :: "save_rule_set_request \<Rightarrow> ustr list \<Rightarrow> ustr list" where
  "edit_items request items =
     (let remove_items = normalize_rule_set_items (sr_remove_items request);
          add_items = normalize_rule_set_items (sr_add_items request);
          kept = (if remove_items \<noteq> [] then filter (\<lambda>i. i \<notin> set remove_items) items else items)
      in dedupe_rule_set_items (kept @ add_items))"

definition wrap_error :: "ustr \<Rightarrow> ustr \<Rightarrow> io_error \<Rightarrow> io_error" where
  "wrap_error action file e =
     e\<lparr>ie_message := action @ [32] @ file @ lit '' failed: '' @ ie_message e\<rparr>"

text \<open>\<open>save_rule_set_file\<close> and \<open>save_ip_set_file\<close> share their body; \<open>what\<close> names the kind of set.\<close>

definition save_set_file ::
  "ustr \<Rightarrow> ustr \<Rightarrow> rule_set_file_detail option io \<Rightarrow> save_rule_set_request \<Rightarrow> rule_set_file_detail io" where
  "save_set_file what name read_detail request =
     io_bind read_detail (\<lambda>found.
       case found of
         None \<Rightarrow> io_fail \<lparr>ie_kind = Not_Found, ie_message = what @ lit '' `'' @ name @
           lit ''` not found''\<rparr>
       | Some detail \<Rightarrow>
           if trim (rd_file detail) = [] then
             io_fail \<lparr>ie_kind = Invalid_Input, ie_message = what @ lit '' `'' @ name @
               lit ''` has no backing file''\<rparr>
           else
             io_bind (io_map_err (wrap_error (lit ''read '' @ what @ lit '' file'') (rd_file detail))
               (read_rule_set_items (rd_file detail))) (\<lambda>items.
             io_bind (io_map_err (wrap_error (lit ''backup '' @ what @ lit '' file'') (rd_file detail))
               (backup_file (rd_file detail))) (\<lambda>_.
             io_bind (io_map_err (wrap_error (lit ''write '' @ what @ lit '' file'') (rd_file detail))
               (write_text_atomic (rd_file detail) (render_rule_set_items (edit_items request items)))) (\<lambda>_.
             io_bind read_detail (\<lambda>again.
               case again of
                 None \<Rightarrow> io_fail \<lparr>ie_kind = Not_Found,
                    ie_message = what @ lit '' `'' @ name @ lit ''` disappeared after save''\<rparr>
               | Some d \<Rightarrow> io_return d)))))"

definition save_rule_set_file ::
  "(ustr \<Rightarrow> ustr) \<Rightarrow> ustr \<Rightarrow> ustr \<Rightarrow> save_rule_set_request \<Rightarrow> rule_set_file_detail io" where
  "save_rule_set_file lower config_file name request =
     save_set_file (lit ''rule set'') name (read_rule_set_detail lower config_file name None 0 200) request"

definition save_ip_set_file ::
  "(ustr \<Rightarrow> ustr) \<Rightarrow> ustr \<Rightarrow> ustr \<Rightarrow> save_rule_set_request \<Rightarrow> rule_set_file_detail io" where
  "save_ip_set_file lower config_file name request =
     save_set_file (lit ''ip set'') name (read_ip_set_detail lower config_file name None 0 200) request"

section \<open>Items\<close>

lemma set_item_lines_mem: "x \<in> set (set_item_lines ls) \<Longrightarrow> trimmed x \<and> x \<noteq> [] \<and> hd x \<noteq> 35"
  by (cases x) (auto simp: set_item_lines_def)

lemma dedupe_items_set: "set (dedupe_items seen xs) = set xs - seen"
  by (induction seen xs rule: dedupe_items.induct) auto

lemma dedupe_items_distinct: "distinct (dedupe_items seen xs)"
  by (induction seen xs rule: dedupe_items.induct) (auto simp: dedupe_items_set)

lemma dedupe_items_id: "distinct xs \<Longrightarrow> set xs \<inter> seen = {} \<Longrightarrow> dedupe_items seen xs = xs"
  by (induction seen xs rule: dedupe_items.induct) auto

lemma edit_items_set:
  "set (edit_items r items) =
     (set items - set (normalize_rule_set_items (sr_remove_items r))) \<union>
     set (normalize_rule_set_items (sr_add_items r))"
  by (auto simp: edit_items_def Let_def dedupe_rule_set_items_def dedupe_items_set)

lemma edit_items_distinct: "distinct (edit_items r items)"
  by (simp add: edit_items_def Let_def dedupe_rule_set_items_def dedupe_items_distinct)

lemma str_lines_items:
  assumes "\<And>l. l \<in> set ls \<Longrightarrow> no_nl l \<and> trimmed l \<and> l \<noteq> []"
  shows "str_lines (render_rule_set_items ls) = ls"
proof (cases "ls = []")
  case False
  have "join [10] ls @ [10] = join [10] (ls @ [[]])" using False by (simp add: join_snoc_Nil)
  then have "str_lines (render_rule_set_items ls) = map strip_cr ls"
    using False str_lines_join_snoc [of ls] assms by (simp add: render_rule_set_items_def)
  also have "\<dots> = ls" using assms by (simp add: strip_cr_id map_idI)
  finally show ?thesis .
qed (simp add: render_rule_set_items_def)

lemma set_item_lines_id:
  assumes "\<And>l. l \<in> set ls \<Longrightarrow> trimmed l \<and> l \<noteq> [] \<and> hd l \<noteq> 35"
  shows "set_item_lines ls = ls"
proof -
  have "map trim ls = ls" using assms by (simp add: trimmed_trim_id map_idI)
  moreover have "l \<noteq> [] \<and> \<not> starts_with [35] l" if "l \<in> set ls" for l
    using assms [OF that] by (cases l) auto
  ultimately show ?thesis by (simp add: set_item_lines_def filter_id_conv)
qed

text \<open>What is written to a set file is read back as it is.\<close>

lemma read_rendered_items:
  assumes "\<And>l. l \<in> set ls \<Longrightarrow> no_nl l \<and> trimmed l \<and> l \<noteq> [] \<and> hd l \<noteq> 35"
    and "lookup_file fs p = Some (render_rule_set_items ls)" and "fs_read_fault fs p = None"
  shows "read_rule_set_items p fs = (Inr ls, fs)"
proof -
  have "set_item_lines (str_lines (render_rule_set_items ls)) = ls"
    using str_lines_items [of ls] set_item_lines_id [of ls] assms(1) by simp
  then show ?thesis using assms(2,3)
    by (simp add: read_rule_set_items_def io_bind_def io_return_def read_text_or_default_value)
qed

lemma normalized_items:
  assumes "\<forall>l \<in> set ls. no_nl l"
  shows "x \<in> set (set_item_lines ls) \<Longrightarrow> no_nl x \<and> trimmed x \<and> x \<noteq> [] \<and> hd x \<noteq> 35"
  using set_item_lines_mem [of x ls] assms by (auto simp: set_item_lines_def no_nl_trim)

lemma edited_items_ok:
  assumes "\<forall>l \<in> set (sr_add_items r). no_nl l" and "x \<in> set (edit_items r (set_item_lines (str_lines t)))"
  shows "no_nl x \<and> trimmed x \<and> x \<noteq> [] \<and> hd x \<noteq> 35"
  using assms normalized_items [of "str_lines t" x] normalized_items [of "sr_add_items r" x] str_lines_no_nl
  by (auto simp: edit_items_set normalize_rule_set_items_def)


text \<open>A page of a rule set and the items after it make up the filtered items from the offset
  on, and the page says there is more exactly when items follow it.\<close>

theorem detail_pages:
  assumes "offset + length (filter_items lower query all_items) \<le> usize_max" and "0 < limit"
  shows "rd_items (set_detail lower fs query offset limit asset all_items) @
      drop (offset + limit) (filter_items lower query all_items) =
        drop offset (filter_items lower query all_items) \<and>
    (rd_has_more (set_detail lower fs query offset limit asset all_items) \<longleftrightarrow>
      drop (offset + limit) (filter_items lower query all_items) \<noteq> [])"
proof -
  let ?f = "filter_items lower query all_items"
  have i: "rd_items (set_detail lower fs query offset limit asset all_items) = take limit (drop offset ?f)"
    using assms(2) by (simp add: set_detail_def Let_def max_def)
  have "saturating_add offset (length (take limit (drop offset ?f))) = offset + length (take limit (drop offset ?f))"
    using assms(1) by (auto simp: saturating_add_def min_def)
  then have "rd_has_more (set_detail lower fs query offset limit asset all_items) \<longleftrightarrow>
      offset + min limit (length ?f - offset) < length ?f"
    using assms(2) by (simp add: set_detail_def Let_def max_def min.commute)
  then show ?thesis using i assms(2)
    by (auto simp: append_take_drop_id drop_drop [symmetric] add.commute simp del: drop_drop)
qed

definition plain_token :: "ustr \<Rightarrow> bool" where
  "plain_token w \<longleftrightarrow> word w \<and> \<not> starts_with (lit ''type='') w \<and> \<not> starts_with (lit ''file='') w"

lemma domain_set_item_value:
  assumes "plain_token t" and "plain_token f"
  shows "parse_domain_set_value (lit ''type='' @ t @ lit '' file='' @ f) = (t, f)"
proof -
  have w: "word (lit ''type='' @ t)" "word (lit ''file='' @ f)" "t \<noteq> []"
    using assms by (auto simp: plain_token_def word_def lit_def is_whitespace_def)
  have "lit ''type='' @ t @ lit '' file='' @ f = (lit ''type='' @ t) @ 32 # (lit ''file='' @ f)"
    by (simp add: lit_def)
  then have ts: "split_whitespace (lit ''type='' @ t @ lit '' file='' @ f) = [lit ''type='' @ t,
    lit ''file='' @ f]"
    using split_whitespace_word_append [OF w(1), of 32 "lit ''file='' @ f"] split_whitespace_word [OF w(2)]
    by simp
  have a: "trim_start_str (lit ''type='') (lit ''type='' @ t) = t" "trim_start_str (lit ''file='') (lit ''file='' @ f) = f"
    using assms by (simp_all add: plain_token_def trim_start_str.simps strip_prefix_def starts_with_def)
  have b: "\<not> starts_with (lit ''type='') (lit ''file='' @ f)" by (simp add: lit_def)
  have c: "lit ''file='' @ f \<noteq> lit ''type=''" by (simp add: lit_def)
  show ?thesis
    unfolding parse_domain_set_value_def ts using w(3)
    by (simp add: domain_set_token_def a b c)
qed

text \<open>The type and file of a domain-set directive are recovered from the text its routing item
  stores them in.\<close>

theorem domain_set_item_read_back:
  assumes "routing_item source (lit ''domain-set'', v) = [item]"
    and "parse_named_option v (lit ''-type'') = Some t" and "parse_named_option v (lit ''-file'') = Some f"
    and "plain_token t" and "plain_token f"
  shows "parse_domain_set_value (rr_value item) = (t, f)"
  using assms domain_set_item_value [OF assms(4,5)]
  by (auto simp: routing_item_def split: if_splits option.splits)


section \<open>Witnesses\<close>

definition sample_request :: save_rule_set_request where
  "sample_request = \<lparr>sr_add_items = [lit ''b.example'', lit '' c.example ''],
    sr_remove_items = [lit ''a.example'']\<rparr>"

definition sample_set_fs :: file_system where
  "sample_set_fs = file_system_with [(lit ''/etc/set.txt'', lit ''a.example'' @ [10] @
    lit ''b.example'' @ [10])]"


definition sample_asset :: rule_set_asset where
  "sample_asset = \<lparr>rs_name = lit ''cn'', rs_set_type = lit ''list'', rs_file = lit ''/etc/set.txt'',
     rs_source = lit ''/etc/a.conf'', rs_rule_count = 0, rs_sample_items = [], rs_referenced_by = []\<rparr>"

theorem detail_pages_witness:
  "rd_items (set_detail (\<lambda>s. s) sample_set_fs None 1 1 sample_asset [[97], [98], [99]]) @
     drop 2 (filter_items (\<lambda>s. s) None [[97], [98], [99]]) =
     drop 1 (filter_items (\<lambda>s. s) None [[97], [98], [99]]) \<and>
   (rd_has_more (set_detail (\<lambda>s. s) sample_set_fs None 1 1 sample_asset [[97], [98],
     [99]]) \<longleftrightarrow>
     drop 2 (filter_items (\<lambda>s. s) None [[97], [98], [99]]) \<noteq> [])"
  using detail_pages [of 1 "\<lambda>s. s" None "[[97], [98], [99]]" 1 sample_set_fs sample_asset]
  by (simp add: filter_items_def usize_max_def)

definition sample_set_value :: ustr where
  "sample_set_value = lit ''-name cn -type list -file /etc/cn.txt''"

theorem domain_set_item_read_back_witness:
  "parse_domain_set_value (rr_value (hd (routing_item [] (lit ''domain-set'', sample_set_value)))) =
     (lit ''list'', lit ''/etc/cn.txt'')"
proof (rule domain_set_item_read_back)
  show "routing_item [] (lit ''domain-set'', sample_set_value) =
      [hd (routing_item [] (lit ''domain-set'', sample_set_value))]"
    by code_simp
qed code_simp+
end
