(* ===== verification/Upstreams.thy ===== *)
theory Upstreams
  imports Conf_Lines "HOL-Library.Multiset"
begin

text \<open>
  Upstream DNS servers of \<open>src/src/config_ui.rs\<close>: the record \<open>UpstreamConfig\<close>,
    the reader of its
  option list (\<open>parse_upstream_config\<close>), the writers \<open>upstream_key\<close>,
    \<open>render_upstream_options\<close> and
  \<open>render_upstreams_config\<close> with its grouping by first group name, and the built-in defaults. The
  lemmas show that reading undoes writing on well-formed upstreams and that the page lists every
  usable upstream exactly once.
\<close>

record upstream_config =
  up_kind :: ustr
  up_value :: ustr
  up_groups :: "ustr list"
  up_exclude_default_group :: bool
  up_proxy_name :: ustr
  up_bootstrap_dns :: ustr
  up_host_ip :: ustr
  up_subnet :: ustr
  up_fallback :: bool
  up_options :: ustr
  up_note :: ustr

definition upstream_default :: upstream_config where
  "upstream_default =
     \<lparr>up_kind = [], up_value = [], up_groups = [], up_exclude_default_group = False,
      up_proxy_name = [], up_bootstrap_dns = [], up_host_ip = [], up_subnet = [],
      up_fallback = False, up_options = [], up_note = []\<rparr>"

section \<open>Reading the options\<close>

function upstream_tokens ::
  "ustr list \<Rightarrow> upstream_config \<Rightarrow> ustr list \<Rightarrow> upstream_config \<times> ustr list" where
  "upstream_tokens [] cfg passthrough = (cfg, passthrough)"
| "upstream_tokens (token # rest) cfg passthrough =
     (if (token = lit ''-g'' \<or> token = lit ''-group'') \<and> rest \<noteq> [] then
        upstream_tokens (tl rest) (cfg\<lparr>up_groups := up_groups cfg @ [hd rest]\<rparr>) passthrough
      else if token = lit ''-e'' \<or> token = lit ''-exclude-default-group'' then
        upstream_tokens rest (cfg\<lparr>up_exclude_default_group := True\<rparr>) passthrough
      else if token = lit ''-proxy'' \<and> rest \<noteq> [] then
        upstream_tokens (tl rest) (cfg\<lparr>up_proxy_name := hd rest\<rparr>) passthrough
      else if (token = lit ''-b'' \<or> token = lit ''-bootstrap-dns'') \<and> rest \<noteq> [] then
        upstream_tokens (tl rest) (cfg\<lparr>up_bootstrap_dns := hd rest\<rparr>) passthrough
      else if token = lit ''-host-ip'' \<and> rest \<noteq> [] then
        upstream_tokens (tl rest) (cfg\<lparr>up_host_ip := hd rest\<rparr>) passthrough
      else if token = lit ''-subnet'' \<and> rest \<noteq> [] then
        upstream_tokens (tl rest) (cfg\<lparr>up_subnet := hd rest\<rparr>) passthrough
      else if token = lit ''-fallback'' then
        upstream_tokens rest (cfg\<lparr>up_fallback := True\<rparr>) passthrough
      else if rest \<noteq> [] \<and> \<not> starts_with (lit ''-'') (hd rest) then
        upstream_tokens (tl rest) cfg (passthrough @ [token, hd rest])
      else upstream_tokens rest cfg (passthrough @ [token]))"
  by pat_completeness auto

termination
  by (relation "measure (\<lambda>(ts, _, _). length ts)") (auto simp: less_Suc_eq_le)

declare upstream_tokens.simps(2) [simp del]

definition parse_upstream_config :: "ustr \<Rightarrow> ustr \<Rightarrow> ustr \<Rightarrow> upstream_config" where
  "parse_upstream_config kind v options =
     (let (cfg, passthrough) =
        upstream_tokens (split_whitespace options)
          (upstream_default\<lparr>up_kind := kind, up_value := v\<rparr>) []
      in cfg\<lparr>up_options := join [32] passthrough\<rparr>)"

section \<open>Writing\<close>

definition upstream_key :: "ustr \<Rightarrow> ustr" where
  "upstream_key kind =
     (let k = trim kind
      in if k = lit ''server'' \<or> k = lit ''udp'' then lit ''server''
         else if k = lit ''server-tcp'' \<or> k = lit ''tcp'' then lit ''server-tcp''
         else if k = lit ''server-tls'' \<or> k = lit ''tls'' then lit ''server-tls''
         else if k = lit ''server-https'' \<or> k = lit ''https'' then lit ''server-https''
         else if k = lit ''server-quic'' \<or> k = lit ''quic'' then lit ''server-quic''
         else if k = lit ''server-http3'' \<or> k = lit ''http3'' \<or> k = lit ''h3'' then lit ''server-http3''
         else lit ''server'')"

definition option_part :: "ustr \<Rightarrow> ustr \<Rightarrow> ustr list" where
  "option_part flag v = (if trim v \<noteq> [] then [flag @ [32] @ trim v] else [])"

definition render_upstream_options :: "upstream_config \<Rightarrow> ustr" where
  "render_upstream_options u =
     join [32]
       (concat (map (option_part (lit ''-group'')) (up_groups u)) @
        (if up_exclude_default_group u then [lit ''-exclude-default-group''] else []) @
        option_part (lit ''-proxy'') (up_proxy_name u) @
        option_part (lit ''-bootstrap-dns'') (up_bootstrap_dns u) @
        option_part (lit ''-host-ip'') (up_host_ip u) @
        option_part (lit ''-subnet'') (up_subnet u) @
        (if up_fallback u then [lit ''-fallback''] else []) @
        (if trim (up_options u) \<noteq> [] then [trim (up_options u)] else []))"

definition upstream_line :: "upstream_config \<Rightarrow> ustr" where
  "upstream_line u =
     (let key = upstream_key (up_kind u); opts = render_upstream_options u
      in if trim opts = [] then key @ [32] @ trim (up_value u)
         else key @ [32] @ trim (up_value u) @ [32] @ opts)"

text \<open>\<open>grouped.entry(first).or_default().push(u)\<close> on a \<open>BTreeMap\<close>,
  kept as the list of its entries in
  key order (the order of UTF-8 strings is the lexicographic order of their code points).\<close>

fun btree_push :: "ustr \<Rightarrow> 'a \<Rightarrow> (ustr \<times> 'a list) list \<Rightarrow> (ustr \<times> 'a list) list" where
  "btree_push k x [] = [(k, [x])]"
| "btree_push k x ((k', xs) # m) =
     (if k = k' then (k', xs @ [x]) # m
      else if k < k' then (k, [x]) # (k', xs) # m
      else (k', xs) # btree_push k x m)"

definition group_upstream ::
  "(ustr \<times> upstream_config list) list \<times> upstream_config list \<Rightarrow> upstream_config \<Rightarrow>
   (ustr \<times> upstream_config list) list \<times> upstream_config list" where
  "group_upstream st u =
     (let (grouped, ungrouped) = st
      in if trim (up_value u) = [] then (grouped, ungrouped)
         else case up_groups u of
                first # _ \<Rightarrow> (btree_push first u grouped, ungrouped)
              | [] \<Rightarrow> (grouped, ungrouped @ [u]))"

definition group_upstreams ::
  "upstream_config list \<Rightarrow> (ustr \<times> upstream_config list) list \<times> upstream_config list" where
  "group_upstreams us = foldl group_upstream ([], []) us"

definition default_upstreams :: "upstream_config list" where
  "default_upstreams =
     [upstream_default\<lparr>up_kind := lit ''server-https'',
        up_value := lit ''https://dns.alidns.com/dns-query'',
        up_groups := [lit ''cn''], up_options := [], up_note := ([22269, 20869] @ lit '' HTTPS DNS'')\<rparr>,
      upstream_default\<lparr>up_kind := lit ''server-https'',
        up_value := lit ''https://cloudflare-dns.com/dns-query'',
        up_groups := [lit ''global''], up_fallback := True, up_options := [],
        up_note := ([28023, 22806, 22791, 29992] @ lit '' HTTPS DNS'')\<rparr>]"

definition upstreams_header :: "ustr list" where
  "upstreams_header =
     [(lit ''# '' @ [9552, 9552, 9552, 9552, 9552, 9552, 9552, 9552, 9552, 9552, 9552, 9552, 9552, 9552,
       9552, 9552, 9552, 9552, 9552, 9552, 9552, 9552, 9552, 9552, 9552, 9552, 9552, 9552, 9552, 9552,
         9552, 9552, 9552, 9552, 9552, 9552, 9552, 9552, 9552, 9552, 9552, 9552, 9552]),
      (lit ''#  '' @ [19978, 28216] @ lit '' DNS '' @ [26381, 21153, 22120]),
      (lit ''# '' @ [9552, 9552, 9552, 9552, 9552, 9552, 9552, 9552, 9552, 9552, 9552, 9552, 9552, 9552,
        9552, 9552, 9552, 9552, 9552, 9552, 9552, 9552, 9552, 9552, 9552, 9552, 9552, 9552, 9552, 9552,
          9552, 9552, 9552, 9552, 9552, 9552, 9552, 9552, 9552, 9552, 9552, 9552, 9552]),
      []]"

definition render_upstreams_lines :: "upstream_config list \<Rightarrow> ustr list" where
  "render_upstreams_lines configured =
     (let upstreams = (if configured = [] then default_upstreams else configured);
          (grouped, ungrouped) = group_upstreams upstreams
      in upstreams_header @
         concat (map (\<lambda>(gname, servers).
           [(lit ''# '' @ [9472, 9472] @ lit '' '' @ [20998, 32452] @ lit '': '') @ gname @ (lit '' '' @
             [9472, 9472])] @ map upstream_line servers @ [[]]) grouped) @
         (if ungrouped \<noteq> []
          then [(lit ''# '' @ [9472, 9472] @ lit '' '' @ [40664, 35748, 32452, 65288, 26410, 20998,
            32452, 65289, 9472, 9472])] @ map upstream_line ungrouped @ [[]] else []) @
         [[]])"

definition render_upstreams_config :: "upstream_config list \<Rightarrow> ustr" where
  "render_upstreams_config configured = join [10] (render_upstreams_lines configured)"

text \<open>The upstream branch of \<open>parse_beginner_config\<close>: the first word of the value is the address, the
  rest the options.\<close>

definition parse_upstream_entry :: "ustr \<Rightarrow> ustr \<Rightarrow> upstream_config" where
  "parse_upstream_entry key v =
     (let (server_value, server_opts) = split_first_ws v
      in parse_upstream_config key (trim server_value)
           (trim (case server_opts of None \<Rightarrow> [] | Some r \<Rightarrow> r)))"

section \<open>Reading undoes writing\<close>

definition upstream_flags :: "ustr list" where
  "upstream_flags =
     [lit ''-g'', lit ''-group'', lit ''-e'', lit ''-exclude-default-group'', lit ''-proxy'',
      lit ''-b'', lit ''-bootstrap-dns'', lit ''-host-ip'', lit ''-subnet'', lit ''-fallback'']"

definition server_keys :: "ustr list" where
  "server_keys =
     [lit ''server'', lit ''server-tcp'', lit ''server-tls'', lit ''server-https'',
      lit ''server-quic'', lit ''server-http3'']"

definition opt_word :: "ustr \<Rightarrow> bool" where
  "opt_word s \<longleftrightarrow> s = [] \<or> word s"

text \<open>Well-formed upstreams: canonical kind, single words where the format has single words, and
  extra options that are none of the recognised flags. The note is not part of the file format: it
  is lost when the upstream is saved.\<close>

definition saved_upstream :: "upstream_config \<Rightarrow> upstream_config" where
  "saved_upstream u = u\<lparr>up_note := []\<rparr>"

definition wf_upstream :: "upstream_config \<Rightarrow> bool" where
  "wf_upstream u \<longleftrightarrow>
     up_kind u \<in> set server_keys \<and> word (up_value u) \<and> list_all word (up_groups u) \<and>
     opt_word (up_proxy_name u) \<and> opt_word (up_bootstrap_dns u) \<and> opt_word (up_host_ip u) \<and>
     opt_word (up_subnet u) \<and>
     join [32] (split_whitespace (up_options u)) = up_options u \<and>
     list_all (\<lambda>t. t \<notin> set upstream_flags) (split_whitespace (up_options u))"

lemma word_flags [simp]: "f \<in> set upstream_flags \<Longrightarrow> word f"
  by (auto simp: upstream_flags_def word_def lit_def is_whitespace_def)

lemma word_server_keys [simp]: "k \<in> set server_keys \<Longrightarrow> word k"
  by (auto simp: server_keys_def word_def lit_def is_whitespace_def)

lemma upstream_key_canonical: "k \<in> set server_keys \<Longrightarrow> upstream_key k = k"
  using word_server_keys [of k] by (auto simp: upstream_key_def server_keys_def)

lemma upstream_key_in: "upstream_key k \<in> set server_keys"
  by (simp add: upstream_key_def server_keys_def Let_def)

lemma upstream_tokens_plain:
  "(\<And>t. t \<in> set ts \<Longrightarrow> t \<notin> set upstream_flags) \<Longrightarrow> upstream_tokens ts cfg p = (cfg, p @ ts)"
proof (induction ts cfg p rule: upstream_tokens.induct)
  case (2 token rest cfg p)
  have t: "token \<notin> set upstream_flags" using "2.prems" by simp
  show ?case
  proof (cases "rest \<noteq> [] \<and> \<not> starts_with (lit ''-'') (hd rest)")
    case True
    then have "upstream_tokens (tl rest) cfg (p @ [token, hd rest]) = (cfg, (p @ [token, hd rest]) @ tl rest)"
      using t "2.prems" by (intro "2.IH"(8)) (auto simp: upstream_flags_def dest: list.set_sel(2))
    then show ?thesis using t True by (simp add: upstream_tokens.simps(2) upstream_flags_def)
  next
    case False
    then have "upstream_tokens rest cfg (p @ [token]) = (cfg, (p @ [token]) @ rest)"
      using t "2.prems" by (intro "2.IH"(9)) (auto simp: upstream_flags_def)
    then show ?thesis using t False by (auto simp: upstream_tokens.simps(2) upstream_flags_def)
  qed
qed simp

lemma upstream_tokens_groups:
  "upstream_tokens (concat (map (\<lambda>g. [lit ''-group'', g]) gs) @ rest) cfg p =
     upstream_tokens rest (cfg\<lparr>up_groups := up_groups cfg @ gs\<rparr>) p"
  by (induction gs arbitrary: cfg) (simp_all add: upstream_tokens.simps(2))

definition option_tokens :: "ustr \<Rightarrow> ustr \<Rightarrow> ustr list" where
  "option_tokens flag v = (if v = [] then [] else [flag, v])"

lemma option_part_tokens:
  assumes "word flag" and "opt_word v"
  shows "concat (map split_whitespace (option_part flag v)) = option_tokens flag v"
  using assms by (auto simp: option_part_def option_tokens_def opt_word_def
      split_whitespace_word split_whitespace_word_append)

lemma upstream_tokens_options:
  "upstream_tokens (option_tokens (lit ''-proxy'') v @ rest) cfg p =
     upstream_tokens rest (if v = [] then cfg else cfg\<lparr>up_proxy_name := v\<rparr>) p"
  "upstream_tokens (option_tokens (lit ''-bootstrap-dns'') v @ rest) cfg p =
     upstream_tokens rest (if v = [] then cfg else cfg\<lparr>up_bootstrap_dns := v\<rparr>) p"
  "upstream_tokens (option_tokens (lit ''-host-ip'') v @ rest) cfg p =
     upstream_tokens rest (if v = [] then cfg else cfg\<lparr>up_host_ip := v\<rparr>) p"
  "upstream_tokens (option_tokens (lit ''-subnet'') v @ rest) cfg p =
     upstream_tokens rest (if v = [] then cfg else cfg\<lparr>up_subnet := v\<rparr>) p"
  "upstream_tokens ((if b then [lit ''-exclude-default-group''] else []) @ rest) cfg p =
     upstream_tokens rest (if b then cfg\<lparr>up_exclude_default_group := True\<rparr> else cfg) p"
  "upstream_tokens ((if b then [lit ''-fallback''] else []) @ rest) cfg p =
     upstream_tokens rest (if b then cfg\<lparr>up_fallback := True\<rparr> else cfg) p"
  by (simp_all add: option_tokens_def upstream_tokens.simps(2))

lemma group_parts_tokens:
  "list_all word gs \<Longrightarrow>
     concat (map split_whitespace (concat (map (option_part (lit ''-group'')) gs))) =
     concat (map (\<lambda>g. [lit ''-group'', g]) gs)"
  by (induction gs)
    (auto simp: option_part_tokens opt_word_def option_tokens_def upstream_flags_def word_nonempty)

lemma render_upstream_tokens:
  assumes "wf_upstream u"
  shows "split_whitespace (render_upstream_options u) =
     concat (map (\<lambda>g. [lit ''-group'', g]) (up_groups u)) @
     (if up_exclude_default_group u then [lit ''-exclude-default-group''] else []) @
     option_tokens (lit ''-proxy'') (up_proxy_name u) @
     option_tokens (lit ''-bootstrap-dns'') (up_bootstrap_dns u) @
     option_tokens (lit ''-host-ip'') (up_host_ip u) @
     option_tokens (lit ''-subnet'') (up_subnet u) @
     (if up_fallback u then [lit ''-fallback''] else []) @
     split_whitespace (up_options u)"
proof -
  have flags: "word (lit ''-exclude-default-group'')" "word (lit ''-proxy'')"
    "word (lit ''-bootstrap-dns'')" "word (lit ''-host-ip'')" "word (lit ''-subnet'')"
    "word (lit ''-fallback'')"
    by (rule word_flags, simp add: upstream_flags_def)+
  then show ?thesis using assms
    by (simp add: render_upstream_options_def split_whitespace_join_words wf_upstream_def
        option_part_tokens group_parts_tokens split_whitespace_word
        split_whitespace_eq_Nil_iff [THEN iffD2])
qed

lemma parse_render_upstream:
  assumes "wf_upstream u"
  shows "parse_upstream_config (up_kind u) (up_value u) (render_upstream_options u) = saved_upstream u"
proof -
  have opts: "\<And>t. t \<in> set (split_whitespace (up_options u)) \<Longrightarrow> t \<notin> set upstream_flags"
    "join [32] (split_whitespace (up_options u)) = up_options u"
    using assms by (auto simp: wf_upstream_def list_all_iff)
  note plain = upstream_tokens_plain [OF opts(1)]
  show ?thesis
    unfolding parse_upstream_config_def render_upstream_tokens [OF assms]
      upstream_tokens_groups upstream_tokens_options
    using opts(2) by (cases u) (simp add: plain upstream_default_def saved_upstream_def)
qed

lemma wf_value: "wf_upstream u \<Longrightarrow> word (up_value u)" "wf_upstream u \<Longrightarrow> up_kind u \<in> set server_keys"
  by (simp_all add: wf_upstream_def)

lemma upstream_line_key_value:
  assumes "wf_upstream u"
  shows "case_prod parse_upstream_entry (key_value (upstream_line u)) = saved_upstream u"
proof -
  have k: "upstream_key (up_kind u) = up_kind u" "word (up_kind u)"
    using wf_value [OF assms] by (simp_all add: upstream_key_canonical)
  have v: "word (up_value u)" "trim (up_value u) = up_value u" using wf_value [OF assms] by simp_all
  show ?thesis
  proof (cases "trim (render_upstream_options u) = []")
    case True
    then have "split_whitespace (render_upstream_options u) = split_whitespace []"
      by (simp add: split_whitespace_eq_Nil_iff)
    then have "parse_upstream_config (up_kind u) (up_value u) [] = saved_upstream u"
      using parse_render_upstream [OF assms] by (simp add: parse_upstream_config_def)
    then show ?thesis using True k v
      by (simp add: upstream_line_def key_value_pair parse_upstream_entry_def split_first_ws_word)
  next
    case False
    have "trim (up_value u @ 32 # render_upstream_options u) =
        up_value u @ 32 # trim_end (render_upstream_options u)"
    proof -
      have "\<not> (\<forall>c \<in> set (rev (render_upstream_options u)). is_whitespace c)"
        using False by (simp add: trim_eq_Nil_iff)
      then have "trim_end (up_value u @ 32 # render_upstream_options u) =
          up_value u @ 32 # trim_end (render_upstream_options u)"
        by (auto simp: trim_end_def dropWhile_append)
      then show ?thesis using v(1) by (simp add: trim_def trim_start_id word_def)
    qed
    moreover have "parse_upstream_config (up_kind u) (up_value u) (trim (render_upstream_options u)) = saved_upstream u"
      using parse_render_upstream [OF assms] by (simp add: parse_upstream_config_def)
    ultimately show ?thesis using False k v
      by (simp add: upstream_line_def key_value_pair parse_upstream_entry_def split_first_ws_append)
  qed
qed

section \<open>Grouping\<close>

lemma mset_btree_push:
  "mset (concat (map snd (btree_push k x m))) = add_mset x (mset (concat (map snd m)))"
  by (induction k x m rule: btree_push.induct) auto

lemma keys_btree_push: "fst ` set (btree_push k x m) = insert k (fst ` set m)"
  by (induction k x m rule: btree_push.induct) auto

lemma sorted_btree_push:
  "sorted_wrt (<) (map fst m) \<Longrightarrow> sorted_wrt (<) (map fst (btree_push k x m))"
proof (induction k x m rule: btree_push.induct)
  case (2 k x k' xs m)
  then show ?case using keys_btree_push [of k x m] by auto
qed simp

definition usable :: "upstream_config \<Rightarrow> bool" where
  "usable u \<longleftrightarrow> trim (up_value u) \<noteq> []"

definition page_order :: "upstream_config list \<Rightarrow> upstream_config list" where
  "page_order us =
     (let (grouped, ungrouped) = group_upstreams us in concat (map snd grouped) @ ungrouped)"

lemma mset_group_upstream:
  "group_upstream (g, un) u = (g', un') \<Longrightarrow>
     mset (concat (map snd g')) + mset un' =
     mset (concat (map snd g)) + mset un + (if usable u then {#u#} else {#})"
  by (auto simp: group_upstream_def usable_def mset_btree_push split: list.splits if_splits)

lemma mset_group_fold:
  "foldl group_upstream (g, un) us = (g', un') \<Longrightarrow>
     mset (concat (map snd g')) + mset un' =
     mset (concat (map snd g)) + mset un + mset (filter usable us)"
proof (induction us arbitrary: g un)
  case (Cons u us)
  obtain g1 un1 where s: "group_upstream (g, un) u = (g1, un1)" by fastforce
  have "foldl group_upstream (g1, un1) us = (g', un')" using Cons.prems s by simp
  then have "mset (concat (map snd g')) + mset un' =
      mset (concat (map snd g1)) + mset un1 + mset (filter usable us)" by (rule Cons.IH)
  then show ?case using mset_group_upstream [OF s] by auto
qed simp

lemma mset_page_order: "mset (page_order us) = mset (filter usable us)"
proof -
  obtain g un where s: "foldl group_upstream ([], []) us = (g, un)" by fastforce
  show ?thesis using mset_group_fold [OF s] s by (simp add: page_order_def group_upstreams_def)
qed

lemma group_upstream_sorted:
  "sorted_wrt (<) (map fst g) \<Longrightarrow> group_upstream (g, un) u = (g', un') \<Longrightarrow>
     sorted_wrt (<) (map fst g')"
  by (auto simp: group_upstream_def sorted_btree_push split: list.splits if_splits)

lemma group_fold_sorted:
  "sorted_wrt (<) (map fst g) \<Longrightarrow> foldl group_upstream (g, un) us = (g', un') \<Longrightarrow>
     sorted_wrt (<) (map fst g')"
proof (induction us arbitrary: g un)
  case (Cons u us)
  obtain g1 un1 where s: "group_upstream (g, un) u = (g1, un1)" by fastforce
  show ?case
    by (rule Cons.IH [OF group_upstream_sorted [OF Cons.prems(1) s]]) (use Cons.prems(2) s in simp)
qed simp

definition group_keys :: "(ustr \<times> upstream_config list) list \<Rightarrow> bool" where
  "group_keys g \<longleftrightarrow> (\<forall>(k, us) \<in> set g. us \<noteq> [] \<and> (\<forall>u \<in> set us. \<exists>r. up_groups u = k # r))"

lemma group_keys_push:
  "group_keys m \<Longrightarrow> up_groups x = k # r \<Longrightarrow> group_keys (btree_push k x m)"
  by (induction k x m rule: btree_push.induct) (auto simp: group_keys_def)

lemma group_fold_keys:
  "group_keys g \<Longrightarrow> foldl group_upstream (g, un) us = (g', un') \<Longrightarrow> group_keys g'"
proof (induction us arbitrary: g un)
  case (Cons u us)
  obtain g1 un1 where s: "group_upstream (g, un) u = (g1, un1)" by fastforce
  have "group_keys g1" using s Cons.prems(1)
    by (auto simp: group_upstream_def group_keys_push split: list.splits if_splits)
  then show ?case by (rule Cons.IH) (use Cons.prems(2) s in simp)
qed simp

lemma group_upstreams_keys:
  "group_upstreams us = (g, un) \<Longrightarrow> group_keys g \<and> sorted_wrt (<) (map fst g)"
  using group_fold_keys [of "[]" "[]" us g un] group_fold_sorted [of "[]" "[]" us g un]
  by (auto simp: group_upstreams_def group_keys_def)

section \<open>Grouping again changes nothing\<close>

lemma btree_push_last: "\<forall>p \<in> set m. fst p < k \<Longrightarrow> btree_push k x m = m @ [(k, [x])]"
  by (induction m) auto

lemma btree_push_again: "\<forall>p \<in> set m. fst p < k \<Longrightarrow> btree_push k x (m @ [(k, xs)]) = m @ [(k, xs @ [x])]"
  by (induction m) auto

lemma group_fold_group:
  assumes "\<forall>p \<in> set m. fst p < k"
  shows "\<forall>u \<in> set us. usable u \<and> (\<exists>r. up_groups u = k # r) \<Longrightarrow>
     foldl group_upstream (m @ [(k, xs)], un) us = (m @ [(k, xs @ us)], un)"
  by (induction us arbitrary: xs)
    (auto simp: group_upstream_def usable_def btree_push_again [OF assms])

lemma group_fold_new_group:
  assumes "\<forall>p \<in> set m. fst p < k" and "us \<noteq> []"
    and "\<forall>u \<in> set us. usable u \<and> (\<exists>r. up_groups u = k # r)"
  shows "foldl group_upstream (m, un) us = (m @ [(k, us)], un)"
proof (cases us)
  case (Cons u us')
  then have "group_upstream (m, un) u = (m @ [(k, [u])], un)"
    using assms(1,3) by (auto simp: group_upstream_def usable_def btree_push_last)
  then show ?thesis using Cons assms group_fold_group [OF assms(1), of us' "[u]" un] by simp
qed (use assms in simp)

lemma group_fold_groups:
  "sorted_wrt (<) (map fst g) \<Longrightarrow> group_keys g \<Longrightarrow> \<forall>u \<in> set (concat (map snd g)). usable u \<Longrightarrow>
     \<forall>p \<in> set m. \<forall>q \<in> set g. fst p < fst q \<Longrightarrow>
     foldl group_upstream (m, un) (concat (map snd g)) = (m @ g, un)"
proof (induction g arbitrary: m)
  case (Cons q g)
  obtain k us where q: "q = (k, us)" by fastforce
  have "foldl group_upstream (m, un) us = (m @ [(k, us)], un)"
    using Cons.prems q by (intro group_fold_new_group) (auto simp: group_keys_def)
  moreover have "foldl group_upstream (m @ [(k, us)], un) (concat (map snd g)) = (m @ (k, us) # g, un)"
    using Cons.prems q by (subst Cons.IH) (auto simp: group_keys_def)
  ultimately show ?case using q by simp
qed simp

lemma group_fold_ungrouped:
  "\<forall>u \<in> set us. usable u \<and> up_groups u = [] \<Longrightarrow> foldl group_upstream (g, un) us = (g, un @ us)"
  by (induction us arbitrary: un) (auto simp: group_upstream_def usable_def)

lemma group_upstream_ungrouped:
  "group_upstream (g, un) u = (g1, un1) \<Longrightarrow> un1 = un \<or> up_groups u = [] \<and> un1 = un @ [u]"
  by (cases "up_groups u") (auto simp: group_upstream_def split: if_splits)

lemma group_fold_ungrouped_members:
  "\<forall>u \<in> set un. up_groups u = [] \<Longrightarrow> foldl group_upstream (g, un) us = (g', un') \<Longrightarrow>
     \<forall>u \<in> set un'. up_groups u = []"
proof (induction us arbitrary: g un)
  case (Cons u us)
  obtain g1 un1 where s: "group_upstream (g, un) u = (g1, un1)" by fastforce
  show ?case
  proof (rule Cons.IH)
    show "\<forall>u \<in> set un1. up_groups u = []"
      using group_upstream_ungrouped [OF s] Cons.prems(1) by (elim disjE) simp_all
    show "foldl group_upstream (g1, un1) us = (g', un')" using Cons.prems(2) s by simp
  qed
qed simp

lemma page_order_idem: "page_order (page_order us) = page_order us"
proof -
  obtain g un where g: "group_upstreams us = (g, un)" by fastforce
  have order: "page_order us = concat (map snd g) @ un" using g by (simp add: page_order_def)
  have "set_mset (mset (page_order us)) = set_mset (mset (filter usable us))"
    by (simp only: mset_page_order)
  then have mem: "\<forall>u \<in> set (concat (map snd g) @ un). usable u" using order by auto
  have "\<forall>u \<in> set un. up_groups u = []"
    by (rule group_fold_ungrouped_members [of "[]" "[]" us g un])
      (use g in \<open>simp_all add: group_upstreams_def\<close>)
  then have "group_upstreams (concat (map snd g) @ un) = (g, un)"
    using mem group_upstreams_keys [OF g] group_fold_groups [of g "[]" "[]"]
    by (simp add: group_upstreams_def group_fold_ungrouped)
  then show ?thesis using order by (simp add: page_order_def)
qed

section \<open>Grouping does not look at the note\<close>

lemma saved_upstream_fields [simp]:
  "up_value (saved_upstream u) = up_value u" "up_groups (saved_upstream u) = up_groups u"
  "saved_upstream (saved_upstream u) = saved_upstream u" "usable (saved_upstream u) = usable u"
  by (simp_all add: saved_upstream_def usable_def)

definition saved_groups :: "(ustr \<times> upstream_config list) list \<Rightarrow> (ustr \<times> upstream_config list) list" where
  "saved_groups g = map (\<lambda>(k, us). (k, map saved_upstream us)) g"

lemma btree_push_saved: "btree_push k (saved_upstream u) (saved_groups g) = saved_groups (btree_push k u g)"
  by (induction k u g rule: btree_push.induct) (auto simp: saved_groups_def)

lemma group_upstream_saved:
  "group_upstream (saved_groups g, map saved_upstream un) (saved_upstream u) =
     (case group_upstream (g, un) u of (g', un') \<Rightarrow> (saved_groups g', map saved_upstream un'))"
  by (auto simp: group_upstream_def btree_push_saved split: list.splits)

lemma group_fold_saved:
  "foldl group_upstream (saved_groups g, map saved_upstream un) (map saved_upstream us) =
     (case foldl group_upstream (g, un) us of (g', un') \<Rightarrow> (saved_groups g', map saved_upstream un'))"
proof (induction us arbitrary: g un)
  case (Cons u us)
  obtain g1 un1 where s: "group_upstream (g, un) u = (g1, un1)" by fastforce
  then have "group_upstream (saved_groups g, map saved_upstream un) (saved_upstream u) =
      (saved_groups g1, map saved_upstream un1)"
    by (simp add: group_upstream_saved)
  then show ?case using Cons s by simp
qed simp

lemma page_order_saved: "page_order (map saved_upstream us) = map saved_upstream (page_order us)"
proof -
  obtain g un where g: "foldl group_upstream ([], []) us = (g, un)" by fastforce
  have "concat (map snd (saved_groups g)) = map saved_upstream (concat (map snd g))"
    by (simp add: saved_groups_def map_concat comp_def split_beta)
  then show ?thesis using group_fold_saved [of "[]" "[]" us] g
    by (simp add: page_order_def group_upstreams_def saved_groups_def)
qed

section \<open>The page as configuration entries\<close>

definition effective_upstreams :: "upstream_config list \<Rightarrow> upstream_config list" where
  "effective_upstreams us = (if us = [] then default_upstreams else us)"

definition safe_upstream :: "upstream_config \<Rightarrow> bool" where
  "safe_upstream u \<longleftrightarrow> wf_upstream u \<and> last (upstream_line u) \<noteq> 92"

lemma no_nl_join: "no_nl sep \<Longrightarrow> (\<And>p. p \<in> set ps \<Longrightarrow> no_nl p) \<Longrightarrow> no_nl (join sep ps)"
  by (induction ps rule: induct_list012) auto

lemma no_nl_option_part: "no_nl f \<Longrightarrow> opt_word v \<Longrightarrow> p \<in> set (option_part f v) \<Longrightarrow> no_nl p"
  by (auto simp: option_part_def opt_word_def no_nl_word split: if_splits)

lemma no_nl_flags [simp]: "f \<in> set upstream_flags \<Longrightarrow> no_nl f"
  by (rule no_nl_word) simp

lemma no_nl_render_options:
  assumes "wf_upstream u"
  shows "no_nl (render_upstream_options u)"
proof -
  have g: "\<And>g. g \<in> set (up_groups u) \<Longrightarrow> opt_word g"
    using assms by (auto simp: wf_upstream_def opt_word_def list_all_iff)
  have "no_nl (join [32] (split_whitespace (up_options u)))"
    by (rule no_nl_join) (auto dest: split_whitespace_words no_nl_word)
  then have o: "no_nl (up_options u)" using assms by (simp add: wf_upstream_def)
  have f: "no_nl (lit ''-group'')" "no_nl (lit ''-exclude-default-group'')" "no_nl (lit ''-proxy'')"
    "no_nl (lit ''-bootstrap-dns'')" "no_nl (lit ''-host-ip'')" "no_nl (lit ''-subnet'')"
    "no_nl (lit ''-fallback'')"
    by (rule no_nl_flags, simp add: upstream_flags_def)+
  have gp: "no_nl p" if "x \<in> set (up_groups u)" "p \<in> set (option_part (lit ''-group'') x)" for p x
    by (rule no_nl_option_part [OF f(1) g [OF that(1)] that(2)])
  show ?thesis
    unfolding render_upstream_options_def
    by (rule no_nl_join) (use assms gp o f in
      \<open>auto simp: wf_upstream_def no_nl_trim elim: no_nl_option_part split: if_splits\<close>)
qed

lemma no_nl_upstream_line: "wf_upstream u \<Longrightarrow> no_nl (upstream_line u)"
  using no_nl_render_options [of u] no_nl_word [OF word_server_keys [OF upstream_key_in]]
    no_nl_word [OF wf_value(1)]
  by (simp add: upstream_line_def Let_def no_nl_trim)

lemma upstream_line_hd:
  "upstream_line u \<noteq> [] \<and> hd (upstream_line u) \<noteq> 35 \<and> non_ws (hd (upstream_line u))"
proof -
  have "\<exists>r. upstream_line u = upstream_key (up_kind u) @ r"
    by (auto simp: upstream_line_def Let_def)
  moreover have "upstream_key (up_kind u) \<noteq> [] \<and> hd (upstream_key (up_kind u)) = 115"
    using upstream_key_in [of "up_kind u"] by (auto simp: server_keys_def lit_def)
  ultimately show ?thesis by (auto simp: is_whitespace_def)
qed

lemma significant_upstream_line [simp]: "significant (upstream_line u)"
  using upstream_line_hd [of u] hd_trim_non_ws [of "upstream_line u"] by (simp add: significant_def)

lemma trimmed_upstream_line:
  assumes "wf_upstream u"
  shows "trimmed (upstream_line u)"
proof -
  have v: "trim (up_value u) = up_value u" "up_value u \<noteq> []" "non_ws (last (up_value u))"
    using wf_value [OF assms] by (auto simp: word_def)
  have "non_ws (last (render_upstream_options u))" if "render_upstream_options u \<noteq> []"
  proof -
    define Q where "Q p \<longleftrightarrow> p \<noteq> [] \<and> non_ws (last p)" for p :: ustr
    have jt: "ps = [] \<or> non_ws (last (join [32] ps))" if "list_all Q ps" for ps
      using that by (induction ps rule: induct_list012) (auto simp: Q_def join_Cons split: if_splits)
    have op: "list_all Q (option_part f w)" for f w
      using trimmed_trim [of w] by (auto simp: option_part_def trimmed_def Q_def)
    have ops: "list_all Q (concat (map (option_part f) gs))" for f gs
      by (induction gs) (simp_all add: op)
    have fl: "Q (lit ''-exclude-default-group'')" "Q (lit ''-fallback'')"
      by (simp_all add: Q_def lit_def is_whitespace_def)
    have o: "list_all Q (if trim (up_options u) \<noteq> [] then [trim (up_options u)] else [])"
      using trimmed_trim [of "up_options u"] by (auto simp: trimmed_def Q_def)
    have parts: "list_all Q
       (concat (map (option_part (lit ''-group'')) (up_groups u)) @
        (if up_exclude_default_group u then [lit ''-exclude-default-group''] else []) @
        option_part (lit ''-proxy'') (up_proxy_name u) @
        option_part (lit ''-bootstrap-dns'') (up_bootstrap_dns u) @
        option_part (lit ''-host-ip'') (up_host_ip u) @
        option_part (lit ''-subnet'') (up_subnet u) @
        (if up_fallback u then [lit ''-fallback''] else []) @
        (if trim (up_options u) \<noteq> [] then [trim (up_options u)] else []))"
      unfolding list_all_append using op ops fl o by (intro conjI) simp_all
    show ?thesis
      using that jt [OF parts] unfolding render_upstream_options_def by (metis join.simps(1))
  qed
  moreover have "render_upstream_options u \<noteq> []" if "trim (render_upstream_options u) \<noteq> []"
    using that by auto
  ultimately show ?thesis using upstream_line_hd [of u] v
    by (auto simp: trimmed_def upstream_line_def Let_def split: if_splits)
qed

lemma plain_upstream_line: "safe_upstream u \<Longrightarrow> plain_line (upstream_line u)"
  using no_nl_upstream_line [of u] trimmed_upstream_line [of u]
  by (simp add: plain_line_def safe_upstream_def trimmed_trim_id)

lemma header_comments:
  "\<And>l. l \<in> set upstreams_header \<Longrightarrow> plain_line l \<and> \<not> significant l"
  by (auto simp: upstreams_header_def lit_Cons intro!: line_intros)

lemma page_order_mem: "u \<in> set (page_order us) \<Longrightarrow> u \<in> set us \<and> usable u"
proof -
  assume "u \<in> set (page_order us)"
  then have "u \<in> set_mset (mset (filter usable us))" by (metis mset_page_order set_mset_mset)
  then show ?thesis by simp
qed

lemma upstreams_page_lines:
  assumes safe: "\<And>u. u \<in> set (effective_upstreams us) \<Longrightarrow> usable u \<Longrightarrow> safe_upstream u"
  shows "\<forall>l \<in> set (render_upstreams_lines us). plain_line l"
    and "filter significant (render_upstreams_lines us) =
       map upstream_line (page_order (effective_upstreams us))"
proof -
  obtain g un where gu: "group_upstreams (effective_upstreams us) = (g, un)" by fastforce
  have order: "page_order (effective_upstreams us) = concat (map snd g) @ un"
    using gu by (simp add: page_order_def)
  have mem: "safe_upstream u" if "u \<in> set (concat (map snd g) @ un)" for u
    using page_order_mem [of u "effective_upstreams us"] that safe order by simp
  have names: "no_nl k" if k: "(k, xs) \<in> set g" for k xs
  proof -
    obtain u r where u: "u \<in> set xs" "up_groups u = k # r"
      using k group_upstreams_keys [OF gu] by (fastforce simp: group_keys_def neq_Nil_conv)
    then have "safe_upstream u" using k by (intro mem) force
    then show ?thesis using u(2) by (auto simp: safe_upstream_def wf_upstream_def no_nl_word)
  qed
  define block where "block = (\<lambda>(gname :: ustr, servers).
     [(lit ''# '' @ [9472, 9472] @ lit '' '' @ [20998, 32452] @ lit '': '') @ gname @
        (lit '' '' @ [9472, 9472])] @ map upstream_line servers @ [[]])"
  have lines: "render_upstreams_lines us = upstreams_header @ concat (map block g) @
      (if un \<noteq> [] then [(lit ''# '' @ [9472, 9472] @ lit '' '' @
        [40664, 35748, 32452, 65288, 26410, 20998, 32452, 65289, 9472, 9472])] @
        map upstream_line un @ [[]] else []) @ [[]]"
    using gu by (simp add: render_upstreams_lines_def effective_upstreams_def block_def)
  have b: "plain_line l" if "p \<in> set g" "l \<in> set (block p)" for p l
  proof -
    have m: "\<And>u. u \<in> set (snd p) \<Longrightarrow> plain_line (upstream_line u)"
      using that(1) mem by (intro plain_upstream_line mem) auto
    show ?thesis using that names [of "fst p" "snd p"] m
      by (auto simp: block_def lit_Cons split_beta intro!: line_intros)
  qed
  show "\<forall>l \<in> set (render_upstreams_lines us). plain_line l"
    unfolding lines using b mem header_comments
    by (auto simp: lit_Cons plain_upstream_line intro!: line_intros)
  have fb: "filter significant (block p) = map upstream_line (snd p)" for p
    by (auto simp: block_def lit_Cons split_beta filter_id_conv)
  have fc: "filter significant (concat (map block ps)) = map upstream_line (concat (map snd ps))" for ps
    by (induction ps) (simp_all add: fb)
  show "filter significant (render_upstreams_lines us) =
      map upstream_line (page_order (effective_upstreams us))"
    unfolding lines order using header_comments
    by (auto simp: fc lit_Cons filter_id_conv filter_empty_conv)
qed

lemma upstreams_page_entries:
  assumes "\<And>u. u \<in> set (effective_upstreams us) \<Longrightarrow> usable u \<Longrightarrow> safe_upstream u"
  shows "map (case_prod parse_upstream_entry) (config_entries (render_upstreams_config us)) =
     map saved_upstream (page_order (effective_upstreams us))"
proof -
  have "config_entries (render_upstreams_config us) =
      map key_value (map upstream_line (page_order (effective_upstreams us)))"
    unfolding render_upstreams_config_def
    using upstreams_page_lines [OF assms] by (subst config_entries_plain) auto
  moreover have "wf_upstream u" if "u \<in> set (page_order (effective_upstreams us))" for u
    using page_order_mem [OF that] assms by (simp add: safe_upstream_def)
  ultimately show ?thesis
    by (simp add: upstream_line_key_value comp_def)
qed

end
