(* ===== verification/Beginner.thy ===== *)
theory Beginner
  imports Upstreams
begin

text \<open>
  The beginner configuration of \<open>src/src/config_ui.rs\<close>: the record \<open>BeginnerConfig\<close>, the five page
  writers (\<open>render_service_config\<close>, \<open>render_upstreams_config\<close> of \<open>Upstreams\<close>,
  \<open>render_performance_config\<close>, \<open>render_logging_config\<close>,
    \<open>render_network_config\<close>) with their
  \<open>push_*\<close> helpers, the reader \<open>parse_beginner_config\<close>, the validator
  \<open>validate_beginner_config\<close>, \<open>recommendations_for\<close> and the defaults. A writer is given as the
  list of lines it pushes; the page is the lines joined by line breaks.
\<close>

record beginner_config =
  bc_server_name :: ustr
  bc_binds :: "ustr list"
  bc_cache_size :: ustr
  bc_prefetch_domain :: bool
  bc_serve_expired :: bool
  bc_serve_expired_ttl :: ustr
  bc_response_mode :: ustr
  bc_speed_check_mode :: ustr
  bc_dualstack_ip_selection :: bool
  bc_log_level :: ustr
  bc_mdns_lookup :: bool
  bc_audit_enable :: bool
  bc_upstreams :: "upstream_config list"
  bc_extras :: "ustr \<rightharpoonup> ustr"

record validation_result =
  vr_ok :: bool
  vr_errors :: "ustr list"
  vr_warnings :: "ustr list"

section \<open>Writing helpers\<close>

definition parse_yesno :: "ustr \<Rightarrow> bool \<Rightarrow> bool" where
  "parse_yesno v default_value =
     (if eq_ignore_ascii_case v (lit ''yes'') \<or> eq_ignore_ascii_case v (lit ''true'') \<or> v = lit ''1'' then True
      else if eq_ignore_ascii_case v (lit ''no'') \<or> eq_ignore_ascii_case v (lit ''false'') \<or> v = lit ''0'' then False
      else default_value)"

definition yesno :: "bool \<Rightarrow> ustr" where
  "yesno b = (if b then lit ''yes'' else lit ''no'')"

text \<open>The lines each helper pushes.\<close>

definition push_kv :: "ustr \<Rightarrow> ustr \<Rightarrow> ustr \<Rightarrow> ustr list" where
  "push_kv key v default_value =
     [key @ [32] @ (if trim v = [] then default_value else trim v)]"

definition push_bool :: "ustr \<Rightarrow> bool \<Rightarrow> ustr list" where
  "push_bool key v = [key @ [32] @ yesno v]"

definition push_extra_if_present :: "beginner_config \<Rightarrow> ustr \<Rightarrow> ustr list" where
  "push_extra_if_present config key =
     (case bc_extras config key of
        None \<Rightarrow> []
      | Some v \<Rightarrow> if trim v \<noteq> [] then [key @ [32] @ trim v] else [])"

definition push_extra_bool_if_present :: "beginner_config \<Rightarrow> ustr \<Rightarrow> ustr list" where
  "push_extra_bool_if_present config key =
     (case bc_extras config key of
        None \<Rightarrow> []
      | Some v \<Rightarrow> if trim v \<noteq> [] then [key @ [32] @
        yesno (parse_yesno (trim v) False)] else [])"

definition split_list_extra :: "beginner_config \<Rightarrow> ustr \<Rightarrow> ustr list" where
  "split_list_extra config key =
     (case bc_extras config key of
        None \<Rightarrow> []
      | Some v \<Rightarrow>
          filter (\<lambda>item. item \<noteq> [] \<and> \<not> starts_with [35] item)
            (map trim (concat (map (split_char 44) (str_lines v)))))"

text \<open>The loops that push one directive per item, trimming and skipping empty items.\<close>

definition push_items :: "ustr \<Rightarrow> ustr list \<Rightarrow> ustr list" where
  "push_items key items = concat (map (\<lambda>v. if trim v \<noteq> [] then [key @ [32] @
    trim v] else []) items)"

definition page_rule :: ustr where
  "page_rule = (lit ''# '' @ [9552, 9552, 9552, 9552, 9552, 9552, 9552, 9552, 9552, 9552, 9552, 9552,
    9552, 9552, 9552, 9552, 9552, 9552, 9552, 9552, 9552, 9552, 9552, 9552, 9552, 9552, 9552, 9552,
      9552, 9552, 9552, 9552, 9552, 9552, 9552, 9552, 9552, 9552, 9552, 9552, 9552, 9552, 9552])"

definition page_author :: ustr where
  "page_author = (lit ''#  '' @ [30001] @ lit '' SmartDNS Plus UI '' @ [29983, 25104])"

section \<open>The pages\<close>

definition service_lines :: "beginner_config \<Rightarrow> ustr list" where
  "service_lines config =
     [page_rule, (lit ''#  SmartDNS '' @ [22522, 30784, 35774, 32622]), page_author, page_rule, []] @
     (if trim (bc_server_name config) \<noteq> []
      then [lit ''server-name'' @ [32] @ trim (bc_server_name config)] else []) @
     push_items (lit ''bind'')
       (if bc_binds config = [] then [lit ''[::]:53''] else bc_binds config) @
     push_items (lit ''bind-tcp'') (split_list_extra config (lit ''bind-tcp'')) @
     [[]] @
     (if split_list_extra config (lit ''bind-tls'') \<noteq> [] \<or> split_list_extra config (lit ''bind-https'') \<noteq> []
      then [(lit ''# '' @ [9472, 9472] @ lit '' TLS / HTTPS '' @ [30417, 21548] @ lit '' '' @ [9472, 9472])] @
           push_items (lit ''bind-tls'') (split_list_extra config (lit ''bind-tls'')) @
           push_items (lit ''bind-https'') (split_list_extra config (lit ''bind-https'')) @
           push_extra_if_present config (lit ''bind-cert-file'') @
           push_extra_if_present config (lit ''bind-cert-key-file'') @
           push_extra_if_present config (lit ''bind-cert-generate'') @
           push_extra_if_present config (lit ''bind-cert-san'') @
           push_extra_if_present config (lit ''bind-cert-key-pass'') @
           push_extra_if_present config (lit ''bind-cert-root-key-file'') @
           push_extra_if_present config (lit ''bind-cert-validity-days'')
      else []) @
     [[], (lit ''# '' @ [9472, 9472] @ lit '' '' @ [21709, 24212, 19982, 27979, 36895] @ lit '' '' @
       [9472, 9472])] @
     push_kv (lit ''response-mode'') (bc_response_mode config) (lit ''first-ping'') @
     push_kv (lit ''speed-check-mode'') (bc_speed_check_mode config) (lit ''ping,tcp:80,tcp:443'') @
     [[], (lit ''# '' @ [9472, 9472] @ lit '' '' @ [36816, 34892, 21442, 25968] @ lit '' '' @ [9472, 9472])] @
     push_bool (lit ''mdns-lookup'') (bc_mdns_lookup config) @
     push_extra_if_present config (lit ''user'') @
     push_extra_if_present config (lit ''socket-buff-size'') @
     push_extra_bool_if_present config (lit ''no-daemon'') @
     push_extra_bool_if_present config (lit ''restart-on-crash'') @
     push_extra_bool_if_present config (lit ''expand-ptr-from-address'') @
     [[], (lit ''# '' @ [9472, 9472] @ lit '' '' @ [20195, 29702] @ lit '' / Hosts / '' @ [35777,
       20070] @ lit '' '' @ [9472, 9472])] @
     push_extra_if_present config (lit ''proxy-server'') @
     push_extra_if_present config (lit ''hosts-file'') @
     push_extra_if_present config (lit ''ca-file'') @
     push_extra_if_present config (lit ''ca-path'') @
     (if split_list_extra config (lit ''conf-file'') \<noteq> []
      then [[], (lit ''# '' @ [9472, 9472] @ lit '' '' @ [33258, 23450, 20041, 24341, 20837, 37197,
        32622] @ lit '' '' @ [9472, 9472])] @
           map (\<lambda>line. lit ''conf-file'' @ [32] @ line) (split_list_extra config (lit ''conf-file''))
      else []) @
     [[]]"

definition render_service_config :: "beginner_config \<Rightarrow> ustr" where
  "render_service_config config = join [10] (service_lines config)"

definition performance_lines :: "beginner_config \<Rightarrow> ustr list" where
  "performance_lines config =
     [page_rule, (lit ''#  SmartDNS '' @ [32531, 23384, 19982, 24615, 33021]), page_author, page_rule,
       [], (lit ''# '' @ [9472, 9472] @ lit '' '' @ [32531, 23384] @ lit '' '' @ [9472, 9472])] @
     push_kv (lit ''cache-size'') (bc_cache_size config) (lit ''32768'') @
     push_bool (lit ''prefetch-domain'') (bc_prefetch_domain config) @
     push_bool (lit ''serve-expired'') (bc_serve_expired config) @
     push_kv (lit ''serve-expired-ttl'') (bc_serve_expired_ttl config) (lit ''86400'') @
     push_extra_if_present config (lit ''cache-persist'') @
     push_extra_if_present config (lit ''cache-file'') @
     [[], (lit ''# '' @ [9472, 9472] @ lit '' TTL '' @ [19982, 26597, 35810, 25511, 21046] @ lit '' '' @
       [9472, 9472])] @
     push_extra_if_present config (lit ''rr-ttl-min'') @
     push_extra_if_present config (lit ''rr-ttl-max'') @
     push_extra_if_present config (lit ''rr-ttl-reply-max'') @
     push_extra_if_present config (lit ''local-ttl'') @
     push_extra_if_present config (lit ''max-reply-ip-num'') @
     push_extra_if_present config (lit ''max-query-limit'') @
     push_extra_if_present config (lit ''tcp-idle-time'') @
     push_extra_if_present config (lit ''serve-expired-reply-ttl'') @
     push_extra_if_present config (lit ''serve-expired-prefetch-time'') @
     [[], (lit ''# '' @ [9472, 9472] @ lit '' '' @ [21452, 26632, 20248, 36873] @ lit '' '' @ [9472, 9472])] @
     push_bool (lit ''dualstack-ip-selection'') (bc_dualstack_ip_selection config) @
     push_extra_if_present config (lit ''dualstack-ip-selection-threshold'') @
     [[]]"

definition render_performance_config :: "beginner_config \<Rightarrow> ustr" where
  "render_performance_config config = join [10] (performance_lines config)"

definition logging_lines :: "beginner_config \<Rightarrow> ustr list" where
  "logging_lines config =
     [page_rule, (lit ''#  SmartDNS '' @ [26085, 24535, 19982, 23457, 35745]), page_author, page_rule,
       [], (lit ''# '' @ [9472, 9472] @ lit '' '' @ [26085, 24535] @ lit '' '' @ [9472, 9472])] @
     push_kv (lit ''log-level'') (bc_log_level config) (lit ''info'') @
     push_extra_if_present config (lit ''log-file'') @
     push_extra_if_present config (lit ''log-size'') @
     push_extra_if_present config (lit ''log-num'') @
     push_extra_bool_if_present config (lit ''log-console'') @
     push_extra_bool_if_present config (lit ''log-syslog'') @
     [[], (lit ''# '' @ [9472, 9472] @ lit '' '' @ [23457, 35745] @ lit '' '' @ [9472, 9472])] @
     push_bool (lit ''audit-enable'') (bc_audit_enable config) @
     push_extra_if_present config (lit ''audit-file'') @
     push_extra_if_present config (lit ''audit-size'') @
     push_extra_if_present config (lit ''audit-num'') @
     push_extra_bool_if_present config (lit ''audit-console'') @
     [[]]"

definition render_logging_config :: "beginner_config \<Rightarrow> ustr" where
  "render_logging_config config = join [10] (logging_lines config)"

definition network_lines :: "beginner_config \<Rightarrow> ustr list" where
  "network_lines config =
     [page_rule, (lit ''#  SmartDNS '' @ [39640, 32423, 32593, 32476]), page_author, page_rule, []] @
     push_extra_if_present config (lit ''force-qtype-SOA'') @
     push_extra_bool_if_present config (lit ''force-AAAA-SOA'') @
     push_extra_bool_if_present config (lit ''force-no-CNAME'') @
     push_extra_if_present config (lit ''edns-client-subnet'') @
     push_extra_if_present config (lit ''dns64'') @
     push_extra_if_present config (lit ''ddns-domain'') @
     push_extra_if_present config (lit ''local-domain'') @
     push_extra_if_present config (lit ''dnsmasq-lease-file'') @
     [[]]"

definition render_network_config :: "beginner_config \<Rightarrow> ustr" where
  "render_network_config config = join [10] (network_lines config)"

section \<open>Reading\<close>

definition beginner_default :: beginner_config where
  "beginner_default =
     \<lparr>bc_server_name = [], bc_binds = [], bc_cache_size = [], bc_prefetch_domain = False,
      bc_serve_expired = False, bc_serve_expired_ttl = [], bc_response_mode = [],
      bc_speed_check_mode = [], bc_dualstack_ip_selection = False, bc_log_level = [],
      bc_mdns_lookup = False, bc_audit_enable = False, bc_upstreams = [], bc_extras = Map.empty\<rparr>"

definition parse_start :: beginner_config where
  "parse_start = beginner_default\<lparr>
     bc_cache_size := lit ''32768'', bc_serve_expired_ttl := lit ''86400'',
     bc_response_mode := lit ''first-ping'', bc_speed_check_mode := lit ''ping,tcp:80,tcp:443'',
     bc_log_level := lit ''info'', bc_prefetch_domain := True, bc_serve_expired := True,
     bc_dualstack_ip_selection := True\<rparr>"

definition upstream_keys :: "ustr list" where
  "upstream_keys =
     [lit ''server'', lit ''server-tcp'', lit ''server-tls'', lit ''server-https'', lit ''server-quic'',
      lit ''server-http3'', lit ''server-h3'']"

definition list_keys :: "ustr list" where
  "list_keys = [lit ''bind-tcp'', lit ''bind-tls'', lit ''bind-https'', lit ''conf-file'']"

definition append_extra :: "(ustr \<rightharpoonup> ustr) \<Rightarrow> ustr \<Rightarrow> ustr \<Rightarrow> (ustr \<rightharpoonup> ustr)" where
  "append_extra extras key v =
     extras(key \<mapsto>
       (case extras key of
          None \<Rightarrow> v
        | Some existing \<Rightarrow> (if existing \<noteq> [] then existing @ [10] else existing) @ v))"

definition beginner_entry :: "beginner_config \<Rightarrow> ustr \<times> ustr \<Rightarrow> beginner_config" where
  "beginner_entry cfg entry =
     (let (key, v) = entry
      in if key = lit ''server-name'' then cfg\<lparr>bc_server_name := v\<rparr>
         else if key = lit ''bind'' then cfg\<lparr>bc_binds := bc_binds cfg @ [v]\<rparr>
         else if key = lit ''cache-size'' then cfg\<lparr>bc_cache_size := v\<rparr>
         else if key = lit ''prefetch-domain'' then cfg\<lparr>bc_prefetch_domain := parse_yesno v True\<rparr>
         else if key = lit ''serve-expired'' then cfg\<lparr>bc_serve_expired := parse_yesno v True\<rparr>
         else if key = lit ''serve-expired-ttl'' then cfg\<lparr>bc_serve_expired_ttl := v\<rparr>
         else if key = lit ''response-mode'' then cfg\<lparr>bc_response_mode := v\<rparr>
         else if key = lit ''speed-check-mode'' then cfg\<lparr>bc_speed_check_mode := v\<rparr>
         else if key = lit ''dualstack-ip-selection'' then
           cfg\<lparr>bc_dualstack_ip_selection := parse_yesno v True\<rparr>
         else if key = lit ''log-level'' then cfg\<lparr>bc_log_level := v\<rparr>
         else if key = lit ''mdns-lookup'' then cfg\<lparr>bc_mdns_lookup := parse_yesno v False\<rparr>
         else if key = lit ''audit-enable'' then cfg\<lparr>bc_audit_enable := parse_yesno v False\<rparr>
         else if key \<in> set upstream_keys then
           cfg\<lparr>bc_upstreams := bc_upstreams cfg @ [parse_upstream_entry key v]\<rparr>
         else if key \<in> set list_keys then
           (if v = [] then cfg else cfg\<lparr>bc_extras := append_extra (bc_extras cfg) key v\<rparr>)
         else if v \<noteq> [] then cfg\<lparr>bc_extras := (bc_extras cfg)(key \<mapsto> v)\<rparr>
         else cfg)"

definition parse_beginner_config :: "ustr \<Rightarrow> beginner_config" where
  "parse_beginner_config text = foldl beginner_entry parse_start (config_entries text)"

section \<open>Validation, recommendations, defaults\<close>

definition group_scan :: "ustr list \<times> int \<Rightarrow> nat \<times> ustr \<Rightarrow> ustr list \<times> int" where
  "group_scan st il =
     (let (errors, depth) = st; (index, line) = il; t = trim line;
          d = (if starts_with (lit ''group-begin '') t then depth + 1
               else if t = lit ''group-end'' then depth - 1 else depth)
      in if d < 0
         then (errors @ [([35268, 21017, 25991, 20214, 31532] @ lit '' '') @ dec_digits (index + 1) @
           (lit '' '' @ [34892, 20986, 29616, 22810, 20313, 30340] @ lit '' group-end'' @ [12290])], 0)
         else (errors, d))"

definition group_errors :: "ustr \<Rightarrow> ustr list" where
  "group_errors rules_text =
     (let (errors, depth) = foldl group_scan ([], 0) (enumerate 0 (str_lines rules_text))
      in if depth > 0 then errors @ [([35268, 21017, 25991, 20214, 20013, 30340] @
        lit '' group-begin / group-end '' @ [26410, 38381, 21512, 12290])] else errors)"

definition validate_beginner_config :: "beginner_config \<Rightarrow> ustr \<Rightarrow> validation_result" where
  "validate_beginner_config config rules_text =
     (let warnings =
            (if list_all (\<lambda>x. trim x = []) (bc_binds config)
             then [([26410, 35774, 32622] @ lit '' bind'' @ [65292, 23558, 33258, 21160, 20351, 29992] @
               lit '' [::]:53'' @ [12290])] else []) @
            (if trim (bc_speed_check_mode config) = []
             then [(lit ''speed-check-mode '' @ [20026, 31354, 26102, 23558, 36864, 22238, 40664, 35748,
               27979, 36895, 31574, 30053, 12290])] else []) @
            (if trim (bc_cache_size config) = []
             then [(lit ''cache-size '' @ [20026, 31354, 26102, 23558, 20351, 29992, 40664, 35748,
               20540] @ lit '' 32768'' @ [12290])] else []) @
            (if bc_serve_expired config \<and> trim (bc_serve_expired_ttl config) = []
             then [([24050, 21551, 29992] @ lit '' serve-expired'' @ [65292, 20294, 26410, 25351,
               23450] @ lit '' TTL'' @ [65292, 23558, 20351, 29992, 40664, 35748, 20540] @
                 lit '' 86400'' @ [12290])] else []);
          errors =
            (if list_all (\<lambda>u. trim (up_value u) = []) (bc_upstreams config)
             then [([33267, 23569, 38656, 35201, 37197, 32622, 19968, 20010, 19978, 28216] @
               lit '' DNS '' @ [26381, 21153, 22120, 12290])] else []) @
            (if trim (bc_response_mode config) = [] then [(lit ''response-mode '' @ [19981, 33021,
              20026, 31354, 12290])] else []) @
            group_errors rules_text
      in \<lparr>vr_ok = (errors = []), vr_errors = errors, vr_warnings = warnings\<rparr>)"

definition recommendations_for :: "beginner_config \<Rightarrow> ustr list" where
  "recommendations_for config =
     (let items =
            (if length (bc_upstreams config) < 2
             then [([24314, 35758, 33267, 23569, 37197, 32622, 20004, 20010, 19978, 28216] @
               lit '' DNS'' @ [65292, 25552, 39640, 23481, 38169, 33021, 21147, 12290])] else []) @
            (if \<not> bc_prefetch_domain config
             then [([20320, 20851, 38381, 20102, 39044, 21462, 32531, 23384, 65307, 22914, 26524, 26356,
               30475, 37325, 20307, 24863, 36895, 24230, 65292, 24314, 35758, 24320, 21551] @
                 lit '' prefetch-domain'' @ [12290])] else []) @
            (if \<not> bc_serve_expired config
             then [([20320, 20851, 38381, 20102, 36807, 26399, 32531, 23384, 20828, 24213, 65307, 36935,
               21040, 19978, 28216] @ lit '' DNS '' @ [25238, 21160, 26102, 65292, 32593, 39029, 21487,
                 33021, 26356, 23481, 26131, 30701, 26242, 25171, 19981, 24320, 12290])]
             else []) @
            (if eq_ignore_ascii_case (bc_log_level config) (lit ''debug'')
             then [([24403, 21069, 26085, 24535, 32423, 21035, 20026] @ lit '' debug'' @ [65292, 36866,
               21512, 25490, 38169, 65292, 20294, 38271, 26399, 36816, 34892, 21487, 33021, 20135,
                 29983, 26356, 22810, 26085, 24535, 12290])] else [])
      in if items = [] then [[24403, 21069, 37197, 32622, 30475, 36215, 26469, 27604, 36739, 31283,
        22949, 65292, 36866, 21512, 23478, 24237, 21644, 26032, 25163, 29615, 22659, 12290]] else items)"

definition default_beginner_config :: beginner_config where
  "default_beginner_config = beginner_default\<lparr>
     bc_server_name := lit ''smartdns'', bc_binds := [lit ''[::]:53''], bc_cache_size := lit ''32768'',
     bc_prefetch_domain := True, bc_serve_expired := True, bc_serve_expired_ttl := lit ''86400'',
     bc_response_mode := lit ''first-ping'', bc_speed_check_mode := lit ''ping,tcp:80,tcp:443'',
     bc_dualstack_ip_selection := True, bc_log_level := lit ''info'', bc_mdns_lookup := False,
     bc_audit_enable := False, bc_upstreams := default_upstreams, bc_extras := Map.empty\<rparr>"

section \<open>What a page is read back as\<close>

definition plain_extra_keys :: "ustr list" where
  "plain_extra_keys =
     [lit ''bind-cert-file'', lit ''bind-cert-key-file'', lit ''bind-cert-generate'', lit ''bind-cert-san'',
      lit ''bind-cert-key-pass'', lit ''bind-cert-root-key-file'', lit ''bind-cert-validity-days'',
      lit ''user'', lit ''socket-buff-size'', lit ''proxy-server'', lit ''hosts-file'', lit ''ca-file'',
        lit ''ca-path'',
      lit ''cache-persist'', lit ''cache-file'', lit ''rr-ttl-min'', lit ''rr-ttl-max'',
        lit ''rr-ttl-reply-max'',
      lit ''local-ttl'', lit ''max-reply-ip-num'', lit ''max-query-limit'', lit ''tcp-idle-time'',
      lit ''serve-expired-reply-ttl'', lit ''serve-expired-prefetch-time'',
      lit ''dualstack-ip-selection-threshold'', lit ''log-file'', lit ''log-size'', lit ''log-num'',
      lit ''audit-file'', lit ''audit-size'', lit ''audit-num'', lit ''force-qtype-SOA'',
        lit ''edns-client-subnet'',
      lit ''dns64'', lit ''ddns-domain'', lit ''local-domain'', lit ''dnsmasq-lease-file'']"

definition bool_extra_keys :: "ustr list" where
  "bool_extra_keys =
     [lit ''no-daemon'', lit ''restart-on-crash'', lit ''expand-ptr-from-address'', lit ''log-console'',
      lit ''log-syslog'', lit ''audit-console'', lit ''force-AAAA-SOA'', lit ''force-no-CNAME'']"

definition cert_keys :: "ustr list" where
  "cert_keys = take 7 plain_extra_keys"

definition extra_entry :: "beginner_config \<Rightarrow> ustr \<Rightarrow> (ustr \<times> ustr) list" where
  "extra_entry config key =
     (case bc_extras config key of
        None \<Rightarrow> []
      | Some v \<Rightarrow> if trim v \<noteq> [] then [(key, trim v)] else [])"

definition extra_bool_entry :: "beginner_config \<Rightarrow> ustr \<Rightarrow> (ustr \<times> ustr) list" where
  "extra_bool_entry config key =
     (case bc_extras config key of
        None \<Rightarrow> []
      | Some v \<Rightarrow> if trim v \<noteq> [] then [(key, yesno (parse_yesno (trim v) False))] else [])"

definition item_entries :: "ustr \<Rightarrow> ustr list \<Rightarrow> (ustr \<times> ustr) list" where
  "item_entries key items = map (Pair key) (filter (\<lambda>v. v \<noteq> []) (map trim items))"

definition kv_entry :: "ustr \<Rightarrow> ustr \<Rightarrow> ustr \<Rightarrow> (ustr \<times> ustr) list" where
  "kv_entry key v default_value = [(key, if trim v = [] then default_value else trim v)]"

lemma extra_keys_ok: "list_all key_ok plain_extra_keys" "list_all key_ok bool_extra_keys"
  by code_simp+

lemma key_ok_plain: "k \<in> set plain_extra_keys \<Longrightarrow> key_ok k"
  using extra_keys_ok(1) by (auto simp: list_all_iff)

lemma key_ok_bool: "k \<in> set bool_extra_keys \<Longrightarrow> key_ok k"
  using extra_keys_ok(2) by (auto simp: list_all_iff)

lemma key_ok_list: "k \<in> set list_keys \<Longrightarrow> key_ok k"
  by (auto simp: list_keys_def key_ok_def word_def lit_def is_whitespace_def)

lemma key_ok_fields:
  "key_ok (lit ''server-name'')" "key_ok (lit ''bind'')" "key_ok (lit ''cache-size'')"
  "key_ok (lit ''prefetch-domain'')" "key_ok (lit ''serve-expired'')" "key_ok (lit ''serve-expired-ttl'')"
  "key_ok (lit ''response-mode'')" "key_ok (lit ''speed-check-mode'')"
  "key_ok (lit ''dualstack-ip-selection'')" "key_ok (lit ''log-level'')" "key_ok (lit ''mdns-lookup'')"
  "key_ok (lit ''audit-enable'')"
  by (simp_all add: key_ok_def word_def lit_def is_whitespace_def)

lemma word_yesno [simp]: "word (yesno b)"
  by (cases b) (simp_all add: yesno_def word_def lit_def is_whitespace_def)

lemma clean_yesno: "clean_value (yesno b)"
  by (rule clean_word, simp, simp add: yesno_def lit_def)

lemma parse_yesno_yesno [simp]: "parse_yesno (yesno b) d = b"
  by (cases b) (simp_all add: parse_yesno_def yesno_def eq_ignore_ascii_case_def ascii_lower_def lit_def)

definition clean_extra :: "beginner_config \<Rightarrow> ustr \<Rightarrow> bool" where
  "clean_extra config key =
     (case bc_extras config key of None \<Rightarrow> True | Some v \<Rightarrow> clean_value v)"

lemma page_kv_trim: "key_ok k \<Longrightarrow> clean_value v \<Longrightarrow> page_entries [k @ [32] @
  trim v] [(k, trim v)]"
  using page_kv [of k "trim v"] by (simp add: clean_trim)

lemma page_extra:
  assumes "k \<in> set plain_extra_keys" and "clean_extra config k"
  shows "page_entries (push_extra_if_present config k) (extra_entry config k)"
  using page_kv_trim [OF key_ok_plain [OF assms(1)]] assms(2)
  by (auto simp: push_extra_if_present_def extra_entry_def clean_extra_def page_Nil
      split: option.splits)

lemma page_extra_bool:
  assumes "k \<in> set bool_extra_keys"
  shows "page_entries (push_extra_bool_if_present config k) (extra_bool_entry config k)"
  using page_kv [OF key_ok_bool [OF assms] clean_yesno]
  by (auto simp: push_extra_bool_if_present_def extra_bool_entry_def page_Nil split: option.splits)

lemma page_push_kv:
  assumes "key_ok k" and "clean_value v" and "clean_value d" and "trimmed d"
  shows "page_entries (push_kv k v d) (kv_entry k v d)"
  using page_kv [OF assms(1) clean_trim [OF assms(2)]] page_kv [OF assms(1,3)] assms(4)
  by (simp add: push_kv_def kv_entry_def trimmed_trim_id)

lemma page_push_bool: "key_ok k \<Longrightarrow> page_entries (push_bool k b) [(k, yesno b)]"
  using page_kv [OF _ clean_yesno, of k b] by (simp add: push_bool_def)

lemma page_push_items:
  assumes "key_ok k" and "\<And>v. v \<in> set items \<Longrightarrow> clean_value v"
  shows "page_entries (push_items k items) (item_entries k items)"
  using assms(2)
proof (induction items)
  case Nil
  then show ?case by (simp add: push_items_def item_entries_def page_Nil)
next
  case (Cons v items)
  have rest: "page_entries (push_items k items) (item_entries k items)" using Cons by simp
  have v: "page_entries [k @ [32] @ trim v] [(k, trim (trim v))]"
    by (rule page_kv [OF assms(1)]) (use Cons in \<open>simp add: clean_trim\<close>)
  show ?case using page_append [OF v rest] rest
    by (simp add: push_items_def item_entries_def)
qed

lemma split_list_extra_items:
  "v \<in> set (split_list_extra config k) \<Longrightarrow> trimmed v \<and> v \<noteq> [] \<and> hd v \<noteq> 35"
  by (cases v) (auto simp: split_list_extra_def split: option.splits)

section \<open>Clean configurations\<close>

text \<open>Every text of the configuration fits on one line of the page it is written to.\<close>

definition clean_beginner :: "beginner_config \<Rightarrow> bool" where
  "clean_beginner c \<longleftrightarrow>
     clean_value (bc_server_name c) \<and> list_all clean_value (bc_binds c) \<and>
     clean_value (bc_cache_size c) \<and> clean_value (bc_serve_expired_ttl c) \<and>
     clean_value (bc_response_mode c) \<and> clean_value (bc_speed_check_mode c) \<and>
     clean_value (bc_log_level c) \<and>
     list_all (clean_extra c) plain_extra_keys \<and>
     list_all (\<lambda>k. list_all clean_value (split_list_extra c k)) list_keys \<and>
     list_all (\<lambda>u. usable u \<longrightarrow> safe_upstream u) (effective_upstreams (bc_upstreams c))"

lemma clean_defaults:
  "clean_value (lit ''32768'')" "clean_value (lit ''86400'')" "clean_value (lit ''first-ping'')"
  "clean_value (lit ''ping,tcp:80,tcp:443'')" "clean_value (lit ''info'')" "clean_value (lit ''[::]:53'')"
  by (rule clean_word, simp_all add: word_def lit_def is_whitespace_def)+

lemma trimmed_defaults:
  "trimmed (lit ''32768'')" "trimmed (lit ''86400'')" "trimmed (lit ''first-ping'')"
  "trimmed (lit ''ping,tcp:80,tcp:443'')" "trimmed (lit ''info'')"
  by (rule word_trimmed, simp add: word_def lit_def is_whitespace_def)+

lemma page_titles:
  "page_entries [page_rule, (lit ''#  SmartDNS '' @ [22522, 30784, 35774, 32622]), page_author,
    page_rule, []] []"
  "page_entries [page_rule, (lit ''#  SmartDNS '' @ [32531, 23384, 19982, 24615, 33021]), page_author,
    page_rule, [], (lit ''# '' @ [9472, 9472] @ lit '' '' @ [32531, 23384] @ lit '' '' @ [9472, 9472])] []"
  "page_entries [page_rule, (lit ''#  SmartDNS '' @ [26085, 24535, 19982, 23457, 35745]), page_author,
    page_rule, [], (lit ''# '' @ [9472, 9472] @ lit '' '' @ [26085, 24535] @ lit '' '' @ [9472, 9472])] []"
  "page_entries [page_rule, (lit ''#  SmartDNS '' @ [39640, 32423, 32593, 32476]), page_author,
    page_rule, []] []"
  "page_entries [[], (lit ''# '' @ [9472, 9472] @ lit '' '' @ [21709, 24212, 19982, 27979, 36895] @
    lit '' '' @ [9472, 9472])] []"
  "page_entries [[], (lit ''# '' @ [9472, 9472] @ lit '' '' @ [36816, 34892, 21442, 25968] @ lit '' '' @
    [9472, 9472])] []"
  "page_entries [[], (lit ''# '' @ [9472, 9472] @ lit '' '' @ [20195, 29702] @ lit '' / Hosts / '' @
    [35777, 20070] @ lit '' '' @ [9472, 9472])] []"
  "page_entries [[], (lit ''# '' @ [9472, 9472] @ lit '' '' @ [33258, 23450, 20041, 24341, 20837, 37197,
    32622] @ lit '' '' @ [9472, 9472])] []"
  "page_entries [[], (lit ''# '' @ [9472, 9472] @ lit '' TTL '' @ [19982, 26597, 35810, 25511, 21046] @
    lit '' '' @ [9472, 9472])] []"
  "page_entries [[], (lit ''# '' @ [9472, 9472] @ lit '' '' @ [21452, 26632, 20248, 36873] @ lit '' '' @
    [9472, 9472])] []"
  "page_entries [[], (lit ''# '' @ [9472, 9472] @ lit '' '' @ [23457, 35745] @ lit '' '' @ [9472, 9472])] []"
  "page_entries [(lit ''# '' @ [9472, 9472] @ lit '' TLS / HTTPS '' @ [30417, 21548] @ lit '' '' @
    [9472, 9472])] []"
  by (auto simp: page_entries_def page_rule_def page_author_def lit_Cons intro!: line_intros)

section \<open>Entries of the pages\<close>

text \<open>Segment by segment what the lines of each page mean.\<close>

definition service_entries :: "beginner_config \<Rightarrow> (ustr \<times> ustr) list" where
  "service_entries config =
     [] @
     (if trim (bc_server_name config) \<noteq> []
      then [(lit ''server-name'', trim (bc_server_name config))] else []) @
     item_entries (lit ''bind'') (if bc_binds config = [] then [lit ''[::]:53''] else bc_binds config) @
     item_entries (lit ''bind-tcp'') (split_list_extra config (lit ''bind-tcp'')) @
     [] @
     (if split_list_extra config (lit ''bind-tls'') \<noteq> [] \<or> split_list_extra config (lit ''bind-https'') \<noteq> []
      then [] @ item_entries (lit ''bind-tls'') (split_list_extra config (lit ''bind-tls'')) @
           item_entries (lit ''bind-https'') (split_list_extra config (lit ''bind-https'')) @
           extra_entry config (lit ''bind-cert-file'') @
           extra_entry config (lit ''bind-cert-key-file'') @
           extra_entry config (lit ''bind-cert-generate'') @
           extra_entry config (lit ''bind-cert-san'') @
           extra_entry config (lit ''bind-cert-key-pass'') @
           extra_entry config (lit ''bind-cert-root-key-file'') @
           extra_entry config (lit ''bind-cert-validity-days'')
      else []) @
     [] @
     kv_entry (lit ''response-mode'') (bc_response_mode config) (lit ''first-ping'') @
     kv_entry (lit ''speed-check-mode'') (bc_speed_check_mode config) (lit ''ping,tcp:80,tcp:443'') @
     [] @
     [(lit ''mdns-lookup'', yesno (bc_mdns_lookup config))] @
     extra_entry config (lit ''user'') @
     extra_entry config (lit ''socket-buff-size'') @
     extra_bool_entry config (lit ''no-daemon'') @
     extra_bool_entry config (lit ''restart-on-crash'') @
     extra_bool_entry config (lit ''expand-ptr-from-address'') @
     [] @
     extra_entry config (lit ''proxy-server'') @
     extra_entry config (lit ''hosts-file'') @
     extra_entry config (lit ''ca-file'') @
     extra_entry config (lit ''ca-path'') @
     (if split_list_extra config (lit ''conf-file'') \<noteq> []
      then [] @ item_entries (lit ''conf-file'') (split_list_extra config (lit ''conf-file'')) else []) @
     []"

definition performance_entries :: "beginner_config \<Rightarrow> (ustr \<times> ustr) list" where
  "performance_entries config =
     [] @
     kv_entry (lit ''cache-size'') (bc_cache_size config) (lit ''32768'') @
     [(lit ''prefetch-domain'', yesno (bc_prefetch_domain config))] @
     [(lit ''serve-expired'', yesno (bc_serve_expired config))] @
     kv_entry (lit ''serve-expired-ttl'') (bc_serve_expired_ttl config) (lit ''86400'') @
     extra_entry config (lit ''cache-persist'') @
     extra_entry config (lit ''cache-file'') @
     [] @
     extra_entry config (lit ''rr-ttl-min'') @
     extra_entry config (lit ''rr-ttl-max'') @
     extra_entry config (lit ''rr-ttl-reply-max'') @
     extra_entry config (lit ''local-ttl'') @
     extra_entry config (lit ''max-reply-ip-num'') @
     extra_entry config (lit ''max-query-limit'') @
     extra_entry config (lit ''tcp-idle-time'') @
     extra_entry config (lit ''serve-expired-reply-ttl'') @
     extra_entry config (lit ''serve-expired-prefetch-time'') @
     [] @
     [(lit ''dualstack-ip-selection'', yesno (bc_dualstack_ip_selection config))] @
     extra_entry config (lit ''dualstack-ip-selection-threshold'') @
     []"

definition logging_entries :: "beginner_config \<Rightarrow> (ustr \<times> ustr) list" where
  "logging_entries config =
     [] @
     kv_entry (lit ''log-level'') (bc_log_level config) (lit ''info'') @
     extra_entry config (lit ''log-file'') @
     extra_entry config (lit ''log-size'') @
     extra_entry config (lit ''log-num'') @
     extra_bool_entry config (lit ''log-console'') @
     extra_bool_entry config (lit ''log-syslog'') @
     [] @
     [(lit ''audit-enable'', yesno (bc_audit_enable config))] @
     extra_entry config (lit ''audit-file'') @
     extra_entry config (lit ''audit-size'') @
     extra_entry config (lit ''audit-num'') @
     extra_bool_entry config (lit ''audit-console'') @
     []"

definition network_entries :: "beginner_config \<Rightarrow> (ustr \<times> ustr) list" where
  "network_entries config =
     [] @
     extra_entry config (lit ''force-qtype-SOA'') @
     extra_bool_entry config (lit ''force-AAAA-SOA'') @
     extra_bool_entry config (lit ''force-no-CNAME'') @
     extra_entry config (lit ''edns-client-subnet'') @
     extra_entry config (lit ''dns64'') @
     extra_entry config (lit ''ddns-domain'') @
     extra_entry config (lit ''local-domain'') @
     extra_entry config (lit ''dnsmasq-lease-file'') @
     []"


lemma clean_beginner_extra:
  "clean_beginner c \<Longrightarrow> k \<in> set plain_extra_keys \<Longrightarrow> clean_extra c k"
  by (auto simp: clean_beginner_def list_all_iff)

lemma clean_beginner_list:
  "clean_beginner c \<Longrightarrow> k \<in> set list_keys \<Longrightarrow> v \<in> set (split_list_extra c k) \<Longrightarrow> clean_value v"
  by (auto simp: clean_beginner_def list_all_iff)

lemma clean_beginner_binds: "clean_beginner c \<Longrightarrow> v \<in> set (bc_binds c) \<Longrightarrow> clean_value v"
  by (auto simp: clean_beginner_def list_all_iff)

lemma clean_beginner_fields:
  assumes "clean_beginner c"
  shows "clean_value (bc_server_name c)" "clean_value (bc_cache_size c)"
    "clean_value (bc_serve_expired_ttl c)" "clean_value (bc_response_mode c)"
    "clean_value (bc_speed_check_mode c)" "clean_value (bc_log_level c)"
  using assms by (simp_all add: clean_beginner_def)

text \<open>One rule per kind of segment; the rest of the page is the first premise.\<close>

lemma seg_extra:
  "page_entries ls es \<Longrightarrow> clean_beginner c \<Longrightarrow> k \<in> set plain_extra_keys \<Longrightarrow>
     page_entries (push_extra_if_present c k @ ls) (extra_entry c k @ es)"
  by (intro page_append page_extra clean_beginner_extra)

lemma seg_extra_bool:
  "page_entries ls es \<Longrightarrow> k \<in> set bool_extra_keys \<Longrightarrow>
     page_entries (push_extra_bool_if_present c k @ ls) (extra_bool_entry c k @ es)"
  by (intro page_append page_extra_bool)

lemma seg_kv:
  "page_entries ls es \<Longrightarrow> key_ok k \<Longrightarrow> clean_value v \<Longrightarrow> clean_value d \<Longrightarrow> trimmed d \<Longrightarrow>
     page_entries (push_kv k v d @ ls) (kv_entry k v d @ es)"
  by (intro page_append page_push_kv)

lemma seg_bool:
  "page_entries ls es \<Longrightarrow> key_ok k \<Longrightarrow> page_entries (push_bool k b @
    ls) ([(k, yesno b)] @ es)"
  by (rule page_append [OF page_push_bool])

lemma seg_items:
  "page_entries ls es \<Longrightarrow> key_ok k \<Longrightarrow> list_all clean_value items \<Longrightarrow>
     page_entries (push_items k items @ ls) (item_entries k items @ es)"
  by (intro page_append page_push_items) (auto simp: list_all_iff)

lemma seg_list:
  "page_entries ls es \<Longrightarrow> clean_beginner c \<Longrightarrow> k \<in> set list_keys \<Longrightarrow>
     page_entries (push_items k (split_list_extra c k) @ ls) (item_entries k (split_list_extra c k) @ es)"
  by (intro page_append page_push_items key_ok_list) (auto intro: clean_beginner_list)

lemma seg_title:
  "page_entries ls es \<Longrightarrow> page_entries t [] \<Longrightarrow> page_entries (t @ ls) ([] @ es)"
  by (rule page_append)

lemma page_end: "page_entries [[]] []"
  by (rule page_blank)

lemmas segs = seg_extra seg_extra_bool seg_kv seg_bool seg_items seg_list

lemma extra_key_members:
  "lit ''bind-cert-file'' \<in> set plain_extra_keys"
  "lit ''bind-cert-key-file'' \<in> set plain_extra_keys"
  "lit ''bind-cert-generate'' \<in> set plain_extra_keys"
  "lit ''bind-cert-san'' \<in> set plain_extra_keys"
  "lit ''bind-cert-key-pass'' \<in> set plain_extra_keys"
  "lit ''bind-cert-root-key-file'' \<in> set plain_extra_keys"
  "lit ''bind-cert-validity-days'' \<in> set plain_extra_keys"
  "lit ''user'' \<in> set plain_extra_keys"
  "lit ''socket-buff-size'' \<in> set plain_extra_keys"
  "lit ''proxy-server'' \<in> set plain_extra_keys"
  "lit ''hosts-file'' \<in> set plain_extra_keys"
  "lit ''ca-file'' \<in> set plain_extra_keys"
  "lit ''ca-path'' \<in> set plain_extra_keys"
  "lit ''cache-persist'' \<in> set plain_extra_keys"
  "lit ''cache-file'' \<in> set plain_extra_keys"
  "lit ''rr-ttl-min'' \<in> set plain_extra_keys"
  "lit ''rr-ttl-max'' \<in> set plain_extra_keys"
  "lit ''rr-ttl-reply-max'' \<in> set plain_extra_keys"
  "lit ''local-ttl'' \<in> set plain_extra_keys"
  "lit ''max-reply-ip-num'' \<in> set plain_extra_keys"
  "lit ''max-query-limit'' \<in> set plain_extra_keys"
  "lit ''tcp-idle-time'' \<in> set plain_extra_keys"
  "lit ''serve-expired-reply-ttl'' \<in> set plain_extra_keys"
  "lit ''serve-expired-prefetch-time'' \<in> set plain_extra_keys"
  "lit ''dualstack-ip-selection-threshold'' \<in> set plain_extra_keys"
  "lit ''log-file'' \<in> set plain_extra_keys"
  "lit ''log-size'' \<in> set plain_extra_keys"
  "lit ''log-num'' \<in> set plain_extra_keys"
  "lit ''audit-file'' \<in> set plain_extra_keys"
  "lit ''audit-size'' \<in> set plain_extra_keys"
  "lit ''audit-num'' \<in> set plain_extra_keys"
  "lit ''force-qtype-SOA'' \<in> set plain_extra_keys"
  "lit ''edns-client-subnet'' \<in> set plain_extra_keys"
  "lit ''dns64'' \<in> set plain_extra_keys"
  "lit ''ddns-domain'' \<in> set plain_extra_keys"
  "lit ''local-domain'' \<in> set plain_extra_keys"
  "lit ''dnsmasq-lease-file'' \<in> set plain_extra_keys"
  "lit ''no-daemon'' \<in> set bool_extra_keys"
  "lit ''restart-on-crash'' \<in> set bool_extra_keys"
  "lit ''expand-ptr-from-address'' \<in> set bool_extra_keys"
  "lit ''log-console'' \<in> set bool_extra_keys"
  "lit ''log-syslog'' \<in> set bool_extra_keys"
  "lit ''audit-console'' \<in> set bool_extra_keys"
  "lit ''force-AAAA-SOA'' \<in> set bool_extra_keys"
  "lit ''force-no-CNAME'' \<in> set bool_extra_keys"
  "lit ''bind-tcp'' \<in> set list_keys"
  "lit ''bind-tls'' \<in> set list_keys"
  "lit ''bind-https'' \<in> set list_keys"
  "lit ''conf-file'' \<in> set list_keys"
  by (simp_all add: plain_extra_keys_def bool_extra_keys_def list_keys_def)

lemma performance_page: "clean_beginner c \<Longrightarrow> page_entries (performance_lines c) (performance_entries c)"
  unfolding performance_lines_def performance_entries_def
  by (rule segs page_end seg_title page_titles extra_key_members key_ok_fields clean_defaults
      trimmed_defaults clean_beginner_fields | assumption)+

lemma logging_page: "clean_beginner c \<Longrightarrow> page_entries (logging_lines c) (logging_entries c)"
  unfolding logging_lines_def logging_entries_def
  by (rule segs page_end seg_title page_titles extra_key_members key_ok_fields clean_defaults
      trimmed_defaults clean_beginner_fields | assumption)+

lemma network_page: "clean_beginner c \<Longrightarrow> page_entries (network_lines c) (network_entries c)"
  unfolding network_lines_def network_entries_def
  by (rule segs page_end seg_title page_titles extra_key_members key_ok_fields clean_defaults
      trimmed_defaults clean_beginner_fields | assumption)+

lemma seg_if:
  "page_entries ls es \<Longrightarrow> (P \<Longrightarrow> page_entries a x) \<Longrightarrow>
     page_entries ((if P then a else []) @ ls) ((if P then x else []) @ es)"
  by (simp add: page_append)

lemma seg_if_kv:
  "page_entries ls es \<Longrightarrow> key_ok k \<Longrightarrow> clean_value v \<Longrightarrow>
     page_entries ((if trim v \<noteq> [] then [k @ [32] @ trim v] else []) @ ls)
       ((if trim v \<noteq> [] then [(k, trim v)] else []) @ es)"
  by (intro seg_if page_kv_trim)

lemma page_list:
  "clean_beginner c \<Longrightarrow> k \<in> set list_keys \<Longrightarrow>
     page_entries (map (\<lambda>line. k @ [32] @ line) (split_list_extra c k))
       (item_entries k (split_list_extra c k))"
  using page_push_items [OF key_ok_list, of k "split_list_extra c k"] clean_beginner_list [of c k]
    split_list_extra_items [of _ c k]
  by (auto simp: push_items_def trimmed_trim_id cong: map_cong)

lemma clean_binds:
  "clean_beginner c \<Longrightarrow> list_all clean_value (if bc_binds c = [] then [lit ''[::]:53''] else bc_binds c)"
  by (auto simp: list_all_iff clean_defaults intro: clean_beginner_binds)

lemma service_page: "clean_beginner c \<Longrightarrow> page_entries (service_lines c) (service_entries c)"
  unfolding service_lines_def service_entries_def
  by (rule seg_if_kv segs seg_if page_list page_extra clean_beginner_extra clean_binds page_end seg_title
      page_titles extra_key_members key_ok_fields clean_defaults trimmed_defaults clean_beginner_fields
      | assumption)+

end
