(* ===== verification/Managed_Assets.thy ===== *)
theory Managed_Assets
  imports Conf_Lines Upstreams Beginner
begin

text \<open>
  The rule assets of \<open>src/src/config_ui.rs\<close>: the \<open>Managed*\<close> records, the reader
  \<open>parse_managed_assets_from_text\<close>, the page writers \<open>render_sets_text\<close>,
  \<open>render_routing_items_text\<close>, \<open>render_rule_entries_text\<close> and \<open>render_managed_assets_text\<close>, and
  \<open>validate_managed_assets\<close>. The lemmas read the pages back: sets,
    routing items and address rules
  survive, rule groups and client rules do not because no page holds them.
\<close>

record managed_rule_group =
  mg_name :: ustr
  mg_inherit :: ustr
  mg_matchers :: "ustr list"

record managed_client_rule =
  mc_matcher :: ustr
  mc_group_name :: ustr

record managed_ip_rule =
  mi_rule_type :: ustr
  mi_target :: ustr
  mi_options :: ustr
  mi_group_name :: ustr

record managed_routing_item =
  mr_rule_type :: ustr
  mr_target :: ustr
  mr_value :: ustr

record managed_domain_set =
  md_name :: ustr
  md_file :: ustr
  md_set_type :: ustr

record managed_ip_set =
  ms_name :: ustr
  ms_file :: ustr

record managed_assets =
  ma_rule_groups :: "managed_rule_group list"
  ma_client_rules :: "managed_client_rule list"
  ma_ip_rules :: "managed_ip_rule list"
  ma_routing_items :: "managed_routing_item list"
  ma_domain_sets :: "managed_domain_set list"
  ma_ip_sets :: "managed_ip_set list"

definition assets_empty :: managed_assets where
  "assets_empty = \<lparr>ma_rule_groups = [], ma_client_rules = [], ma_ip_rules = [],
     ma_routing_items = [], ma_domain_sets = [], ma_ip_sets = []\<rparr>"

section \<open>Reading\<close>

definition ip_rule_keys :: "ustr list" where
  "ip_rule_keys =
     [lit ''ip-rules'', lit ''whitelist-ip'', lit ''blacklist-ip'', lit ''ignore-ip'',
       lit ''bogus-nxdomain'', lit ''ip-alias'']"

definition routing_keys :: "ustr list" where
  "routing_keys = [lit ''nameserver'', lit ''domain-rules'', lit ''address'', lit ''cname'']"

definition opt_or :: "ustr \<Rightarrow> ustr option \<Rightarrow> ustr" where
  "opt_or d x = (case x of None \<Rightarrow> d | Some v \<Rightarrow> v)"

definition open_group_name :: "managed_rule_group option \<Rightarrow> ustr" where
  "open_group_name in_group = (case in_group of None \<Rightarrow> [] | Some g \<Rightarrow> mg_name g)"

type_synonym reader = "managed_assets \<times> managed_rule_group option"

definition managed_entry :: "reader \<Rightarrow> ustr \<times> ustr \<Rightarrow> reader" where
  "managed_entry st entry =
     (let (a, in_group) = st; (key, v) = entry
      in if key = lit ''group-begin'' then
           (a, Some \<lparr>mg_name = first_word v,
                 mg_inherit = opt_or [] (parse_named_option v (lit ''-inherit'')), mg_matchers = []\<rparr>)
         else if key = lit ''group-match'' then
           (a, map_option (\<lambda>g. g\<lparr>mg_matchers := mg_matchers g @ [v]\<rparr>) in_group)
         else if key = lit ''group-end'' then
           (case in_group of
              None \<Rightarrow> (a, None)
            | Some g \<Rightarrow> (a\<lparr>ma_rule_groups := ma_rule_groups a @ [g]\<rparr>, None))
         else if key = lit ''client-rules'' then
           (a\<lparr>ma_client_rules := ma_client_rules a @
                [\<lparr>mc_matcher = v, mc_group_name = open_group_name in_group\<rparr>]\<rparr>, in_group)
         else if key \<in> set ip_rule_keys then
           (let (target, options) = split_target_options v
            in (a\<lparr>ma_ip_rules := ma_ip_rules a @
                   [\<lparr>mi_rule_type = key, mi_target = target, mi_options = options,
                     mi_group_name = open_group_name in_group\<rparr>]\<rparr>, in_group))
         else if key \<in> set routing_keys then
           (let (target, value) = split_target_value v
            in (a\<lparr>ma_routing_items := ma_routing_items a @
                   [\<lparr>mr_rule_type = key, mr_target = target, mr_value = value\<rparr>]\<rparr>,
                     in_group))
         else if key = lit ''domain-set'' then
           (let name = opt_or [] (parse_named_option v (lit ''-name''));
                file = opt_or [] (parse_named_option v (lit ''-file''));
                set_type = opt_or (lit ''list'') (parse_named_option v (lit ''-type''))
            in if name \<noteq> []
               then (a\<lparr>ma_domain_sets := ma_domain_sets a @
                       [\<lparr>md_name = name, md_file = file, md_set_type = set_type\<rparr>]\<rparr>,
                         in_group)
               else (a, in_group))
         else if key = lit ''ip-set'' then
           (let name = opt_or [] (parse_named_option v (lit ''-name''));
                file = opt_or [] (parse_named_option v (lit ''-file''))
            in if name \<noteq> []
               then (a\<lparr>ma_ip_sets := ma_ip_sets a @ [\<lparr>ms_name = name,
                 ms_file = file\<rparr>]\<rparr>, in_group)
               else (a, in_group))
         else (a, in_group))"

definition managed_finish :: "reader \<Rightarrow> managed_assets" where
  "managed_finish st =
     (case snd st of
        None \<Rightarrow> fst st
      | Some g \<Rightarrow> (fst st)\<lparr>ma_rule_groups := ma_rule_groups (fst st) @ [g]\<rparr>)"

definition parse_managed_assets_from_text :: "ustr \<Rightarrow> managed_assets" where
  "parse_managed_assets_from_text text =
     managed_finish (foldl managed_entry (assets_empty, None) (config_entries text))"

section \<open>Writing\<close>

definition generated_by :: ustr where
  "generated_by = lit ''# Generated by smartdns-plus-ui''"

text \<open>Each page: three header lines, its sections, a hint when there is no section, a final empty
  line. \<open>lines.len() <= 3\<close> tests that no section was written.\<close>

definition page_tail :: "ustr list \<Rightarrow> ustr \<Rightarrow> ustr list" where
  "page_tail ls hint = (if length ls \<le> 3 then ls @ [hint] else ls) @ [[]]"

definition domain_set_line :: "managed_domain_set \<Rightarrow> ustr" where
  "domain_set_line ds =
     lit ''domain-set -name '' @ md_name ds @ lit '' -type '' @ md_set_type ds @ lit '' -file '' @ md_file ds"

definition ip_set_line :: "managed_ip_set \<Rightarrow> ustr" where
  "ip_set_line ips = lit ''ip-set -name '' @ ms_name ips @ lit '' -file '' @ ms_file ips"

definition sets_lines :: "managed_assets \<Rightarrow> ustr list" where
  "sets_lines assets = page_tail
     ([generated_by, (lit ''# '' @ [38598, 21512, 31649, 29702, 65288] @ lit ''domain-set / ip-set'' @
       [65289]), []] @
      (if ma_domain_sets assets \<noteq> []
       then [(lit ''# '' @ [9472, 9472] @ lit '' '' @ [22495, 21517, 38598, 21512] @ lit '' '' @ [9472,
         9472])] @ map domain_set_line (ma_domain_sets assets) @ [[]] else []) @
      (if ma_ip_sets assets \<noteq> []
       then [(lit ''# '' @ [9472, 9472] @ lit '' IP '' @ [38598, 21512] @ lit '' '' @ [9472, 9472])] @
         map ip_set_line (ma_ip_sets assets) @ [[]] else []))
     (lit ''# '' @ [36824, 27809, 26377, 20219, 20309, 38598, 21512, 23450, 20041, 12290])"

definition render_sets_text :: "managed_assets \<Rightarrow> ustr" where
  "render_sets_text assets = join [10] (sets_lines assets)"

definition nameserver_line :: "managed_routing_item \<Rightarrow> ustr" where
  "nameserver_line item =
     (if mr_value item = [] then mr_rule_type item @ [32] @ mr_target item
      else mr_rule_type item @ [32] @ mr_target item @ [47] @ mr_value item)"

definition routing_lines :: "managed_assets \<Rightarrow> ustr list" where
  "routing_lines assets =
     (let routing_items = filter (\<lambda>item. mr_rule_type item = lit ''nameserver'') (ma_routing_items assets)
      in page_tail
           ([generated_by, (lit ''# '' @ [19978, 28216, 20998, 27969, 65288] @ lit ''nameserver'' @
             [65289]), []] @
            (if routing_items \<noteq> [] then [(lit ''# '' @ [9472, 9472] @ lit '' '' @ [20998, 27969,
              35268, 21017] @ lit '' '' @ [9472, 9472])] @ map nameserver_line routing_items @ [[]]
             else []))
           (lit ''# '' @ [36824, 27809, 26377, 20219, 20309, 19978, 28216, 20998, 27969, 35268, 21017,
             12290]))"

definition render_routing_items_text :: "managed_assets \<Rightarrow> ustr" where
  "render_routing_items_text assets = join [10] (routing_lines assets)"

definition domain_rule_line :: "managed_routing_item \<Rightarrow> ustr" where
  "domain_rule_line item =
     (let target = (if ends_with [47] (mr_target item) then mr_target item else mr_target item @ [47])
      in if mr_value item = [] then mr_rule_type item @ [32] @ target
         else mr_rule_type item @ [32] @ target @ [32] @ mr_value item)"

definition ip_rule_line :: "managed_ip_rule \<Rightarrow> ustr" where
  "ip_rule_line rule =
     (if mi_options rule = [] then mi_rule_type rule @ [32] @ mi_target rule
      else mi_rule_type rule @ [32] @ mi_target rule @ [32] @ mi_options rule)"

definition rule_entries_lines :: "managed_assets \<Rightarrow> ustr list" where
  "rule_entries_lines assets =
     (let others = filter (\<lambda>item. mr_rule_type item \<noteq> lit ''nameserver'') (ma_routing_items assets)
      in page_tail
           ([generated_by, (lit ''# '' @ [35268, 21017, 65288] @
             lit ''domain-rules / address / cname / ip-rules'' @ [65289]), []] @
            (if others \<noteq> [] then [(lit ''# '' @ [9472, 9472] @ lit '' '' @ [22495, 21517, 35268,
              21017, 19982, 22320, 22336, 25913, 20889] @ lit '' '' @ [9472, 9472])] @
                map domain_rule_line others @ [[]]
             else []) @
            (if ma_ip_rules assets \<noteq> []
             then [(lit ''# '' @ [9472, 9472] @ lit '' IP '' @ [35268, 21017] @ lit '' '' @ [9472,
               9472])] @ map ip_rule_line (ma_ip_rules assets) @ [[]] else []))
           (lit ''# '' @ [36824, 27809, 26377, 20219, 20309, 35268, 21017, 12290]))"

definition render_rule_entries_text :: "managed_assets \<Rightarrow> ustr" where
  "render_rule_entries_text assets = join [10] (rule_entries_lines assets)"

definition render_managed_assets_text :: "managed_assets \<Rightarrow> ustr" where
  "render_managed_assets_text assets = join_nonempty_sections
     [render_sets_text assets, render_routing_items_text assets, render_rule_entries_text assets]"

section \<open>Validation\<close>

fun duplicate_groups :: "ustr set \<Rightarrow> managed_rule_group list \<Rightarrow> ustr list" where
  "duplicate_groups seen [] = []"
| "duplicate_groups seen (g # gs) =
     (if mg_name g \<in> seen then [[35268, 21017, 32452, 21517, 31216, 37325, 22797, 65306] @
       mg_name g] else []) @
     duplicate_groups (insert (mg_name g) seen) gs"

definition validate_managed_assets :: "managed_assets \<Rightarrow> validation_result" where
  "validate_managed_assets assets =
     (let errors =
            duplicate_groups {} (ma_rule_groups assets) @
            concat (map (\<lambda>r. if trim (mc_matcher r) = [] then [[23458, 25143, 31471, 35268,
              21017, 19981, 33021, 20026, 31354, 12290]] else [])
              (ma_client_rules assets)) @
            concat (map (\<lambda>r. if trim (mi_target r) = []
                then [mi_rule_type r @ (lit '' '' @ [35268, 21017, 30340, 30446, 26631, 19981, 33021,
                  20026, 31354, 12290])] else []) (ma_ip_rules assets)) @
            concat (map (\<lambda>i. if trim (mr_target i) = []
                then [mr_rule_type i @ (lit '' '' @ [35268, 21017, 30340, 30446, 26631, 19981, 33021,
                  20026, 31354, 12290])] else []) (ma_routing_items assets))
      in \<lparr>vr_ok = (errors = []), vr_errors = errors, vr_warnings = []\<rparr>)"

lemma duplicate_groups_Nil:
  "duplicate_groups seen gs = [] \<longleftrightarrow> distinct (map mg_name gs) \<and> mg_name ` set gs \<inter> seen = {}"
  by (induction gs arbitrary: seen) auto

lemma concat_map_if_Nil:
  "concat (map (\<lambda>x. if P x then [f x] else []) xs) = [] \<longleftrightarrow> (\<forall>x \<in> set xs. \<not> P x)"
  by (induction xs) auto

text \<open>Assets are accepted exactly when group names are distinct and no client rule, address
  rule or routing item has a blank target.\<close>

theorem managed_validation_ok_iff:
  "vr_ok (validate_managed_assets a) \<longleftrightarrow>
     distinct (map mg_name (ma_rule_groups a)) \<and>
     list_all (\<lambda>r. trim (mc_matcher r) \<noteq> []) (ma_client_rules a) \<and>
     list_all (\<lambda>r. trim (mi_target r) \<noteq> []) (ma_ip_rules a) \<and>
     list_all (\<lambda>i. trim (mr_target i) \<noteq> []) (ma_routing_items a)"
  by (simp add: validate_managed_assets_def Let_def duplicate_groups_Nil concat_map_if_Nil list_all_iff
      del: distinct_map concat_eq_Nil_conv)

section \<open>Well-formed assets\<close>

text \<open>The assets the pages can hold: names, types and files are single words, a target is a
  \<open>/domain\<close> path, a routing value has no slash.\<close>

definition set_flags :: "ustr list" where
  "set_flags = [lit ''-name'', lit ''-type'', lit ''-file'']"

definition wf_domain_set :: "managed_domain_set \<Rightarrow> bool" where
  "wf_domain_set d \<longleftrightarrow> word (md_name d) \<and> word (md_set_type d) \<and> word (md_file d) \<and>
     last (md_file d) \<noteq> 92 \<and> md_name d \<notin> set set_flags \<and> md_set_type d \<notin> set set_flags"

definition wf_ip_set :: "managed_ip_set \<Rightarrow> bool" where
  "wf_ip_set s \<longleftrightarrow> word (ms_name s) \<and> word (ms_file s) \<and> last (ms_file s) \<noteq> 92 \<and>
     ms_name s \<notin> set set_flags"

definition wf_routing_item :: "managed_routing_item \<Rightarrow> bool" where
  "wf_routing_item i \<longleftrightarrow>
     mr_rule_type i \<in> set routing_keys \<and>
     starts_with [47] (mr_target i) \<and> \<not> ends_with [47] (mr_target i) \<and> no_nl (mr_target i) \<and>
     trimmed (mr_value i) \<and> clean_value (mr_value i) \<and> 47 \<notin> set (mr_value i) \<and>
     (mr_rule_type i = lit ''nameserver'' \<longrightarrow> mr_value i \<noteq> [])"

definition wf_ip_rule :: "managed_ip_rule \<Rightarrow> bool" where
  "wf_ip_rule r \<longleftrightarrow>
     mi_rule_type r \<in> set ip_rule_keys \<and> word (mi_target r) \<and> \<not> starts_with [47] (mi_target r) \<and>
     last (mi_target r) \<noteq> 92 \<and> trimmed (mi_options r) \<and> clean_value (mi_options r)"

definition wf_assets :: "managed_assets \<Rightarrow> bool" where
  "wf_assets a \<longleftrightarrow>
     list_all wf_domain_set (ma_domain_sets a) \<and> list_all wf_ip_set (ma_ip_sets a) \<and>
     list_all wf_routing_item (ma_routing_items a) \<and> list_all wf_ip_rule (ma_ip_rules a)"

lemma key_ok_assets:
  "k \<in> set ip_rule_keys \<Longrightarrow> key_ok k" "k \<in> set routing_keys \<Longrightarrow> key_ok k"
  "key_ok (lit ''domain-set'')" "key_ok (lit ''ip-set'')"
  by (auto simp: ip_rule_keys_def routing_keys_def key_ok_def word_def lit_def is_whitespace_def)

lemma word_set_flags: "f \<in> set set_flags \<Longrightarrow> word f"
  by (auto simp: set_flags_def word_def lit_def is_whitespace_def)

section \<open>Lines and what they add\<close>

text \<open>\<open>lines_read ls f\<close>: the lines \<open>ls\<close> are directives on assets,
  and reading them outside of any
  group applies \<open>f\<close> to the assets.\<close>

definition asset_keys :: "ustr list" where
  "asset_keys = ip_rule_keys @ routing_keys @ [lit ''domain-set'', lit ''ip-set'']"

definition lines_read :: "ustr list \<Rightarrow> (managed_assets \<Rightarrow> managed_assets) \<Rightarrow> bool" where
  "lines_read ls f \<longleftrightarrow>
     (\<exists>es. page_entries ls es \<and> fst ` set es \<subseteq> set asset_keys \<and>
        (\<forall>a. foldl managed_entry (a, None) es = (f a, None)))"

lemma lines_read_skip: "page_entries ls [] \<Longrightarrow> lines_read ls id"
  unfolding lines_read_def by (rule exI [of _ "[]"]) simp

lemma lines_read_append: "lines_read a f \<Longrightarrow> lines_read b g \<Longrightarrow> lines_read (a @ b) (g \<circ> f)"
  unfolding lines_read_def
  by (elim exE conjE, rule_tac x = "es @ esa" in exI) (auto simp: page_append)

lemma lines_read_one:
  assumes "page_entries [l] [(k, v)]" and "\<And>a. managed_entry (a, None) (k, v) = (f a, None)"
    and "k \<in> set asset_keys"
  shows "lines_read [l] f"
  unfolding lines_read_def by (rule exI [of _ "[(k, v)]"]) (use assms in simp)

definition add_domain_sets :: "managed_domain_set list \<Rightarrow> managed_assets \<Rightarrow> managed_assets" where
  "add_domain_sets ds a = a\<lparr>ma_domain_sets := ma_domain_sets a @ ds\<rparr>"

definition add_ip_sets :: "managed_ip_set list \<Rightarrow> managed_assets \<Rightarrow> managed_assets" where
  "add_ip_sets is a = a\<lparr>ma_ip_sets := ma_ip_sets a @ is\<rparr>"

definition add_routing :: "managed_routing_item list \<Rightarrow> managed_assets \<Rightarrow> managed_assets" where
  "add_routing is a = a\<lparr>ma_routing_items := ma_routing_items a @ is\<rparr>"

definition ungrouped_rule :: "managed_ip_rule \<Rightarrow> managed_ip_rule" where
  "ungrouped_rule r = r\<lparr>mi_group_name := []\<rparr>"

definition add_ip_rules :: "managed_ip_rule list \<Rightarrow> managed_assets \<Rightarrow> managed_assets" where
  "add_ip_rules rs a = a\<lparr>ma_ip_rules := ma_ip_rules a @ map ungrouped_rule rs\<rparr>"

definition additive :: "('a list \<Rightarrow> managed_assets \<Rightarrow> managed_assets) \<Rightarrow> bool" where
  "additive add \<longleftrightarrow> add [] = id \<and> (\<forall>xs ys. add (xs @
    ys) = add ys \<circ> add xs)"

lemma additive_adds:
  "additive add_domain_sets" "additive add_ip_sets" "additive add_routing" "additive add_ip_rules"
  by (auto simp: additive_def add_domain_sets_def add_ip_sets_def add_routing_def add_ip_rules_def
      fun_eq_iff)

lemma lines_read_map:
  assumes "additive add" and "\<And>x. x \<in> set xs \<Longrightarrow> lines_read [line x] (add [x])"
  shows "lines_read (map line xs) (add xs)"
  using assms(2)
proof (induction xs)
  case Nil
  have "add [] = id" using assms(1) by (simp add: additive_def)
  then show ?case using lines_read_skip [OF page_Nil] by (simp only: list.map)
next
  case (Cons x xs)
  have "lines_read ([line x] @ map line xs) (add xs \<circ> add [x])"
    by (rule lines_read_append) (use Cons in simp_all)
  moreover have "add (x # xs) = add xs \<circ> add [x]"
    using assms(1) by (metis additive_def append_Cons append_Nil)
  ultimately show ?case by (simp only: list.map append_Cons append_Nil)
qed

lemma named_option_flags:
  assumes "n \<notin> set set_flags"
  shows "named_option (lit ''-name'' # n # ts) (lit ''-type'') = named_option ts (lit ''-type'')"
    "named_option (lit ''-name'' # n # ts) (lit ''-file'') = named_option ts (lit ''-file'')"
    "named_option (lit ''-type'' # n # ts) (lit ''-file'') = named_option ts (lit ''-file'')"
  using assms by (simp_all add: set_flags_def)

lemma join_words_clean:
  assumes "\<And>w. w \<in> set ws \<Longrightarrow> word w" and "ws \<noteq> []" and "last (last ws) \<noteq> 92"
  shows "clean_value (join [32] ws)" and "trimmed (join [32] ws)"
proof -
  have *: "no_nl (join [32] ws) \<and> join [32] ws \<noteq> [] \<and> hd (join [32] ws) = hd (hd ws) \<and>
      last (join [32] ws) = last (last ws)"
    using assms(1,2)
  proof (induction ws rule: induct_list012)
    case (3 w w2 ws)
    then show ?case by (simp add: no_nl_word word_nonempty)
  qed (auto simp: no_nl_word word_nonempty)
  have "non_ws (hd (hd ws))" "non_ws (last (last ws))"
    using assms(1) [of "hd ws"] assms(1) [of "last ws"] assms(2) by (auto simp: word_def)
  then show t: "trimmed (join [32] ws)" using * by (simp add: trimmed_def)
  show "clean_value (join [32] ws)" using * assms(3) t by (simp add: clean_value_def trimmed_trim_id)
qed

lemma domain_set_line_reads:
  assumes "wf_domain_set d"
  shows "lines_read [domain_set_line d] (add_domain_sets [d])"
proof -
  let ?ws = "[lit ''-name'', md_name d, lit ''-type'', md_set_type d, lit ''-file'', md_file d]"
  have w: "\<And>w. w \<in> set ?ws \<Longrightarrow> word w" using assms word_set_flags
    by (auto simp: wf_domain_set_def set_flags_def)
  have last: "last (last ?ws) \<noteq> 92" using assms by (simp add: wf_domain_set_def)
  note c = join_words_clean [OF w _ last]
  have line: "domain_set_line d = lit ''domain-set'' @ [32] @ join [32] ?ws"
    by (simp add: domain_set_line_def lit_def)
  have "page_entries [domain_set_line d] [(lit ''domain-set'', join [32] ?ws)]"
    using page_kv [OF key_ok_assets(3) c(1)] c(2) unfolding line by (simp add: trimmed_trim_id)
  moreover have "managed_entry (a, None) (lit ''domain-set'', join [32] ?ws) =
      (add_domain_sets [d] a, None)" for a
  proof -
    have "split_whitespace (join [32] ?ws) = ?ws" by (rule split_whitespace_join) (rule w)
    then show ?thesis using assms named_option_flags
      by (simp add: managed_entry_def parse_named_option_def wf_domain_set_def opt_or_def word_nonempty
          ip_rule_keys_def routing_keys_def add_domain_sets_def add_ip_sets_def)
  qed
  ultimately show ?thesis by (rule lines_read_one) (simp add: asset_keys_def)
qed

lemma ip_set_line_reads:
  assumes "wf_ip_set s"
  shows "lines_read [ip_set_line s] (add_ip_sets [s])"
proof -
  let ?ws = "[lit ''-name'', ms_name s, lit ''-file'', ms_file s]"
  have w: "\<And>w. w \<in> set ?ws \<Longrightarrow> word w" using assms word_set_flags
    by (auto simp: wf_ip_set_def set_flags_def)
  have last: "last (last ?ws) \<noteq> 92" using assms by (simp add: wf_ip_set_def)
  note c = join_words_clean [OF w _ last]
  have line: "ip_set_line s = lit ''ip-set'' @ [32] @ join [32] ?ws"
    by (simp add: ip_set_line_def lit_def)
  have "page_entries [ip_set_line s] [(lit ''ip-set'', join [32] ?ws)]"
    using page_kv [OF key_ok_assets(4) c(1)] c(2) unfolding line by (simp add: trimmed_trim_id)
  moreover have "managed_entry (a, None) (lit ''ip-set'', join [32] ?ws) =
      (add_ip_sets [s] a, None)" for a
  proof -
    have "split_whitespace (join [32] ?ws) = ?ws" by (rule split_whitespace_join) (rule w)
    then show ?thesis using assms named_option_flags
      by (simp add: managed_entry_def parse_named_option_def wf_ip_set_def opt_or_def word_nonempty
          ip_rule_keys_def routing_keys_def add_domain_sets_def add_ip_sets_def)
  qed
  ultimately show ?thesis by (rule lines_read_one) (simp add: asset_keys_def)
qed

lemma split_target_value_slash:
  "47 \<notin> set v \<Longrightarrow> trim s = 47 # t @ 47 # v \<Longrightarrow> split_target_value s = (47 # t, trim v)"
  by (simp add: split_target_value_def strip_prefix_def rsplit_char_append)

lemma wf_routing_target:
  assumes "wf_routing_item i"
  obtains t where "mr_target i = 47 # t" "t \<noteq> []" "last t \<noteq> 47" "no_nl t"
proof (cases "mr_target i")
  case (Cons c t)
  then have "c = 47" "no_nl t" using assms by (auto simp: wf_routing_item_def)
  moreover have "t \<noteq> []" "last t \<noteq> 47"
    using assms Cons \<open>c = 47\<close> by (auto simp: wf_routing_item_def ends_with_single split: if_splits)
  ultimately show ?thesis using that Cons by blast
qed (use assms in \<open>simp add: wf_routing_item_def\<close>)

lemma routing_entry:
  assumes "wf_routing_item i" and "trim s = mr_target i @ 47 # v" and "trim v = mr_value i" and "47 \<notin> set v"
  shows "managed_entry (a, None) (mr_rule_type i, s) =
     (add_routing [i] a, None)"
proof -
  obtain t where t: "mr_target i = 47 # t" using wf_routing_target [OF assms(1)] by metis
  have "split_target_value s = (mr_target i, mr_value i)"
    using split_target_value_slash [OF assms(4), of s t] assms(2,3) t by simp
  moreover have "mr_rule_type i \<in> set routing_keys" using assms(1) by (simp add: wf_routing_item_def)
  ultimately show ?thesis
    by (auto simp: managed_entry_def routing_keys_def ip_rule_keys_def add_routing_def)
qed

lemma slash_target_value:
  assumes "wf_routing_item i" and v: "no_nl v" "47 \<notin> set v" "trim v = mr_value i"
    "v = [] \<or> non_ws (last v) \<and> last v \<noteq> 92"
  shows "page_entries [mr_rule_type i @ [32] @ mr_target i @ 47 # v] [(mr_rule_type i, mr_target i @ 47 # v)]"
    and "managed_entry (a, None) (mr_rule_type i, mr_target i @ 47 # v) =
      (add_routing [i] a, None)"
proof -
  obtain t where t: "mr_target i = 47 # t" "no_nl t" using wf_routing_target [OF assms(1)] by metis
  have tr: "trimmed (mr_target i @ 47 # v)" using t v(4) by (auto simp: trimmed_def)
  have cl: "clean_value (mr_target i @ 47 # v)"
    unfolding clean_value_def trimmed_trim_id [OF tr] using t v by auto
  have key: "key_ok (mr_rule_type i)" using assms(1) key_ok_assets(2) by (auto simp: wf_routing_item_def)
  show "page_entries [mr_rule_type i @ [32] @ mr_target i @ 47 # v] [(mr_rule_type i, mr_target i @ 47 # v)]"
    using page_kv [OF key cl] by (simp add: trimmed_trim_id [OF tr])
  show "managed_entry (a, None) (mr_rule_type i, mr_target i @ 47 # v) =
      (add_routing [i] a, None)"
    by (rule routing_entry [OF assms(1) trimmed_trim_id [OF tr] v(3,2)])
qed

lemma wf_routing_value:
  assumes "wf_routing_item i"
  shows "no_nl (mr_value i)" "47 \<notin> set (mr_value i)" "trim (mr_value i) = mr_value i"
    "mr_value i = [] \<or> non_ws (last (mr_value i)) \<and> last (mr_value i) \<noteq> 92"
  using assms by (auto simp: wf_routing_item_def clean_value_def trimmed_trim_id trimmed_def)

lemma wf_routing_key: "wf_routing_item i \<Longrightarrow> mr_rule_type i \<in> set asset_keys"
  by (simp add: wf_routing_item_def asset_keys_def)

lemma nameserver_line_reads:
  assumes "wf_routing_item i" and "mr_rule_type i = lit ''nameserver''"
  shows "lines_read [nameserver_line i] (add_routing [i])"
proof -
  have "mr_value i \<noteq> []" using assms by (simp add: wf_routing_item_def)
  then have "nameserver_line i = mr_rule_type i @ [32] @ mr_target i @ 47 # mr_value i"
    by (simp add: nameserver_line_def)
  then show ?thesis using slash_target_value [OF assms(1) wf_routing_value [OF assms(1)]]
    by (auto intro: lines_read_one wf_routing_key [OF assms(1)])
qed

lemma domain_rule_line_reads:
  assumes "wf_routing_item i"
  shows "lines_read [domain_rule_line i] (add_routing [i])"
proof (cases "mr_value i = []")
  case True
  then have "domain_rule_line i = mr_rule_type i @ [32] @ mr_target i @ 47 # []"
    using assms by (simp add: domain_rule_line_def wf_routing_item_def)
  then show ?thesis using slash_target_value [OF assms, of "[]"] True by (auto intro: lines_read_one wf_routing_key [OF assms])
next
  case False
  then have "domain_rule_line i = mr_rule_type i @ [32] @ mr_target i @ 47 # (32 # mr_value i)"
    using assms by (simp add: domain_rule_line_def wf_routing_item_def)
  then show ?thesis
    using slash_target_value [OF assms, of "32 # mr_value i"] wf_routing_value [OF assms] False
    by (auto intro: lines_read_one wf_routing_key [OF assms] simp: trim_Cons_ws)
qed

lemma split_target_options_word:
  assumes "word t" and "\<not> starts_with [47] t" and "trimmed opts"
  shows "split_target_options (if opts = [] then t else t @ 32 # opts) = (t, opts)"
proof -
  have t: "t \<noteq> []" "non_ws (hd t)" using assms(1) by (auto simp: word_def)
  have pre: "strip_prefix [47] (t @ s) = None" for s
    using assms(2) t(1) by (cases t) (auto simp: strip_prefix_def)
  show ?thesis
  proof (cases "opts = []")
    case True
    then show ?thesis using assms pre [of "[]"]
      by (simp add: split_target_options_def split_first_ws_word)
  next
    case False
    then have tr: "trimmed (t @ 32 # opts)" using assms(3) t by (auto simp: trimmed_def)
    show ?thesis
      using False assms pre [of "32 # opts"]
      by (simp add: split_target_options_def trimmed_trim_id [OF tr] split_first_ws_append trimmed_trim_id)
  qed
qed

lemma ip_rule_line_reads:
  assumes "wf_ip_rule r"
  shows "lines_read [ip_rule_line r] (add_ip_rules [r])"
proof -
  let ?v = "if mi_options r = [] then mi_target r else mi_target r @ 32 # mi_options r"
  have w: "word (mi_target r)" "trimmed (mi_options r)" "clean_value (mi_options r)"
    "last (mi_target r) \<noteq> 92" "\<not> starts_with [47] (mi_target r)" "mi_rule_type r \<in> set ip_rule_keys"
    using assms by (auto simp: wf_ip_rule_def)
  have tr: "trimmed ?v" using w by (auto simp: trimmed_def word_def)
  have cl: "clean_value ?v"
    unfolding clean_value_def trimmed_trim_id [OF tr]
    using w by (auto simp: clean_value_def no_nl_word trimmed_trim_id)
  have "ip_rule_line r = mi_rule_type r @ [32] @ ?v" by (simp add: ip_rule_line_def)
  then have p: "page_entries [ip_rule_line r] [(mi_rule_type r, ?v)]"
    using page_kv [OF key_ok_assets(1) [OF w(6)] cl] by (simp only: trimmed_trim_id [OF tr])
  have "managed_entry (a, None) (mi_rule_type r, ?v) =
      (add_ip_rules [r] a, None)" for a
    using split_target_options_word [OF w(1,5,2)] w(6)
    by (auto simp: managed_entry_def ip_rule_keys_def open_group_name_def add_ip_rules_def ungrouped_rule_def)
  then show ?thesis by (rule lines_read_one [OF p]) (use w(6) in \<open>simp add: asset_keys_def\<close>)
qed

section \<open>The pages, read back\<close>

lemma page_comments:
  "list_all (\<lambda>l. l = [] \<or> (\<exists>s. l = 35 # s \<and> no_nl s)) ls \<Longrightarrow> page_entries ls []"
proof (induction ls)
  case (Cons l ls)
  have "page_entries [l] []" using Cons.prems page_blank page_comment by auto
  then show ?case using page_append [of "[l]" "[]" ls "[]"] Cons by simp
qed (simp add: page_Nil)

lemma lines_read_section:
  assumes "additive add" and "page_entries [title] []"
    and "\<And>x. x \<in> set xs \<Longrightarrow> lines_read [line x] (add [x])"
  shows "lines_read (if xs \<noteq> [] then [title] @ map line xs @ [[]] else []) (add xs)"
proof (cases "xs = []")
  case True
  have "add [] = id" using assms(1) by (simp add: additive_def)
  then show ?thesis using True lines_read_skip [OF page_Nil] by (simp only: if_False simp_thms)
next
  case False
  have "lines_read (map line xs) (add xs)" by (rule lines_read_map [OF assms(1,3)])
  then have "lines_read ([title] @ map line xs @ [[]]) (add xs)"
    using lines_read_append [OF lines_read_skip [OF assms(2)]
        lines_read_append [OF _ lines_read_skip [OF page_blank]], of "map line xs" "add xs"] by simp
  then show ?thesis using False by simp
qed

lemma lines_read_tail:
  assumes "lines_read ls f" and "page_entries [hint] []"
  shows "lines_read (page_tail ls hint) f"
  using lines_read_append [OF lines_read_append [OF assms(1) lines_read_skip [OF assms(2)]]
      lines_read_skip [OF page_blank]]
    lines_read_append [OF assms(1) lines_read_skip [OF page_blank]]
  by (simp add: page_tail_def)

lemma page_two_sections:
  assumes "lines_read a f" and "lines_read b g"
    and "page_entries header []" and "page_entries [hint] []"
  shows "lines_read (page_tail (header @ a @ b) hint) (g \<circ> f)"
  using lines_read_tail [OF lines_read_append [OF lines_read_skip [OF assms(3)]
      lines_read_append [OF assms(1,2)]] assms(4)] by simp

lemma asset_titles:
  "page_entries [generated_by, (lit ''# '' @ [38598, 21512, 31649, 29702, 65288] @
    lit ''domain-set / ip-set'' @ [65289]), []] []"
  "page_entries [generated_by, (lit ''# '' @ [19978, 28216, 20998, 27969, 65288] @ lit ''nameserver'' @
    [65289]), []] []"
  "page_entries [generated_by, (lit ''# '' @ [35268, 21017, 65288] @
    lit ''domain-rules / address / cname / ip-rules'' @ [65289]), []] []"
  "page_entries [(lit ''# '' @ [9472, 9472] @ lit '' '' @ [22495, 21517, 38598, 21512] @ lit '' '' @
    [9472, 9472])] []" "page_entries [(lit ''# '' @ [9472, 9472] @ lit '' IP '' @ [38598, 21512] @
      lit '' '' @ [9472, 9472])] []"
  "page_entries [(lit ''# '' @ [9472, 9472] @ lit '' '' @ [20998, 27969, 35268, 21017] @ lit '' '' @
    [9472, 9472])] []" "page_entries [(lit ''# '' @ [9472, 9472] @ lit '' '' @ [22495, 21517, 35268,
      21017, 19982, 22320, 22336, 25913, 20889] @ lit '' '' @ [9472, 9472])] []"
  "page_entries [(lit ''# '' @ [9472, 9472] @ lit '' IP '' @ [35268, 21017] @ lit '' '' @ [9472,
    9472])] []" "page_entries [(lit ''# '' @ [36824, 27809, 26377, 20219, 20309, 38598, 21512, 23450,
      20041, 12290])] []"
  "page_entries [(lit ''# '' @ [36824, 27809, 26377, 20219, 20309, 19978, 28216, 20998, 27969, 35268,
    21017, 12290])] []" "page_entries [(lit ''# '' @ [36824, 27809, 26377, 20219, 20309, 35268, 21017,
      12290])] []"
  by (rule page_comments, simp add: generated_by_def lit_Cons)+

lemma sets_lines_read:
  assumes "wf_assets a"
  shows "lines_read (sets_lines a) (add_ip_sets (ma_ip_sets a) \<circ> add_domain_sets (ma_domain_sets a))"
  unfolding sets_lines_def using assms
  by (intro page_two_sections lines_read_section additive_adds asset_titles domain_set_line_reads
      ip_set_line_reads) (auto simp: wf_assets_def list_all_iff)

lemma routing_lines_read:
  assumes "wf_assets a"
  shows "lines_read (routing_lines a)
     (add_routing (filter (\<lambda>i. mr_rule_type i = lit ''nameserver'') (ma_routing_items a)))"
proof -
  let ?is = "filter (\<lambda>i. mr_rule_type i = lit ''nameserver'') (ma_routing_items a)"
  have "lines_read (if ?is \<noteq> [] then [(lit ''# '' @ [9472, 9472] @ lit '' '' @ [20998, 27969,
    35268, 21017] @ lit '' '' @ [9472, 9472])] @ map nameserver_line ?is @ [[]] else [])
      (add_routing ?is)"
    using assms by (intro lines_read_section additive_adds asset_titles nameserver_line_reads)
      (auto simp: wf_assets_def list_all_iff)
  from lines_read_tail [OF lines_read_append [OF lines_read_skip [OF asset_titles(2)] this] asset_titles(10)]
  show ?thesis by (simp add: routing_lines_def Let_def)
qed

lemma rule_entries_lines_read:
  assumes "wf_assets a"
  shows "lines_read (rule_entries_lines a)
     (add_ip_rules (ma_ip_rules a) \<circ>
      add_routing (filter (\<lambda>i. mr_rule_type i \<noteq> lit ''nameserver'') (ma_routing_items a)))"
  unfolding rule_entries_lines_def Let_def using assms
  by (intro page_two_sections lines_read_section additive_adds asset_titles domain_rule_line_reads
      ip_rule_line_reads) (auto simp: wf_assets_def list_all_iff)

text \<open>The three pages in any order are joined and read section by section.\<close>

lemma lines_read_sections:
  assumes "list_all2 (\<lambda>t f. \<exists>ls. t = join [10] ls \<and> lines_read ls f) ts fs"
  shows "plain_text (join_nonempty_sections ts) \<and>
     parse_managed_assets_from_text (join_nonempty_sections ts) = foldl (\<lambda>a f. f a) assets_empty fs"
proof -
  have p: "\<forall>t \<in> set ts. plain_text t" and
    r: "\<And>a. foldl managed_entry (a, None) (concat (map config_entries ts)) =
      (foldl (\<lambda>a f. f a) a fs, None)"
    using assms
  proof (induction ts fs rule: list_all2_induct)
    case (Cons t ts f fs)
    obtain ls es where ls: "t = join [10] ls" "page_entries ls es"
      "\<And>a. foldl managed_entry (a, None) es = (f a, None)"
      using Cons(1) unfolding lines_read_def by auto
    note read = page_entries_read [OF ls(2)]
    { case 1 then show ?case using read ls(1) Cons.IH by simp }
    { case 2 then show ?case using read ls(1,3) Cons.IH by simp }
  qed simp_all
  have "config_entries (join_nonempty_sections ts) = concat (map config_entries ts)"
    using p by (intro config_entries_sections) blast
  then show ?thesis using p r [of assets_empty] plain_text_sections [of ts]
    by (simp add: parse_managed_assets_from_text_def managed_finish_def)
qed

definition kept_assets :: "managed_assets \<Rightarrow> managed_assets" where
  "kept_assets a = a\<lparr>ma_rule_groups := [], ma_client_rules := [],
     ma_ip_rules := map ungrouped_rule (ma_ip_rules a),
     ma_routing_items :=
       filter (\<lambda>i. mr_rule_type i = lit ''nameserver'') (ma_routing_items a) @
       filter (\<lambda>i. mr_rule_type i \<noteq> lit ''nameserver'') (ma_routing_items a)\<rparr>"

lemma rule_pages_read:
  assumes "wf_assets a"
  shows "parse_managed_assets_from_text (join_nonempty_sections
      [render_routing_items_text a, render_rule_entries_text a, render_sets_text a]) = kept_assets a"
proof -
  have "list_all2 (\<lambda>t f. \<exists>ls. t = join [10] ls \<and> lines_read ls f)
      [render_routing_items_text a, render_rule_entries_text a, render_sets_text a]
      [add_routing (filter (\<lambda>i. mr_rule_type i = lit ''nameserver'') (ma_routing_items a)),
       add_ip_rules (ma_ip_rules a) \<circ>
         add_routing (filter (\<lambda>i. mr_rule_type i \<noteq> lit ''nameserver'') (ma_routing_items a)),
       add_ip_sets (ma_ip_sets a) \<circ> add_domain_sets (ma_domain_sets a)]"
    using routing_lines_read [OF assms] rule_entries_lines_read [OF assms] sets_lines_read [OF assms]
    by (auto simp: render_routing_items_text_def render_rule_entries_text_def render_sets_text_def)
  from lines_read_sections [OF this] show ?thesis
    by (simp add: add_routing_def add_ip_rules_def add_ip_sets_def add_domain_sets_def assets_empty_def
        kept_assets_def)
qed


section \<open>Groups\<close>

text \<open>No \<open>group-begin\<close> inside a group that is still open.\<close>

fun flat_groups :: "bool \<Rightarrow> (ustr \<times> ustr) list \<Rightarrow> bool" where
  "flat_groups is_open [] = True"
| "flat_groups is_open ((k, v) # es) =
     (if k = lit ''group-begin'' then \<not> is_open \<and> flat_groups True es
      else if k = lit ''group-end'' then flat_groups False es
      else flat_groups is_open es)"

definition group_refs :: "managed_assets \<Rightarrow> ustr set" where
  "group_refs a = mc_group_name ` set (ma_client_rules a) \<union> mi_group_name ` set (ma_ip_rules a)"

definition group_names :: "managed_assets \<Rightarrow> ustr set" where
  "group_names a = mg_name ` set (ma_rule_groups a)"

definition open_names :: "managed_rule_group option \<Rightarrow> ustr set" where
  "open_names g = mg_name ` set_option g"

definition begin_names :: "(ustr \<times> ustr) list \<Rightarrow> ustr list" where
  "begin_names es = map (first_word \<circ> snd) (filter (\<lambda>e. fst e = lit ''group-begin'') es)"

definition ip_rule_of :: "managed_rule_group option \<Rightarrow> ustr \<Rightarrow> ustr \<Rightarrow> managed_ip_rule" where
  "ip_rule_of g k v = \<lparr>mi_rule_type = k, mi_target = fst (split_target_options v),
     mi_options = snd (split_target_options v), mi_group_name = open_group_name g\<rparr>"

lemma managed_entry_ip:
  "k \<in> set ip_rule_keys \<Longrightarrow> managed_entry (a, g) (k, v) =
     (a\<lparr>ma_ip_rules := ma_ip_rules a @ [ip_rule_of g k v]\<rparr>, g)"
  by (cases "split_target_options v") (auto simp: managed_entry_def ip_rule_keys_def ip_rule_of_def)

lemma managed_entry_routing:
  "k \<in> set routing_keys \<Longrightarrow> managed_entry (a, g) (k, v) =
     (a\<lparr>ma_routing_items := ma_routing_items a @
       [\<lparr>mr_rule_type = k, mr_target = fst (split_target_value v),
         mr_value = snd (split_target_value v)\<rparr>]\<rparr>, g)"
  by (cases "split_target_value v") (auto simp: managed_entry_def ip_rule_keys_def routing_keys_def)

lemma managed_entry_groups:
  assumes "managed_entry (a, g) (k, v) = (a', g')"
  shows "k = lit ''group-begin'' \<Longrightarrow> group_names a' = group_names a \<and> open_names g' = {first_word v} \<and>
      group_refs a' = group_refs a \<and> g' \<noteq> None"
    and "k = lit ''group-end'' \<Longrightarrow> group_names a' = group_names a \<union> open_names g \<and> g' = None \<and>
      group_refs a' = group_refs a"
    and "k \<noteq> lit ''group-begin'' \<Longrightarrow> k \<noteq> lit ''group-end'' \<Longrightarrow>
      group_names a' = group_names a \<and> open_names g' = open_names g \<and> (g' = None \<longleftrightarrow> g = None) \<and>
      group_refs a' \<subseteq> group_refs a \<union> insert [] (open_names g)"
proof -
  show "group_names a' = group_names a \<and> open_names g' = {first_word v} \<and>
      group_refs a' = group_refs a \<and> g' \<noteq> None" if "k = lit ''group-begin''"
    using assms that by (auto simp: managed_entry_def open_names_def)
  show "group_names a' = group_names a \<union> open_names g \<and> g' = None \<and> group_refs a' = group_refs a"
    if "k = lit ''group-end''"
    using assms that
    by (cases g) (auto simp: managed_entry_def open_names_def group_names_def group_refs_def)
  show "group_names a' = group_names a \<and> open_names g' = open_names g \<and> (g' = None \<longleftrightarrow> g = None) \<and>
      group_refs a' \<subseteq> group_refs a \<union> insert [] (open_names g)"
    if k: "k \<noteq> lit ''group-begin''" "k \<noteq> lit ''group-end''"
  proof -
    consider (m) "k = lit ''group-match''" | (c) "k = lit ''client-rules''" | (i) "k \<in> set ip_rule_keys"
      | (r) "k \<in> set routing_keys" | (d) "k = lit ''domain-set''" | (s) "k = lit ''ip-set''"
      | (o) "k \<noteq> lit ''group-match''" "k \<noteq> lit ''client-rules''" "k \<notin> set ip_rule_keys"
          "k \<notin> set routing_keys" "k \<noteq> lit ''domain-set''" "k \<noteq> lit ''ip-set''"
      by blast
    then show ?thesis
    proof cases
      case m
      then show ?thesis using assms
        by (cases g) (auto simp: managed_entry_def open_names_def)
    next
      case c
      then show ?thesis using assms
        by (cases g) (auto simp: managed_entry_def open_names_def open_group_name_def group_refs_def
            group_names_def)
    next
      case i
      have "a' = a\<lparr>ma_ip_rules := ma_ip_rules a @ [ip_rule_of g k v]\<rparr>" "g' = g"
        using assms unfolding managed_entry_ip [OF i] by auto
      then show ?thesis
        by (cases g) (auto simp: ip_rule_of_def open_names_def open_group_name_def group_refs_def group_names_def)
    next
      case r
      have "\<exists>i. a' = a\<lparr>ma_routing_items := i\<rparr>" "g' = g"
        using assms unfolding managed_entry_routing [OF r] by auto
      then show ?thesis by (auto simp: group_refs_def group_names_def)
    next
      case d
      then show ?thesis using assms
        by (auto simp: managed_entry_def group_refs_def group_names_def Let_def ip_rule_keys_def
            routing_keys_def split: if_splits)
    next
      case s
      then show ?thesis using assms
        by (auto simp: managed_entry_def group_refs_def group_names_def Let_def ip_rule_keys_def
            routing_keys_def split: if_splits)
    next
      case o
      then have "managed_entry (a, g) (k, v) = (a, g)" using k by (simp add: managed_entry_def)
      then show ?thesis using assms by auto
    qed
  qed
qed

lemma managed_fold_groups:
  assumes "flat_groups (g \<noteq> None) es" and "foldl managed_entry (a, g) es = (a', g')"
    and "group_refs a \<subseteq> {[]} \<union> group_names a \<union> open_names g"
  shows "group_refs a' \<subseteq> {[]} \<union> group_names a' \<union> open_names g' \<and>
    group_names a' \<union> open_names g' = group_names a \<union> open_names g \<union> set (begin_names es)"
  using assms
proof (induction es arbitrary: a g)
  case Nil
  then show ?case by (simp add: begin_names_def)
next
  case (Cons e es)
  obtain k v where e: "e = (k, v)" by fastforce
  obtain a1 g1 where s: "managed_entry (a, g) (k, v) = (a1, g1)" by fastforce
  note step = managed_entry_groups [OF s]
  have rest: "foldl managed_entry (a1, g1) es = (a', g')" using Cons.prems(2) e s by simp
  consider (beg) "k = lit ''group-begin''" "g = None" | (fin) "k = lit ''group-end''"
    | (other) "k \<noteq> lit ''group-begin''" "k \<noteq> lit ''group-end''"
    using Cons.prems(1) e by (auto split: if_splits)
  then show ?case
  proof cases
    case beg
    have o: "open_names g = {}" using beg by (simp add: open_names_def)
    have "flat_groups (g1 \<noteq> None) es" using Cons.prems(1) e beg step(1) by simp
    from Cons.IH [OF this rest] show ?thesis using step(1) [OF beg(1)] Cons.prems(3) beg e o
      by (auto simp: begin_names_def)
  next
    case fin
    then have "flat_groups (g1 \<noteq> None) es" using Cons.prems(1) e step(2) by simp
    moreover have "open_names g1 = {}" using step(2) fin by (simp add: open_names_def)
    ultimately show ?thesis using Cons.IH [OF _ rest] step(2) [OF fin] Cons.prems(3) fin e
      by (auto simp: begin_names_def)
  next
    case other
    then have "flat_groups (g1 \<noteq> None) es" using Cons.prems(1) e step(3) by simp
    from Cons.IH [OF this rest] show ?thesis using step(3) [OF other] Cons.prems(3) other e
      by (auto simp: begin_names_def)
  qed
qed

text \<open>When no group is opened inside another, every group a client rule or address rule names
  is one of the groups read, and the groups read are those the text opens.\<close>

theorem parsed_groups_resolve:
  assumes "flat_groups False (config_entries text)"
  shows "group_refs (parse_managed_assets_from_text text) \<subseteq>
      {[]} \<union> group_names (parse_managed_assets_from_text text) \<and>
    group_names (parse_managed_assets_from_text text) = set (begin_names (config_entries text))"
proof -
  obtain a g where f: "foldl managed_entry (assets_empty, None) (config_entries text) = (a, g)"
    by fastforce
  have e: "group_refs assets_empty = {}" "group_names assets_empty = {}" "open_names None = {}"
    by (simp_all add: group_refs_def group_names_def assets_empty_def open_names_def)
  have "parse_managed_assets_from_text text = managed_finish (a, g)"
    by (simp add: parse_managed_assets_from_text_def f)
  moreover have "group_names (managed_finish (a, g)) = group_names a \<union> open_names g"
    "group_refs (managed_finish (a, g)) = group_refs a"
    by (auto simp: managed_finish_def group_names_def group_refs_def open_names_def split: option.splits)
  ultimately show ?thesis
    using managed_fold_groups [OF _ f] assms e by auto
qed

text \<open>Opening a group while another is open drops the outer group, so a client rule read under
  it names a group that does not exist.\<close>

theorem nested_group_lost:
  "config_entries text = [(lit ''group-begin'', a), (lit ''client-rules'', r), (lit ''group-begin'',
    b)] \<Longrightarrow>
   first_word a \<noteq> [] \<Longrightarrow> first_word a \<noteq> first_word b \<Longrightarrow>
     \<not> group_refs (parse_managed_assets_from_text text) \<subseteq>
        {[]} \<union> group_names (parse_managed_assets_from_text text)"
  by (simp add: parse_managed_assets_from_text_def managed_entry_def managed_finish_def group_refs_def
      group_names_def assets_empty_def open_group_name_def)


section \<open>Witnesses\<close>

definition sample_assets :: managed_assets where
  "sample_assets = \<lparr>ma_rule_groups = [\<lparr>mg_name = lit ''kids'', mg_inherit = [],
    mg_matchers = []\<rparr>],
     ma_client_rules = [\<lparr>mc_matcher = lit ''10.0.0.7'', mc_group_name = lit ''kids''\<rparr>],
     ma_ip_rules = [\<lparr>mi_rule_type = lit ''ip-rules'', mi_target = lit ''10.0.0.0/8'',
       mi_options = lit ''-whitelist-ip'', mi_group_name = lit ''kids''\<rparr>],
     ma_routing_items =
       [\<lparr>mr_rule_type = lit ''address'', mr_target = lit ''/ads.example'',
         mr_value = lit ''#''\<rparr>,
        \<lparr>mr_rule_type = lit ''nameserver'', mr_target = lit ''/example.com'',
          mr_value = lit ''office''\<rparr>],
     ma_domain_sets = [\<lparr>md_name = lit ''cn'', md_file = lit ''/etc/cn.txt'',
       md_set_type = lit ''list''\<rparr>],
     ma_ip_sets = [\<lparr>ms_name = lit ''lan'', ms_file = lit ''/etc/lan.txt''\<rparr>]\<rparr>"


definition sample_groups :: ustr where
  "sample_groups = join [10]
     [lit ''group-begin kids'', lit ''client-rules 10.0.0.7'', lit ''group-end'',
       lit ''ip-rules 10.0.0.0/8 -whitelist-ip'']"

theorem parsed_groups_resolve_witness:
  "group_refs (parse_managed_assets_from_text sample_groups) \<subseteq>
     {[]} \<union> group_names (parse_managed_assets_from_text sample_groups) \<and>
   group_names (parse_managed_assets_from_text sample_groups) =
     set (begin_names (config_entries sample_groups))"
  by (rule parsed_groups_resolve) code_simp

definition sample_nested :: ustr where
  "sample_nested = join [10] [lit ''group-begin kids'', lit ''client-rules 10.0.0.7'',
    lit ''group-begin guests'']"

theorem nested_group_lost_witness:
  "\<not> group_refs (parse_managed_assets_from_text sample_nested) \<subseteq>
     {[]} \<union> group_names (parse_managed_assets_from_text sample_nested)"
proof (rule nested_group_lost)
  show "config_entries sample_nested =
      [(lit ''group-begin'', lit ''kids''), (lit ''client-rules'', lit ''10.0.0.7''),
        (lit ''group-begin'', lit ''guests'')]"
    by code_simp
  show "first_word (lit ''kids'') \<noteq> []" "first_word (lit ''kids'') \<noteq> first_word (lit ''guests'')" by code_simp+
qed
end
