(* ===== verification/Beginner_Roundtrip.thy ===== *)
theory Beginner_Roundtrip
  imports Beginner
begin

text \<open>
  Reading back what the five page writers of \<open>src/src/config_ui.rs\<close> write. The reader is first
  characterised key by key (\<open>read_*\<close>): a scalar directive takes its last occurrence,
    \<open>bind\<close> and
  the upstreams accumulate, and an extra depends on the values of its own key only. The five pages
  are then read segment by segment, which gives \<open>reread\<close>: the configuration that a saved
  configuration is read back as.
\<close>

section \<open>The reader, key by key\<close>

definition values_of :: "ustr \<Rightarrow> (ustr \<times> ustr) list \<Rightarrow> ustr list" where
  "values_of k es = map snd (filter (\<lambda>e. fst e = k) es)"

definition upstream_entries :: "(ustr \<times> ustr) list \<Rightarrow> upstream_config list" where
  "upstream_entries es =
     map (case_prod parse_upstream_entry) (filter (\<lambda>e. fst e \<in> set upstream_keys) es)"

lemma values_of_Nil [simp]: "values_of k [] = []"
  by (simp add: values_of_def)

lemma values_of_Cons [simp]:
  "values_of k ((k', v) # es) = (if k' = k then v # values_of k es else values_of k es)"
  by (simp add: values_of_def)

lemma values_of_append [simp]: "values_of k (a @ b) = values_of k a @ values_of k b"
  by (simp add: values_of_def)

lemma values_of_other: "k \<notin> fst ` set es \<Longrightarrow> values_of k es = []"
  by (auto simp: values_of_def filter_empty_conv)

lemma upstream_entries_Nil [simp]: "upstream_entries [] = []"
  by (simp add: upstream_entries_def)

lemma upstream_entries_append [simp]:
  "upstream_entries (a @ b) = upstream_entries a @ upstream_entries b"
  by (simp add: upstream_entries_def)

lemma upstream_entries_other:
  "fst ` set es \<inter> set upstream_keys = {} \<Longrightarrow> upstream_entries es = []"
  by (auto simp: upstream_entries_def filter_empty_conv)

definition field_keys :: "ustr list" where
  "field_keys =
     [lit ''server-name'', lit ''bind'', lit ''cache-size'', lit ''prefetch-domain'', lit ''serve-expired'',
      lit ''serve-expired-ttl'', lit ''response-mode'', lit ''speed-check-mode'',
        lit ''dualstack-ip-selection'',
      lit ''log-level'', lit ''mdns-lookup'', lit ''audit-enable'']"

definition extra_value :: "ustr \<Rightarrow> ustr option \<Rightarrow> ustr \<Rightarrow> ustr option" where
  "extra_value k old v =
     (if v = [] then old
      else if k \<in> set list_keys then
        Some ((case old of None \<Rightarrow> [] | Some x \<Rightarrow> if x \<noteq> [] then x @
          [10] else x) @ v)
      else Some v)"

lemma step_fields:
  "bc_server_name (beginner_entry c (k, v)) = (if k = lit ''server-name'' then v else bc_server_name c)"
  "bc_binds (beginner_entry c (k, v)) = (if k = lit ''bind'' then bc_binds c @ [v] else bc_binds c)"
  "bc_cache_size (beginner_entry c (k, v)) = (if k = lit ''cache-size'' then v else bc_cache_size c)"
  "bc_prefetch_domain (beginner_entry c (k, v)) =
     (if k = lit ''prefetch-domain'' then parse_yesno v True else bc_prefetch_domain c)"
  "bc_serve_expired (beginner_entry c (k, v)) =
     (if k = lit ''serve-expired'' then parse_yesno v True else bc_serve_expired c)"
  "bc_serve_expired_ttl (beginner_entry c (k, v)) =
     (if k = lit ''serve-expired-ttl'' then v else bc_serve_expired_ttl c)"
  "bc_response_mode (beginner_entry c (k, v)) = (if k = lit ''response-mode'' then v else bc_response_mode c)"
  "bc_speed_check_mode (beginner_entry c (k, v)) =
     (if k = lit ''speed-check-mode'' then v else bc_speed_check_mode c)"
  "bc_dualstack_ip_selection (beginner_entry c (k, v)) =
     (if k = lit ''dualstack-ip-selection'' then parse_yesno v True else bc_dualstack_ip_selection c)"
  "bc_log_level (beginner_entry c (k, v)) = (if k = lit ''log-level'' then v else bc_log_level c)"
  "bc_mdns_lookup (beginner_entry c (k, v)) =
     (if k = lit ''mdns-lookup'' then parse_yesno v False else bc_mdns_lookup c)"
  "bc_audit_enable (beginner_entry c (k, v)) =
     (if k = lit ''audit-enable'' then parse_yesno v False else bc_audit_enable c)"
  by (auto simp: beginner_entry_def)

lemma step_upstreams:
  "bc_upstreams (beginner_entry c (k, v)) =
     (if k \<in> set upstream_keys then bc_upstreams c @ [parse_upstream_entry k v] else bc_upstreams c)"
  by (auto simp: beginner_entry_def upstream_keys_def)

lemma step_extras:
  "bc_extras (beginner_entry c (k, v)) x =
     (if x = k \<and> k \<notin> set field_keys \<and> k \<notin> set upstream_keys then extra_value k (bc_extras c k) v
      else bc_extras c x)"
  by (auto simp: beginner_entry_def field_keys_def extra_value_def append_extra_def split: option.splits)

text \<open>The value of the last occurrence, or the default.\<close>

fun final :: "'a \<Rightarrow> 'a list \<Rightarrow> 'a" where
  "final d [] = d"
| "final d (v # vs) = final v vs"

lemma final_append: "final d (a @ b) = final (final d a) b"
  by (induction a arbitrary: d) auto

lemma final_last: "final d vs = last (d # vs)"
  by (induction vs arbitrary: d) auto

lemma read_fields:
  "bc_server_name (foldl beginner_entry c es) = final (bc_server_name c) (values_of (lit ''server-name'') es)"
  "bc_cache_size (foldl beginner_entry c es) = final (bc_cache_size c) (values_of (lit ''cache-size'') es)"
  "bc_serve_expired_ttl (foldl beginner_entry c es) =
     final (bc_serve_expired_ttl c) (values_of (lit ''serve-expired-ttl'') es)"
  "bc_response_mode (foldl beginner_entry c es) =
     final (bc_response_mode c) (values_of (lit ''response-mode'') es)"
  "bc_speed_check_mode (foldl beginner_entry c es) =
     final (bc_speed_check_mode c) (values_of (lit ''speed-check-mode'') es)"
  "bc_log_level (foldl beginner_entry c es) = final (bc_log_level c) (values_of (lit ''log-level'') es)"
  by (induction es arbitrary: c) (auto simp: step_fields)

lemma read_flags:
  "bc_prefetch_domain (foldl beginner_entry c es) =
     final (bc_prefetch_domain c) (map (\<lambda>v. parse_yesno v True) (values_of (lit ''prefetch-domain'') es))"
  "bc_serve_expired (foldl beginner_entry c es) =
     final (bc_serve_expired c) (map (\<lambda>v. parse_yesno v True) (values_of (lit ''serve-expired'') es))"
  "bc_dualstack_ip_selection (foldl beginner_entry c es) =
     final (bc_dualstack_ip_selection c) (map (\<lambda>v. parse_yesno v True) (values_of (lit ''dualstack-ip-selection'') es))"
  "bc_mdns_lookup (foldl beginner_entry c es) =
     final (bc_mdns_lookup c) (map (\<lambda>v. parse_yesno v False) (values_of (lit ''mdns-lookup'') es))"
  "bc_audit_enable (foldl beginner_entry c es) =
     final (bc_audit_enable c) (map (\<lambda>v. parse_yesno v False) (values_of (lit ''audit-enable'') es))"
  by (induction es arbitrary: c) (auto simp: step_fields)

lemma read_binds: "bc_binds (foldl beginner_entry c es) = bc_binds c @ values_of (lit ''bind'') es"
  by (induction es arbitrary: c) (auto simp: step_fields)

lemma read_upstreams:
  "bc_upstreams (foldl beginner_entry c es) = bc_upstreams c @ upstream_entries es"
  by (induction es arbitrary: c) (auto simp: step_upstreams upstream_entries_def)

lemma read_extras:
  "bc_extras (foldl beginner_entry c es) k =
     (if k \<in> set field_keys \<or> k \<in> set upstream_keys then bc_extras c k
      else foldl (extra_value k) (bc_extras c k) (values_of k es))"
  by (induction es arbitrary: c) (auto simp: step_extras)

lemmas read_beginner = read_fields read_flags read_binds read_upstreams

section \<open>The entries of the pages, key by key\<close>

lemma values_of_extra [simp]:
  "values_of k (extra_entry c k') = (if k' = k then map snd (extra_entry c k) else [])"
  by (auto simp: extra_entry_def split: option.splits)

lemma values_of_extra_bool [simp]:
  "values_of k (extra_bool_entry c k') = (if k' = k then map snd (extra_bool_entry c k) else [])"
  by (auto simp: extra_bool_entry_def split: option.splits)

lemma values_of_kv [simp]:
  "values_of k (kv_entry k' v d) = (if k' = k then [if trim v = [] then d else trim v] else [])"
  by (auto simp: kv_entry_def)

lemma values_of_items [simp]:
  "values_of k (item_entries k' items) = (if k' = k then filter (\<lambda>v. v \<noteq> []) (map trim items) else [])"
  by (auto simp: item_entries_def values_of_def comp_def)

lemma values_of_if [simp]:
  "values_of k (if b then x else y) = (if b then values_of k x else values_of k y)"
  by simp

definition page_keys :: "ustr list" where
  "page_keys = field_keys @ list_keys @ plain_extra_keys @ bool_extra_keys"

definition keys_in :: "(ustr \<times> ustr) list \<Rightarrow> bool" where
  "keys_in es \<longleftrightarrow> fst ` set es \<subseteq> set page_keys"

lemma keys_in_append [simp]: "keys_in (a @ b) \<longleftrightarrow> keys_in a \<and> keys_in b"
  by (auto simp: keys_in_def)

lemma keys_in_Nil [simp]: "keys_in []"
  by (simp add: keys_in_def)

lemma keys_in_Cons [simp]: "keys_in ((k, v) # es) \<longleftrightarrow> k \<in> set page_keys \<and> keys_in es"
  by (auto simp: keys_in_def)

lemma keys_in_segments:
  "k \<in> set page_keys \<Longrightarrow> keys_in (extra_entry c k)"
  "k \<in> set page_keys \<Longrightarrow> keys_in (extra_bool_entry c k)"
  "k \<in> set page_keys \<Longrightarrow> keys_in (kv_entry k v d)"
  "k \<in> set page_keys \<Longrightarrow> keys_in (item_entries k items)"
  by (auto simp: keys_in_def extra_entry_def extra_bool_entry_def kv_entry_def item_entries_def
      split: option.splits)

lemma page_key_members:
  "lit ''server-name'' \<in> set page_keys" "lit ''bind'' \<in> set page_keys" "lit ''cache-size'' \<in> set page_keys"
  "lit ''prefetch-domain'' \<in> set page_keys" "lit ''serve-expired'' \<in> set page_keys"
  "lit ''serve-expired-ttl'' \<in> set page_keys" "lit ''response-mode'' \<in> set page_keys"
  "lit ''speed-check-mode'' \<in> set page_keys" "lit ''dualstack-ip-selection'' \<in> set page_keys"
  "lit ''log-level'' \<in> set page_keys" "lit ''mdns-lookup'' \<in> set page_keys" "lit ''audit-enable'' \<in> set page_keys"
  "k \<in> set plain_extra_keys \<Longrightarrow> k \<in> set page_keys" "k \<in> set bool_extra_keys \<Longrightarrow> k \<in> set page_keys"
  "k \<in> set list_keys \<Longrightarrow> k \<in> set page_keys"
  by (simp_all add: page_keys_def field_keys_def)

lemma pages_keys_in:
  "keys_in (service_entries c)" "keys_in (performance_entries c)" "keys_in (logging_entries c)"
  "keys_in (network_entries c)"
  unfolding service_entries_def performance_entries_def logging_entries_def network_entries_def
  by (simp_all add: keys_in_segments page_key_members extra_key_members)

lemma page_keys_not_upstream: "k \<in> set page_keys \<Longrightarrow> k \<notin> set upstream_keys"
proof -
  have "list_all (\<lambda>k. \<not> List.member upstream_keys k) page_keys" by code_simp
  then show "k \<in> set page_keys \<Longrightarrow> k \<notin> set upstream_keys" by (auto simp: list_all_iff)
qed

lemma pages_no_upstreams: "keys_in es \<Longrightarrow> upstream_entries es = []"
  by (rule upstream_entries_other) (auto simp: keys_in_def dest: page_keys_not_upstream)

lemma pages_no_others: "keys_in es \<Longrightarrow> k \<notin> set page_keys \<Longrightarrow> values_of k es = []"
  by (rule values_of_other) (auto simp: keys_in_def)

section \<open>The upstream page\<close>

lemma server_keys_upstream: "set server_keys \<subseteq> set upstream_keys"
  by (auto simp: server_keys_def upstream_keys_def)

lemma key_value_upstream_line: "fst (key_value (upstream_line u)) \<in> set server_keys"
proof -
  have "upstream_line u = upstream_key (up_kind u) @ 32 #
      (trim (up_value u) @ (if trim (render_upstream_options u) = [] then [] else 32 # render_upstream_options u))"
    by (simp add: upstream_line_def)
  moreover have "word (upstream_key (up_kind u))" using upstream_key_in word_server_keys by blast
  ultimately have "fst (key_value (upstream_line u)) = upstream_key (up_kind u)"
    by (simp add: key_value_pair)
  then show ?thesis using upstream_key_in by simp
qed

lemma upstream_page_keys:
  assumes "\<And>u. u \<in> set (effective_upstreams us) \<Longrightarrow> usable u \<Longrightarrow> safe_upstream u"
  shows "fst ` set (config_entries (render_upstreams_config us)) \<subseteq> set server_keys"
proof -
  have "config_entries (render_upstreams_config us) =
      map key_value (map upstream_line (page_order (effective_upstreams us)))"
    unfolding render_upstreams_config_def
    using upstreams_page_lines [OF assms] by (subst config_entries_plain) auto
  then show ?thesis using key_value_upstream_line by auto
qed

lemma upstream_page_read:
  assumes "\<And>u. u \<in> set (effective_upstreams us) \<Longrightarrow> usable u \<Longrightarrow> safe_upstream u"
  shows "upstream_entries (config_entries (render_upstreams_config us)) =
     map saved_upstream (page_order (effective_upstreams us))"
proof -
  have "filter (\<lambda>e. fst e \<in> set upstream_keys) (config_entries (render_upstreams_config us)) =
      config_entries (render_upstreams_config us)"
    using upstream_page_keys [OF assms] server_keys_upstream by (auto intro!: filter_True)
  then show ?thesis using upstreams_page_entries [OF assms] by (simp add: upstream_entries_def)
qed

section \<open>What a saved configuration is read back as\<close>

definition nonblank :: "ustr option \<Rightarrow> ustr option" where
  "nonblank x = (case x of None \<Rightarrow> None | Some v \<Rightarrow> if trim v = [] then None else Some (trim v))"

definition tls_enabled :: "beginner_config \<Rightarrow> bool" where
  "tls_enabled c \<longleftrightarrow>
     split_list_extra c (lit ''bind-tls'') \<noteq> [] \<or> split_list_extra c (lit ''bind-https'') \<noteq> []"

definition reread_extras :: "beginner_config \<Rightarrow> ustr \<Rightarrow> ustr option" where
  "reread_extras c k =
     (if k \<in> set cert_keys \<and> \<not> tls_enabled c then None
      else if k \<in> set plain_extra_keys then nonblank (bc_extras c k)
      else if k \<in> set bool_extra_keys then
        map_option (\<lambda>v. yesno (parse_yesno v False)) (nonblank (bc_extras c k))
      else if k \<in> set list_keys then
        (if split_list_extra c k = [] then None else Some (join [10] (split_list_extra c k)))
      else None)"

definition or_default :: "ustr \<Rightarrow> ustr \<Rightarrow> ustr" where
  "or_default d v = (if trim v = [] then d else trim v)"

definition reread :: "beginner_config \<Rightarrow> beginner_config" where
  "reread c =
     \<lparr>bc_server_name = trim (bc_server_name c),
      bc_binds = filter (\<lambda>v. v \<noteq> []) (map trim (if bc_binds c = [] then [lit ''[::]:53''] else bc_binds c)),
      bc_cache_size = or_default (lit ''32768'') (bc_cache_size c),
      bc_prefetch_domain = bc_prefetch_domain c,
      bc_serve_expired = bc_serve_expired c,
      bc_serve_expired_ttl = or_default (lit ''86400'') (bc_serve_expired_ttl c),
      bc_response_mode = or_default (lit ''first-ping'') (bc_response_mode c),
      bc_speed_check_mode = or_default (lit ''ping,tcp:80,tcp:443'') (bc_speed_check_mode c),
      bc_dualstack_ip_selection = bc_dualstack_ip_selection c,
      bc_log_level = or_default (lit ''info'') (bc_log_level c),
      bc_mdns_lookup = bc_mdns_lookup c,
      bc_audit_enable = bc_audit_enable c,
      bc_upstreams = map saved_upstream (page_order (effective_upstreams (bc_upstreams c))),
      bc_extras = reread_extras c\<rparr>"

definition basic_entries :: "beginner_config \<Rightarrow> (ustr \<times> ustr) list" where
  "basic_entries c =
     service_entries c @ performance_entries c @ logging_entries c @ network_entries c"

lemma basic_keys_in: "keys_in (basic_entries c)"
  by (simp add: basic_entries_def pages_keys_in)

lemmas page_defs = basic_entries_def service_entries_def performance_entries_def logging_entries_def
  network_entries_def

lemma basic_fields:
  "values_of (lit ''server-name'') (basic_entries c) =
     (if trim (bc_server_name c) \<noteq> [] then [trim (bc_server_name c)] else [])"
  "values_of (lit ''bind'') (basic_entries c) =
     filter (\<lambda>v. v \<noteq> []) (map trim (if bc_binds c = [] then [lit ''[::]:53''] else bc_binds c))"
  "values_of (lit ''cache-size'') (basic_entries c) = [or_default (lit ''32768'') (bc_cache_size c)]"
  "values_of (lit ''serve-expired-ttl'') (basic_entries c) = [or_default (lit ''86400'') (bc_serve_expired_ttl c)]"
  "values_of (lit ''response-mode'') (basic_entries c) = [or_default (lit ''first-ping'') (bc_response_mode c)]"
  "values_of (lit ''speed-check-mode'') (basic_entries c) =
     [or_default (lit ''ping,tcp:80,tcp:443'') (bc_speed_check_mode c)]"
  "values_of (lit ''log-level'') (basic_entries c) = [or_default (lit ''info'') (bc_log_level c)]"
  unfolding page_defs by (simp_all add: or_default_def)

lemma basic_flags:
  "values_of (lit ''prefetch-domain'') (basic_entries c) = [yesno (bc_prefetch_domain c)]"
  "values_of (lit ''serve-expired'') (basic_entries c) = [yesno (bc_serve_expired c)]"
  "values_of (lit ''dualstack-ip-selection'') (basic_entries c) = [yesno (bc_dualstack_ip_selection c)]"
  "values_of (lit ''mdns-lookup'') (basic_entries c) = [yesno (bc_mdns_lookup c)]"
  "values_of (lit ''audit-enable'') (basic_entries c) = [yesno (bc_audit_enable c)]"
  unfolding page_defs by simp_all

lemma values_of_pages:
  "values_of k (basic_entries c) =
     values_of k (service_entries c) @ values_of k (performance_entries c) @
     values_of k (logging_entries c) @ values_of k (network_entries c)"
  by (simp add: basic_entries_def)

lemma split_list_extra_trimmed [simp]:
  "filter (\<lambda>v. v \<noteq> []) (map trim (split_list_extra c k)) = split_list_extra c k"
  using split_list_extra_items [of _ c k] by (simp add: trimmed_trim_id filter_id_conv cong: map_cong)

lemma basic_cert:
  "list_all (\<lambda>k. values_of k (basic_entries c) = (if tls_enabled c then map snd (extra_entry c k) else []))
     cert_keys"
  unfolding page_defs cert_keys_def plain_extra_keys_def
  by (simp add: tls_enabled_def)

lemma basic_plain_front:
  "list_all (\<lambda>k. values_of k (basic_entries c) = map snd (extra_entry c k)) (take 14 (drop 7 plain_extra_keys))"
  unfolding page_defs plain_extra_keys_def
  by simp

lemma basic_plain_rest:
  "list_all (\<lambda>k. values_of k (basic_entries c) = map snd (extra_entry c k)) (drop 14 (drop 7 plain_extra_keys))"
  unfolding page_defs plain_extra_keys_def
  by simp

lemma basic_plain:
  "list_all (\<lambda>k. values_of k (basic_entries c) = map snd (extra_entry c k)) (drop 7 plain_extra_keys)"
  by (subst append_take_drop_id [of 14 "drop 7 plain_extra_keys", symmetric])
    (simp only: list_all_append basic_plain_front basic_plain_rest simp_thms)

lemma basic_bool:
  "list_all (\<lambda>k. values_of k (basic_entries c) = map snd (extra_bool_entry c k)) bool_extra_keys"
  unfolding page_defs bool_extra_keys_def
  by simp

lemma basic_list:
  "list_all (\<lambda>k. values_of k (basic_entries c) = split_list_extra c k) list_keys"
  unfolding page_defs list_keys_def
  by simp

lemma extra_value_list:
  assumes "k \<in> set list_keys"
  shows "\<forall>v \<in> set vs. v \<noteq> [] \<Longrightarrow> x \<noteq> [] \<Longrightarrow>
     foldl (extra_value k) (Some x) vs = Some (join [10] (x # vs))"
  using assms by (induction vs arbitrary: x) (auto simp: extra_value_def join_Cons)

lemma extra_value_list_None:
  assumes "k \<in> set list_keys" and "\<forall>v \<in> set vs. v \<noteq> []"
  shows "foldl (extra_value k) None vs = (if vs = [] then None else Some (join [10] vs))"
  using assms extra_value_list [OF assms(1), of "tl vs" "hd vs"]
  by (cases vs) (auto simp: extra_value_def)

lemma extra_value_nonblank:
  "k \<notin> set list_keys \<Longrightarrow> foldl (extra_value k) None (map snd (extra_entry c k)) = nonblank (bc_extras c k)"
  by (simp add: extra_entry_def nonblank_def extra_value_def split: option.splits)

lemma yesno_not_Nil [simp]: "yesno b \<noteq> []"
  by (simp add: yesno_def)

lemma extra_value_nonblank_bool:
  "k \<notin> set list_keys \<Longrightarrow> foldl (extra_value k) None (map snd (extra_bool_entry c k)) =
     map_option (\<lambda>v. yesno (parse_yesno v False)) (nonblank (bc_extras c k))"
  by (simp add: extra_bool_entry_def nonblank_def extra_value_def split: option.splits)

lemma plain_keys_split: "plain_extra_keys = cert_keys @ drop 7 plain_extra_keys"
  by (simp add: cert_keys_def)

lemma keys_disjoint:
  "list_all (\<lambda>k. k \<notin> set list_keys \<and> k \<notin> set bool_extra_keys) plain_extra_keys"
  "list_all (\<lambda>k. k \<notin> set list_keys \<and> k \<notin> set plain_extra_keys \<and> k \<notin> set cert_keys) bool_extra_keys"
  "list_all (\<lambda>k. k \<notin> set bool_extra_keys \<and> k \<notin> set plain_extra_keys \<and> k \<notin> set cert_keys) list_keys"
  "list_all (\<lambda>k. k \<notin> set cert_keys) (drop 7 plain_extra_keys)"
  by (simp_all add: list_keys_def plain_extra_keys_def bool_extra_keys_def cert_keys_def)

lemma extra_keys_not_fields:
  "list_all (\<lambda>k. k \<notin> set field_keys) (plain_extra_keys @ bool_extra_keys @ list_keys)"
  by (simp add: field_keys_def list_keys_def plain_extra_keys_def bool_extra_keys_def)

lemma basic_extras:
  assumes "k \<notin> set field_keys"
  shows "foldl (extra_value k) None (values_of k (basic_entries c)) = reread_extras c k"
proof -
  consider (cert) "k \<in> set cert_keys" | (plain) "k \<in> set (drop 7 plain_extra_keys)"
    | (bool) "k \<in> set bool_extra_keys" | (listed) "k \<in> set list_keys"
    | (other) "k \<notin> set page_keys"
    using assms plain_keys_split by (auto simp: page_keys_def) (metis Un_iff set_append)
  then show ?thesis
  proof cases
    case cert
    then have "k \<in> set plain_extra_keys" using plain_keys_split by (metis Un_iff set_append)
    then show ?thesis using cert basic_cert [of c] keys_disjoint(1)
      by (simp add: list_all_iff reread_extras_def extra_value_nonblank)
  next
    case plain
    then have "k \<in> set plain_extra_keys" by (rule in_set_dropD)
    then show ?thesis using plain basic_plain [of c] keys_disjoint(1,4)
      by (simp add: list_all_iff reread_extras_def extra_value_nonblank)
  next
    case bool
    then show ?thesis using basic_bool [of c] keys_disjoint(2)
      by (simp add: list_all_iff reread_extras_def extra_value_nonblank_bool)
  next
    case listed
    have "\<forall>v \<in> set (split_list_extra c k). v \<noteq> []" using split_list_extra_items by blast
    then show ?thesis using listed basic_list [of c] keys_disjoint(3)
      by (simp add: list_all_iff reread_extras_def extra_value_list_None)
  next
    case other
    then have "values_of k (basic_entries c) = []" by (rule pages_no_others [OF basic_keys_in])
    moreover have "k \<notin> set cert_keys" using other plain_keys_split
      by (auto simp: page_keys_def) (metis Un_iff set_append)
    ultimately show ?thesis using other by (simp add: reread_extras_def page_keys_def)
  qed
qed

text \<open>The reader depends on the values of each key and on the upstream entries only: texts that
  agree on these are read alike, whatever the order of their sections.\<close>

lemma read_same:
  assumes "\<And>k. values_of k es = values_of k es'" and "upstream_entries es = upstream_entries es'"
  shows "foldl beginner_entry c es = foldl beginner_entry c es'"
proof (rule beginner_config.equality)
  show "bc_extras (foldl beginner_entry c es) = bc_extras (foldl beginner_entry c es')"
    by (rule ext) (simp add: read_extras assms)
qed (simp_all add: read_beginner assms)

lemma reread_extras_other: "k \<notin> set page_keys \<Longrightarrow> reread_extras c k = None"
  using plain_keys_split by (auto simp: reread_extras_def page_keys_def)

definition foreign :: "(ustr \<times> ustr) list \<Rightarrow> bool" where
  "foreign es \<longleftrightarrow> fst ` set es \<inter> (set page_keys \<union> set upstream_keys) = {}"

lemma foreign_values: "foreign es \<Longrightarrow> k \<in> set page_keys \<Longrightarrow> values_of k es = []"
  by (rule values_of_other) (auto simp: foreign_def)

lemma foreign_upstreams: "foreign es \<Longrightarrow> upstream_entries es = []"
  by (rule upstream_entries_other) (auto simp: foreign_def)

lemma safe_effective:
  "clean_beginner c \<Longrightarrow> u \<in> set (effective_upstreams (bc_upstreams c)) \<Longrightarrow> usable u \<Longrightarrow> safe_upstream u"
  by (auto simp: clean_beginner_def list_all_iff)

lemma upstream_page_values:
  "clean_beginner c \<Longrightarrow> k \<notin> set server_keys \<Longrightarrow>
     values_of k (config_entries (render_upstreams_config (bc_upstreams c))) = []"
  by (rule values_of_other) (use upstream_page_keys [OF safe_effective [of c]] in blast)

lemma parse_start_fields:
  "bc_server_name parse_start = []" "bc_binds parse_start = []" "bc_upstreams parse_start = []"
  "bc_extras parse_start = Map.empty"
  by (simp_all add: parse_start_def beginner_default_def)

text \<open>Reading the five pages, followed by directives of other kinds.\<close>

lemma read_pages:
  assumes "clean_beginner c" and "foreign rest"
  shows "foldl beginner_entry parse_start
      (basic_entries c @ config_entries (render_upstreams_config (bc_upstreams c)) @ rest) =
    (reread c)\<lparr>bc_extras := \<lambda>k. if k \<in> set page_keys \<or> k \<in> set upstream_keys then reread_extras c k
       else foldl (extra_value k) None (values_of k rest)\<rparr>"
    (is "foldl _ _ ?es = _")
proof -
  have up: "values_of k (config_entries (render_upstreams_config (bc_upstreams c))) = []"
    if "k \<notin> set upstream_keys" for k
    using that server_keys_upstream by (intro upstream_page_values [OF assms(1)]) blast
  have k: "values_of k ?es = values_of k (basic_entries c)" if "k \<in> set page_keys" for k
    using up page_keys_not_upstream [OF that] foreign_values [OF assms(2) that] by simp
  note f = k [OF page_key_members(1)] k [OF page_key_members(2)] k [OF page_key_members(3)]
    k [OF page_key_members(4)] k [OF page_key_members(5)] k [OF page_key_members(6)]
    k [OF page_key_members(7)] k [OF page_key_members(8)] k [OF page_key_members(9)]
    k [OF page_key_members(10)] k [OF page_key_members(11)] k [OF page_key_members(12)]
  have u: "upstream_entries ?es = map saved_upstream (page_order (effective_upstreams (bc_upstreams c)))"
    using upstream_page_read [OF safe_effective [OF assms(1)]] pages_no_upstreams [OF basic_keys_in]
      foreign_upstreams [OF assms(2)] by simp
  have e: "bc_extras (foldl beginner_entry parse_start ?es) k =
      (if k \<in> set page_keys \<or> k \<in> set upstream_keys then reread_extras c k
       else foldl (extra_value k) None (values_of k rest))" for k
  proof -
    have start: "bc_extras parse_start = Map.empty" by (simp add: parse_start_def beginner_default_def)
    consider (field) "k \<in> set field_keys" | (up) "k \<in> set upstream_keys"
      | (page) "k \<in> set page_keys" "k \<notin> set field_keys" "k \<notin> set upstream_keys"
      | (other) "k \<notin> set page_keys" "k \<notin> set upstream_keys" "k \<notin> set field_keys"
      by (auto simp: page_keys_def)
    then show ?thesis
    proof cases
      case field
      then have "reread_extras c k = None" "k \<in> set page_keys"
        using extra_keys_not_fields plain_keys_split
        by (auto simp: list_all_iff reread_extras_def page_keys_def)
      then show ?thesis using field by (simp add: read_extras start)
    next
      case up
      then have "k \<notin> set page_keys" using page_keys_not_upstream by blast
      then show ?thesis using up by (simp add: read_extras start reread_extras_other)
    next
      case page
      then show ?thesis using basic_extras [OF page(2)] k by (simp add: read_extras start)
    next
      case other
      then show ?thesis using up pages_no_others [OF basic_keys_in] by (simp add: read_extras start)
    qed
  qed
  show ?thesis
    by (rule beginner_config.equality)
      (simp_all del: values_of_append upstream_entries_append foldl_append
        add: read_beginner f u ext [OF e] basic_fields basic_flags reread_def parse_start_fields)
qed

lemma reread_extras_none:
  "k \<notin> set page_keys \<Longrightarrow> reread_extras c k = None"
  by (rule reread_extras_other)

lemma read_pages_alone:
  assumes "clean_beginner c"
  shows "foldl beginner_entry parse_start
      (basic_entries c @ config_entries (render_upstreams_config (bc_upstreams c))) = reread c"
proof -
  have "(\<lambda>k. if k \<in> set page_keys \<or> k \<in> set upstream_keys then reread_extras c k
       else foldl (extra_value k) None (values_of k [])) = reread_extras c"
    by (rule ext) (simp add: reread_extras_other)
  then show ?thesis using read_pages [OF assms, of "[]"]
    by (simp add: foreign_def) (simp add: reread_def)
qed

text \<open>The five pages, as \<open>read_overview\<close> joins them.\<close>

definition basic_pages :: "beginner_config \<Rightarrow> ustr list" where
  "basic_pages c = [render_service_config c, render_performance_config c, render_logging_config c,
     render_network_config c]"

lemma basic_pages_read:
  assumes "clean_beginner c"
  shows "\<forall>t \<in> set (basic_pages c). plain_text t"
    and "concat (map config_entries (basic_pages c)) = basic_entries c"
  using page_entries_read [OF service_page [OF assms]] page_entries_read [OF performance_page [OF assms]]
    page_entries_read [OF logging_page [OF assms]] page_entries_read [OF network_page [OF assms]]
  by (simp_all add: basic_pages_def basic_entries_def render_service_config_def
      render_performance_config_def render_logging_config_def render_network_config_def)

lemma upstreams_page_plain:
  "clean_beginner c \<Longrightarrow> plain_text (render_upstreams_config (bc_upstreams c))"
  unfolding render_upstreams_config_def
  by (rule plain_text_join) (use upstreams_page_lines(1) [OF safe_effective [of c]] in blast)

text \<open>Reading back the five rendered pages of a configuration whose texts fit on lines gives
  that configuration in its normal form: every field is kept, trimmed or replaced by its
  default, the upstreams come back in the order of the page, and an extra survives exactly when
  a page writes its key.\<close>

theorem saved_pages_read_back:
  assumes "clean_beginner c"
  shows "parse_beginner_config (join_nonempty_sections
      [join_nonempty_sections (basic_pages c), render_upstreams_config (bc_upstreams c)]) = reread c"
proof -
  have "config_entries (join_nonempty_sections
      [join_nonempty_sections (basic_pages c), render_upstreams_config (bc_upstreams c)]) =
      basic_entries c @ config_entries (render_upstreams_config (bc_upstreams c))"
    using basic_pages_read [OF assms] upstreams_page_plain [OF assms]
    by (subst config_entries_sections) (auto intro: plain_text_sections simp: config_entries_sections)
  then show ?thesis using read_pages_alone [OF assms] by (simp add: parse_beginner_config_def)
qed

section \<open>Saving again changes nothing\<close>

lemma trimmed_strip_cr: "trimmed l \<Longrightarrow> l \<noteq> [] \<Longrightarrow> strip_cr l = l"
  by (cases "last l = 13") (simp_all add: strip_cr_def trimmed_def is_whitespace_def)

lemma str_lines_join_trimmed:
  "(\<And>l. l \<in> set ls \<Longrightarrow> no_nl l \<and> trimmed l \<and> l \<noteq> []) \<Longrightarrow> str_lines (join [10] ls) = ls"
proof (induction ls rule: induct_list012)
  case (2 l)
  then show ?case by (simp add: str_lines_last)
next
  case (3 l l2 ls)
  have l: "no_nl l" "trimmed l" "l \<noteq> []" using "3.prems" [of l] by simp_all
  have "str_lines (join [10] (l2 # ls)) = l2 # ls" using "3.IH"(2) "3.prems" by simp
  then show ?case using str_lines_Cons [OF l(1)] trimmed_strip_cr [OF l(2,3)] by simp
qed simp

lemma split_char_pieces: "p \<in> set (split_char c s) \<Longrightarrow> c \<notin> set p \<and> set p \<subseteq> set s"
proof (induction s rule: split_char.induct)
  case (1 c s)
  show ?case
  proof (cases "dropWhile (\<lambda>d. d \<noteq> c) s")
    case Nil
    then have "c \<notin> set s" by auto
    then show ?thesis using "1.prems" by (simp add: split_char_none)
  next
    case (Cons d r)
    have r: "set r \<subseteq> set s" using Cons by (metis set_dropWhileD set_subset_Cons subset_code(1))
    have "p = takeWhile (\<lambda>d. d \<noteq> c) s \<or> p \<in> set (split_char c r)"
      using "1.prems" Cons by (subst (asm) split_char.simps) auto
    then show ?thesis
    proof
      assume "p = takeWhile (\<lambda>d. d \<noteq> c) s"
      then show ?thesis by (auto dest: set_takeWhileD)
    next
      assume "p \<in> set (split_char c r)"
      then show ?thesis using "1.IH" [OF Cons] r by blast
    qed
  qed
qed

lemma list_item_chars:
  assumes "v \<in> set (split_list_extra c k)"
  shows "no_nl v \<and> 44 \<notin> set v"
proof -
  obtain l p where l: "no_nl l" and p: "p \<in> set (split_char 44 l)" "v = trim p"
    using assms by (auto simp: split_list_extra_def dest!: str_lines_no_nl split: option.splits)
  have "44 \<notin> set p" "no_nl p" using split_char_pieces [OF p(1)] l by (auto simp: no_nl_def)
  then show ?thesis using p(2) set_trim [of p] by (auto simp: no_nl_def)
qed

lemma starts_with_char: "x \<noteq> [] \<Longrightarrow> starts_with [c] x \<longleftrightarrow> hd x = c"
  by (cases x) (auto simp: starts_with_def)

lemma split_list_extra_join:
  assumes "bc_extras c' k = (if split_list_extra c k = [] then None else Some (join [10] (split_list_extra c k)))"
  shows "split_list_extra c' k = split_list_extra c k"
proof (cases "split_list_extra c k = []")
  case False
  let ?is = "split_list_extra c k"
  have i: "no_nl v \<and> trimmed v \<and> v \<noteq> [] \<and> hd v \<noteq> 35 \<and> 44 \<notin> set v" if "v \<in> set ?is" for v
    using split_list_extra_items [OF that] list_item_chars [OF that] by simp
  have "str_lines (join [10] ?is) = ?is" using i by (intro str_lines_join_trimmed) blast
  moreover have "concat (map (split_char 44) ?is) = ?is"
    using i by (simp add: split_char_none cong: map_cong)
  moreover have "map trim ?is = ?is" using i by (simp add: trimmed_trim_id map_idI)
  moreover have "filter (\<lambda>item. item \<noteq> [] \<and> \<not> starts_with [35] item) ?is = ?is"
    using i by (simp add: filter_id_conv starts_with_char)
  ultimately show ?thesis using False assms by (simp add: split_list_extra_def [of c' k])
qed (use assms in \<open>simp add: split_list_extra_def [of c' k]\<close>)

lemma reread_list_extra: "k \<in> set list_keys \<Longrightarrow> split_list_extra (reread c) k = split_list_extra c k"
  using keys_disjoint(3)
  by (intro split_list_extra_join) (auto simp: reread_def reread_extras_def list_all_iff)

lemma tls_enabled_reread: "tls_enabled (reread c) = tls_enabled c"
  by (simp add: tls_enabled_def reread_list_extra extra_key_members)

lemma nonblank_idem [simp]: "nonblank (nonblank x) = nonblank x"
  by (simp add: nonblank_def split: option.splits)

lemma nonblank_yesno [simp]: "nonblank (map_option (\<lambda>v. yesno (f v)) x) = map_option (\<lambda>v. yesno (f v)) x"
  by (cases x) (simp_all add: nonblank_def)

lemma nonblank_if [simp]: "nonblank None = None"
  by (simp add: nonblank_def)

lemma parse_yesno_map:
  "map_option (\<lambda>v. yesno (parse_yesno v False)) (map_option (\<lambda>v. yesno (f v)) x) = map_option (\<lambda>v. yesno (f v)) x"
  by (cases x) simp_all

lemma extra_key_kinds:
  "k \<in> set cert_keys \<Longrightarrow> k \<in> set plain_extra_keys"
  "k \<in> set plain_extra_keys \<Longrightarrow> k \<notin> set list_keys \<and> k \<notin> set bool_extra_keys"
  "k \<in> set bool_extra_keys \<Longrightarrow> k \<notin> set list_keys"
  using keys_disjoint(1,2) plain_keys_split by (auto simp: list_all_iff simp del: append_take_drop_id)
    (metis Un_iff set_append)

lemma reread_extras_idem: "reread_extras (reread c) k = reread_extras c k"
proof -
  have e: "bc_extras (reread c) k = reread_extras c k" by (simp add: reread_def)
  consider (plain) "k \<in> set plain_extra_keys"
    | (bool) "k \<in> set bool_extra_keys" "k \<notin> set plain_extra_keys" "k \<notin> set cert_keys"
    | (listed) "k \<in> set list_keys" "k \<notin> set plain_extra_keys" "k \<notin> set cert_keys" "k \<notin> set bool_extra_keys"
    | (other) "k \<notin> set plain_extra_keys" "k \<notin> set bool_extra_keys" "k \<notin> set list_keys" "k \<notin> set cert_keys"
    using extra_key_kinds [of k] by blast
  then show ?thesis
    by cases (simp_all add: reread_extras_def [of _ k] e tls_enabled_reread reread_list_extra parse_yesno_map)
qed

lemma or_default_idem: "trimmed d \<Longrightarrow> or_default d (or_default d v) = or_default d v"
  by (auto simp: or_default_def trimmed_trim_id)

lemma reread_fields:
  "bc_server_name (reread c) = trim (bc_server_name c)"
  "bc_cache_size (reread c) = or_default (lit ''32768'') (bc_cache_size c)"
  "bc_prefetch_domain (reread c) = bc_prefetch_domain c"
  "bc_serve_expired (reread c) = bc_serve_expired c"
  "bc_serve_expired_ttl (reread c) = or_default (lit ''86400'') (bc_serve_expired_ttl c)"
  "bc_response_mode (reread c) = or_default (lit ''first-ping'') (bc_response_mode c)"
  "bc_speed_check_mode (reread c) = or_default (lit ''ping,tcp:80,tcp:443'') (bc_speed_check_mode c)"
  "bc_dualstack_ip_selection (reread c) = bc_dualstack_ip_selection c"
  "bc_log_level (reread c) = or_default (lit ''info'') (bc_log_level c)"
  "bc_mdns_lookup (reread c) = bc_mdns_lookup c"
  "bc_audit_enable (reread c) = bc_audit_enable c"
  "bc_upstreams (reread c) = map saved_upstream (page_order (effective_upstreams (bc_upstreams c)))"
  "bc_extras (reread c) = reread_extras c"
  "bc_binds (reread c) =
     filter (\<lambda>v. v \<noteq> []) (map trim (if bc_binds c = [] then [lit ''[::]:53''] else bc_binds c))"
  by (simp_all add: reread_def)

lemma trim_items_idem:
  "filter (\<lambda>v. v \<noteq> []) (map trim (filter (\<lambda>v. v \<noteq> []) (map trim xs))) =
     filter (\<lambda>v. v \<noteq> []) (map trim xs)"
  by (induction xs) auto


theorem saved_pages_read_back_witness:
  "parse_beginner_config (join_nonempty_sections
     [join_nonempty_sections (basic_pages default_beginner_config),
      render_upstreams_config (bc_upstreams default_beginner_config)]) = reread default_beginner_config"
  by (rule saved_pages_read_back) code_simp

end
