(* ===== verification/Beginner_Validation.thy ===== *)
theory Beginner_Validation
  imports Beginner
begin

text \<open>
  What \<open>validate_beginner_config\<close> of \<open>src/src/config_ui.rs\<close> accepts: some upstream has an
  address, the response mode is set, and the \<open>group-begin\<close>/\<open>group-end\<close> lines of the rules
  are balanced.
\<close>

section \<open>Validation\<close>

definition opens :: "ustr \<Rightarrow> bool" where
  "opens l \<longleftrightarrow> starts_with (lit ''group-begin '') (trim l)"

definition closes :: "ustr \<Rightarrow> bool" where
  "closes l \<longleftrightarrow> \<not> opens l \<and> trim l = lit ''group-end''"

definition depth_after :: "ustr list \<Rightarrow> int" where
  "depth_after ls = int (length (filter opens ls)) - int (length (filter closes ls))"

definition depth_step :: "ustr \<Rightarrow> int" where
  "depth_step l = (if opens l then 1 else if closes l then -1 else 0)"

lemma depth_after_simps [simp]:
  "depth_after [] = 0"
  "depth_after (l # ls) = depth_step l + depth_after ls"
  by (auto simp: depth_after_def depth_step_def closes_def)

lemma group_scan_depth:
  "group_scan (e, d) (i, l) =
     (let d' = d + depth_step l
      in if d' < 0 then (e @ [[35268, 21017, 25991, 20214, 31532] @ (lit '' '') @ dec_digits (i + 1) @
           (lit '' '' @ [34892, 20986, 29616, 22810, 20313, 30340] @ lit '' group-end'' @ [12290])],
             0) else (e, d'))"
  by (auto simp: group_scan_def depth_step_def opens_def closes_def Let_def)

lemma group_scan_errors: "fst (foldl group_scan (e, d) ils) = [] \<Longrightarrow> e = []"
proof (induction ils arbitrary: e d)
  case (Cons il ils)
  obtain i l where il: "il = (i, l)" by fastforce
  obtain e' d' where s: "group_scan (e, d) (i, l) = (e', d')" by fastforce
  have "e' = []" using Cons.IH [of e' d'] Cons.prems s il by simp
  then show ?case using s by (auto simp: group_scan_depth Let_def split: if_splits)
qed simp

lemma group_scan_balanced:
  "0 \<le> d \<Longrightarrow>
     (fst (foldl group_scan (e, d) (enumerate k ls)) = [] \<longleftrightarrow>
        e = [] \<and> (\<forall>n \<le> length ls. 0 \<le> d + depth_after (take n ls))) \<and>
     (fst (foldl group_scan (e, d) (enumerate k ls)) = [] \<longrightarrow>
        snd (foldl group_scan (e, d) (enumerate k ls)) = d + depth_after ls)"
proof (induction ls arbitrary: e d k)
  case (Cons l ls)
  let ?d = "d + depth_step l"
  have all: "(\<forall>n \<le> length (l # ls). 0 \<le> d + depth_after (take n (l # ls))) \<longleftrightarrow>
      (\<forall>n \<le> length ls. 0 \<le> ?d + depth_after (take n ls))"
  proof
    assume *: "\<forall>n \<le> length (l # ls). 0 \<le> d + depth_after (take n (l # ls))"
    show "\<forall>n \<le> length ls. 0 \<le> ?d + depth_after (take n ls)"
    proof (intro allI impI)
      fix n assume "n \<le> length ls"
      then show "0 \<le> ?d + depth_after (take n ls)" using * [rule_format,
        of "Suc n"] by (simp add: add.assoc)
    qed
  next
    assume *: "\<forall>n \<le> length ls. 0 \<le> ?d + depth_after (take n ls)"
    show "\<forall>n \<le> length (l # ls). 0 \<le> d + depth_after (take n (l # ls))"
    proof (intro allI impI)
      fix n assume "n \<le> length (l # ls)"
      then show "0 \<le> d + depth_after (take n (l # ls))" using * Cons.prems
        by (cases n) (simp_all add: add.assoc)
    qed
  qed
  show ?case
  proof (cases "0 \<le> ?d")
    case True
    then have "group_scan (e, d) (k, l) = (e, ?d)" by (simp add: group_scan_depth Let_def)
    then have "foldl group_scan (e, d) (enumerate k (l # ls)) = foldl group_scan (e,
      ?d) (enumerate (Suc k) ls)"
      by simp
    then show ?thesis using Cons.IH [OF True, of e "Suc k"] all
      by (simp only: depth_after_simps add.assoc) blast
  next
    case False
    then have "\<exists>m. group_scan (e, d) (k, l) = (e @ [m], 0)" by (simp add: group_scan_depth Let_def)
    then have "fst (foldl group_scan (e, d) (enumerate k (l # ls))) \<noteq> []"
      using group_scan_errors by fastforce
    moreover have "\<not> (\<forall>n \<le> length ls. 0 \<le> ?d + depth_after (take n ls))"
      using False by (intro notI) (drule spec [of _ 0], simp)
    ultimately show ?thesis using all by simp
  qed
qed simp

definition balanced_groups :: "ustr list \<Rightarrow> bool" where
  "balanced_groups ls \<longleftrightarrow> (\<forall>n \<le> length ls. 0 \<le> depth_after (take n ls)) \<and> depth_after ls = 0"

lemma group_errors_balanced: "group_errors text = [] \<longleftrightarrow> balanced_groups (str_lines text)"
proof -
  let ?r = "foldl group_scan ([], 0) (enumerate 0 (str_lines text))"
  obtain e d where r: "?r = (e, d)" by fastforce
  have s: "(e = [] \<longleftrightarrow> (\<forall>n \<le> length (str_lines text). 0 \<le> depth_after (take n (str_lines text)))) \<and>
      (e = [] \<longrightarrow> d = depth_after (str_lines text))"
    using group_scan_balanced [of 0 "[]" 0 "str_lines text"] r by simp
  have "0 \<le> depth_after (str_lines text)"
    if "\<forall>n \<le> length (str_lines text). 0 \<le> depth_after (take n (str_lines text))"
    using that [rule_format, of "length (str_lines text)"] by simp
  then show ?thesis using r s by (auto simp: group_errors_def balanced_groups_def)
qed

text \<open>C21: A configuration is accepted exactly when some upstream has an address, the response mode
  is not blank, and every prefix of the rules has at least as many group-begin as group-end
  lines with equality at the end.\<close>

theorem validation_ok_iff:
  "vr_ok (validate_beginner_config c rules_text) \<longleftrightarrow>
     (\<exists>u \<in> set (bc_upstreams c). trim (up_value u) \<noteq> []) \<and> trim (bc_response_mode c) \<noteq> [] \<and>
     balanced_groups (str_lines rules_text)"
  by (auto simp: validate_beginner_config_def Let_def group_errors_balanced list_all_iff)

end
