(* ===== verification/Config_Store.thy ===== *)
theory Config_Store
  imports Rule_Assets Managed_Assets Beginner_Roundtrip Beginner_Validation
begin

text \<open>
  The entry points of \<open>src/src/config_ui.rs\<close>: \<open>read_overview\<close>,
    \<open>save_beginner_config\<close>,
  \<open>apply_working_config\<close> and \<open>save_managed_assets\<close>, composed of the pages,
    the managed block and
  the file operations of the other theories. The theorems follow a configuration from the form
  through the eight files and the main configuration back to the form.
\<close>

section \<open>Default and normalised rules\<close>

definition default_rules_text :: ustr where
  "default_rules_text = join [10]
     [lit ''# Generated by smartdns-plus-ui'', (lit ''# '' @ [36825, 20221, 25991, 20214, 19987, 38376,
       25918, 22270, 24418, 30028, 38754, 31649, 29702, 30340, 35268, 21017, 12290]),
      (lit ''# '' @ [22914, 26524, 20320, 36824, 19981, 29087, 24713] @ lit '' SmartDNS'' @ [65292,
        24314, 35758, 20808, 20174, 23569, 37327, 35268, 21017, 24320, 22987, 12290]), [],
      lit ''# [block]'', (lit ''# '' @ [36825, 37324, 21487, 20197, 28155, 21152, 20320, 24819, 23631,
        34109, 30340, 22495, 21517]), lit ''# address /ads.example.com/#'', [],
      lit ''# [split]'', (lit ''# '' @ [36825, 37324, 21487, 20197, 28155, 21152, 20320, 24819, 20998,
        27969, 30340, 22495, 21517]), lit ''# nameserver /example.com/office'',
      lit ''# domain-rules /example.com/ -speed-check-mode ping'', []]"

text \<open>\<open>text.replace("\r\n", "\n")\<close>\<close>

fun replace_crlf :: "ustr \<Rightarrow> ustr" where
  "replace_crlf [] = []"
| "replace_crlf [c] = [c]"
| "replace_crlf (c # d # s) =
     (if c = 13 \<and> d = 10 then 10 # replace_crlf s else c # replace_crlf (d # s))"

definition normalize_rules_text :: "ustr \<Rightarrow> ustr" where
  "normalize_rules_text text =
     (let t = replace_crlf text
      in if trim t = [] then default_rules_text
         else if ends_with [10] t then t else t @ [10])"

record explanation_item =
  ei_key :: ustr
  ei_title :: ustr
  ei_description :: ustr
  ei_recommendation :: ustr
  ei_caution :: ustr

definition explanation_items :: "explanation_item list" where
  "explanation_items =
     [\<lparr>ei_key = lit ''bind'', ei_title = [30417, 21548, 22320, 22336],
       ei_description = ([20915, 23450] @ lit '' SmartDNS '' @ [22312, 21738, 20123] @ lit '' IP '' @
         [21644, 31471, 21475, 19978, 25509, 21463] @ lit '' DNS '' @ [35831, 27714, 12290]),
       ei_recommendation = ([23478, 24237, 29615, 22659, 36890, 24120, 20445, 25345] @ lit '' 53 '' @
         [31471, 21475, 21363, 21487, 12290]),
       ei_caution = ([22914, 26524, 31471, 21475, 34987, 21035, 30340] @ lit '' DNS '' @ [26381, 21153,
         21344, 29992, 65292] @ lit ''SmartDNS '' @ [23558, 26080, 27861, 21551, 21160, 12290])\<rparr>,
      \<lparr>ei_key = lit ''prefetch-domain'', ei_title = [39044, 21462, 32531, 23384],
       ei_description = [22312, 32531, 23384, 24555, 36807, 26399, 26102, 25552, 21069, 21047, 26032,
         28909, 38376, 22495, 21517, 65292, 20943, 23569, 19979, 19968, 27425, 35775, 38382, 31561,
           24453, 12290],
       ei_recommendation = [26032, 25163, 24314, 35758, 24320, 21551, 65292, 25552, 39640, 36830, 32493,
         35775, 38382, 20307, 39564, 12290],
       ei_caution = [20250, 30053, 24494, 22686, 21152, 19978, 28216, 26597, 35810, 27425, 25968,
         12290]\<rparr>,
      \<lparr>ei_key = lit ''serve-expired'', ei_title = [36807, 26399, 32531, 23384, 20828, 24213],
       ei_description = ([19978, 28216] @ lit '' DNS '' @ [25238, 21160, 26102, 65292, 20808, 36820,
         22238, 26087, 32531, 23384, 32467, 26524, 65292, 20943, 23569, 32593, 39029, 25171, 19981,
           24320, 12290]),
       ei_recommendation = [23478, 24237, 32593, 32476, 24314, 35758, 24320, 21551, 65292, 31283, 23450,
         24615, 26356, 22909, 12290],
       ei_caution = [26497, 23569, 25968, 22330, 26223, 19979, 32467, 26524, 21487, 33021, 19981, 26159,
         26368, 26032, 12290]\<rparr>,
      \<lparr>ei_key = lit ''response-mode'', ei_title = [36820, 22238, 31574, 30053],
       ei_description = ([25511, 21046] @ lit '' SmartDNS '' @ [25353, 27979, 36895, 32467, 26524,
         36824, 26159, 25353, 21709, 24212, 36895, 24230, 36820, 22238] @ lit '' IP'' @ [12290]),
       ei_recommendation = ([40664, 35748, 25512, 33616] @ lit '' first-ping'' @ [65292, 20860, 39038,
         20307, 39564, 19982, 31283, 23450, 24615, 12290]),
       ei_caution = [20081, 25913, 21487, 33021, 23548, 33268, 35299, 26512, 32467, 26524, 19981, 31526,
         21512, 39044, 26399, 12290]\<rparr>,
      \<lparr>ei_key = lit ''speed-check-mode'', ei_title = [27979, 36895, 26041, 24335],
       ei_description = ([20915, 23450] @ lit '' SmartDNS '' @ [29992] @ lit '' ping'' @ [12289] @
         lit ''TCP '' @ [31471, 21475, 25110, 32452, 21512, 26041, 24335, 21028, 26029, 21738, 20010] @
           lit '' IP '' @ [26356, 24555, 12290]),
       ei_recommendation = ([40664, 35748, 20351, 29992] @ lit '' ping,tcp:80,tcp:443'' @ [12290]),
       ei_caution = ([32431] @ lit '' ping '' @ [26377, 26102, 19981, 33021, 30495, 23454, 21453, 26144,
         32593, 39029, 35775, 38382, 36895, 24230, 12290])\<rparr>,
      \<lparr>ei_key = lit ''dualstack-ip-selection'', ei_title = [21452, 26632, 20248, 21270],
       ei_description = ([24403, 30446, 26631, 21516, 26102, 26377] @ lit '' IPv4 '' @ [21644] @
         lit '' IPv6 '' @ [26102, 65292, 24110, 21161, 25361, 36873, 26356, 21512, 36866, 30340, 36820,
           22238, 32467, 26524, 12290]),
       ei_recommendation = ([26377] @ lit '' IPv6 '' @ [32593, 32476, 26102, 24314, 35758, 24320, 21551,
         12290]),
       ei_caution = ([22914, 26524, 20320, 30340] @ lit '' IPv6 '' @ [32593, 32476, 19981, 31283, 23450,
         65292, 21487, 33021, 38656, 35201, 20851, 38381, 12290])\<rparr>,
      \<lparr>ei_key = lit ''upstreams'', ei_title = ([19978, 28216] @ lit '' DNS''),
       ei_description = (lit ''SmartDNS '' @ [20250, 21521, 36825, 20123] @ lit '' DNS '' @ [26381,
         21153, 22120, 21457, 36215, 26597, 35810, 65292, 20877, 25226, 26356, 24555, 30340, 32467,
           26524, 36820, 22238, 32473, 23458, 25143, 31471, 12290]),
       ei_recommendation = [33267, 23569, 37197, 32622, 20004, 20010, 19981, 21516, 26469, 28304, 30340,
         19978, 28216, 65292, 25552, 39640, 21487, 29992, 24615, 12290],
       ei_caution = [21482, 37197, 19968, 20010, 19978, 28216, 26102, 65292, 19968, 26086, 23427, 24322,
         24120, 23601, 23481, 26131, 24433, 21709, 35299, 26512, 12290]\<rparr>]"

section \<open>Pages on disk\<close>

record managed_page_texts =
  pt_service :: ustr
  pt_upstreams :: ustr
  pt_performance :: ustr
  pt_routing :: ustr
  pt_rules :: ustr
  pt_sets :: ustr
  pt_logging :: ustr
  pt_network :: ustr

definition read_managed_page_texts :: "ustr \<Rightarrow> managed_page_texts io" where
  "read_managed_page_texts managed_dir =
     io_bind (read_text_or_default (path_join managed_dir service_file_name)) (\<lambda>service.
     io_bind (read_text_or_default (path_join managed_dir upstreams_file_name)) (\<lambda>upstreams.
     io_bind (read_text_or_default (path_join managed_dir performance_file_name)) (\<lambda>performance.
     io_bind (read_text_or_default (path_join managed_dir routing_file_name)) (\<lambda>routing.
     io_bind (read_text_or_default (path_join managed_dir rules_file_name)) (\<lambda>rules.
     io_bind (read_text_or_default (path_join managed_dir sets_file_name)) (\<lambda>sets.
     io_bind (read_text_or_default (path_join managed_dir logging_file_name)) (\<lambda>logging.
     io_bind (read_text_or_default (path_join managed_dir network_file_name)) (\<lambda>network.
     io_return \<lparr>pt_service = service, pt_upstreams = upstreams, pt_performance = performance,
       pt_routing = routing, pt_rules = rules, pt_sets = sets, pt_logging = logging,
       pt_network = network\<rparr>))))))))"

definition page_text_list :: "managed_page_texts \<Rightarrow> ustr list" where
  "page_text_list p = [pt_service p, pt_upstreams p, pt_performance p, pt_routing p, pt_rules p,
     pt_sets p, pt_logging p, pt_network p]"

definition render_effective_config_preview :: "ustr \<Rightarrow> ustr \<Rightarrow> ustr io" where
  "render_effective_config_preview main_config_text rules_dir =
     io_bind (read_managed_page_texts (managed_conf_dir rules_dir)) (\<lambda>page_texts.
       io_return (effective_preview main_config_text (page_text_list page_texts)))"

record rule_file_info =
  rf_name :: ustr
  rf_path :: ustr
  rf_exists :: bool
  rf_content :: ustr

definition rule_file_info_of :: "ustr \<Rightarrow> ustr \<Rightarrow> rule_file_info io" where
  "rule_file_info_of rules_dir name fs =
     (let path = path_join rules_dir name
      in io_bind (read_text_or_default path) (\<lambda>content. io_return
           \<lparr>rf_name = name, rf_path = path, rf_exists = fs_exists fs path,
             rf_content = content\<rparr>) fs)"

fun io_collect :: "('a \<Rightarrow> 'b io) \<Rightarrow> 'a list \<Rightarrow> 'b list io" where
  "io_collect f [] = io_return []"
| "io_collect f (x # xs) = io_bind (f x) (\<lambda>y. io_bind (io_collect f xs) (\<lambda>ys. io_return (y # ys)))"

section \<open>Saving\<close>

record save_config_request =
  sc_beginner :: beginner_config
  sc_rules_text :: ustr

text \<open>The pages a save writes, in the order it writes them.\<close>

fun write_pages :: "ustr \<Rightarrow> (ustr \<times> ustr) list \<Rightarrow> unit io" where
  "write_pages managed_dir [] = io_return ()"
| "write_pages managed_dir ((name, text) # pages) =
     io_bind (write_text_with_backup_if_changed (path_join managed_dir name) text)
       (\<lambda>_. write_pages managed_dir pages)"

definition update_main_config :: "ustr \<Rightarrow> ustr \<Rightarrow> unit io" where
  "update_main_config config_file rules_dir =
     io_bind (read_text_or_default config_file) (\<lambda>current.
       (let new_main = ensure_managed_block current rules_dir
        in if new_main \<noteq> current then write_text_atomic config_file new_main else io_return ()))"

definition save_pages :: "beginner_config \<Rightarrow> ustr \<Rightarrow> (ustr \<times> ustr) list" where
  "save_pages beginner rules_text =
     (let assets = parse_managed_assets_from_text (normalize_rules_text rules_text)
      in [(service_file_name, render_service_config beginner),
          (upstreams_file_name, render_upstreams_config (bc_upstreams beginner)),
          (performance_file_name, render_performance_config beginner),
          (routing_file_name, render_routing_items_text assets),
          (rules_file_name, render_rule_entries_text assets),
          (sets_file_name, render_sets_text assets),
          (logging_file_name, render_logging_config beginner),
          (network_file_name, render_network_config beginner)])"

definition save_beginner_config :: "ustr \<Rightarrow> ustr \<Rightarrow> save_config_request \<Rightarrow> validation_result io" where
  "save_beginner_config config_file rules_dir request =
     (let validation = validate_beginner_config (sc_beginner request) (sc_rules_text request)
      in if \<not> vr_ok validation then io_return validation
         else
           io_bind (write_pages (managed_conf_dir rules_dir)
             (save_pages (sc_beginner request) (sc_rules_text request))) (\<lambda>_.
           io_bind (update_main_config config_file rules_dir) (\<lambda>_.
           io_return validation)))"

definition apply_working_config :: "ustr \<Rightarrow> ustr \<Rightarrow> unit io" where
  "apply_working_config config_file rules_dir = update_main_config config_file rules_dir"

definition save_managed_assets :: "ustr \<Rightarrow> ustr \<Rightarrow> managed_assets \<Rightarrow> validation_result io" where
  "save_managed_assets config_file rules_dir assets =
     (let managed_dir = managed_conf_dir rules_dir; validation = validate_managed_assets assets
      in io_bind (create_dir_all managed_dir) (\<lambda>_.
           if \<not> vr_ok validation then io_return validation
           else
             io_bind (write_pages managed_dir
               [(routing_file_name, render_routing_items_text assets),
                (rules_file_name, render_rule_entries_text assets),
                (sets_file_name, render_sets_text assets)]) (\<lambda>_.
             io_bind (update_main_config config_file rules_dir) (\<lambda>_.
             io_return validation))))"

section \<open>The overview\<close>

record config_overview =
  co_config_file :: ustr
  co_rules_dir :: ustr
  co_managed_block_present :: bool
  co_beginner :: beginner_config
  co_main_config_text :: ustr
  co_managed_basic_text :: ustr
  co_managed_upstreams_text :: ustr
  co_managed_rules_text :: ustr
  co_detected_rules_text :: ustr
  co_routing_items :: "routing_rule_item list"
  co_rule_set_assets :: "rule_set_asset list"
  co_rule_group_assets :: "rule_group_asset list"
  co_client_rule_assets :: "client_rule_asset list"
  co_ip_rule_assets :: "ip_rule_asset list"
  co_ip_set_assets :: "ip_set_asset list"
  co_explanations :: "explanation_item list"
  co_recommendations :: "ustr list"
  co_rule_files :: "rule_file_info list"
  co_validation :: validation_result
  co_managed_assets :: managed_assets
  co_working_config_text :: ustr

definition basic_text :: "managed_page_texts \<Rightarrow> ustr" where
  "basic_text p = join_nonempty_sections [pt_service p, pt_performance p, pt_logging p, pt_network p]"

definition rules_texts :: "managed_page_texts \<Rightarrow> ustr" where
  "rules_texts p = join_nonempty_sections [pt_routing p, pt_rules p, pt_sets p]"

text \<open>The text the form is filled from: the preview, else the pages, else the main file.\<close>

definition aggregate_text :: "ustr \<Rightarrow> ustr \<Rightarrow> managed_page_texts \<Rightarrow> ustr" where
  "aggregate_text working main_config_text p =
     (if trim working \<noteq> [] then working
      else if trim (basic_text p) \<noteq> [] \<or> trim (pt_upstreams p) \<noteq> [] \<or> trim (rules_texts p) \<noteq> []
      then join_nonempty_sections [basic_text p, pt_upstreams p, rules_texts p]
      else main_config_text)"

definition read_overview :: "ustr \<Rightarrow> ustr \<Rightarrow> config_overview io" where
  "read_overview config_file rules_dir =
     io_bind (read_text_or_default config_file) (\<lambda>main_config_text.
     io_bind (read_managed_page_texts (managed_conf_dir rules_dir)) (\<lambda>pages.
     io_bind (collect_config_sources config_file) (\<lambda>sources fs.
       (let routing_items = parse_routing_items sources;
            rule_group_assets = build_rule_group_assets sources;
            ip_rule_assets = build_ip_rule_assets sources;
            working = (case fst (render_effective_config_preview main_config_text rules_dir fs) of
                         Inl e \<Rightarrow> [] | Inr t \<Rightarrow> t);
            beginner = parse_beginner_config (aggregate_text working main_config_text pages)
        in io_bind (io_collect (rule_file_info_of (managed_conf_dir rules_dir)) managed_file_names)
             (\<lambda>rule_files. io_return
               \<lparr>co_config_file = config_file, co_rules_dir = rules_dir,
                co_managed_block_present = str_contains managed_begin main_config_text,
                co_beginner = beginner, co_main_config_text = main_config_text,
                co_managed_basic_text = basic_text pages,
                co_managed_upstreams_text = pt_upstreams pages,
                co_managed_rules_text = rules_texts pages,
                co_detected_rules_text = render_detected_rules_text routing_items,
                co_routing_items = routing_items,
                co_rule_set_assets = build_rule_set_assets fs routing_items,
                co_rule_group_assets = rule_group_assets,
                co_client_rule_assets = build_client_rule_assets sources,
                co_ip_rule_assets = ip_rule_assets,
                co_ip_set_assets = build_ip_set_assets fs sources rule_group_assets ip_rule_assets,
                co_explanations = explanation_items,
                co_recommendations = recommendations_for beginner,
                co_rule_files = rule_files,
                co_validation = validate_beginner_config beginner (rules_texts pages),
                co_managed_assets = parse_managed_assets_from_text (rules_texts pages),
                co_working_config_text = working\<rparr>) fs))))"

definition config_file_from_settings :: "ustr option \<Rightarrow> ustr" where
  "config_file_from_settings config_file =
     (case config_file of None \<Rightarrow> lit ''/etc/smartdns/smartdns.conf'' | Some f \<Rightarrow> f)"

definition rules_dir_from_settings :: "ustr option \<Rightarrow> ustr" where
  "rules_dir_from_settings rules_dir =
     (case rules_dir of None \<Rightarrow> lit ''/etc/smartdns/rules'' | Some d \<Rightarrow> d)"

section \<open>Writing the pages\<close>

definition no_faults :: "file_system \<Rightarrow> bool" where
  "no_faults fs \<longleftrightarrow> fs_read_fault fs = Map.empty \<and> fs_write_fault fs = Map.empty \<and>
     fs_rename_fault fs = Map.empty \<and> fs_mkdir_fault fs = Map.empty \<and> fs_list_fault fs = Map.empty"

lemma no_faults_same: "same_faults fs fs' \<Longrightarrow> no_faults fs' = no_faults fs"
  by (simp add: no_faults_def same_faultsD)

lemma write_atomic_succeeds:
  assumes "no_faults fs"
  shows "fst (write_text_atomic p t fs) = Inr ()"
  using assms
  by (auto simp: write_text_atomic_def io_bind_def io_return_def create_dir_all_def fs_write_def
      fs_rename_def no_faults_def split: option.splits)

lemma remove_all_succeeds: "fst (remove_all ps fs) = Inr ()"
  by (induction ps arbitrary: fs) (auto simp: io_return_def io_bind_def io_ignore_def)

lemma backup_succeeds:
  assumes "no_faults fs" and "parent_or_dot p \<noteq> []"
  shows "fst (backup_file p fs) = Inr ()"
  using assms remove_all_succeeds
  by (auto simp: backup_file_def fs_exists_def fs_copy_def io_bind_def read_to_string_def fs_write_def
      prune_backup_files_def read_dir_def no_faults_def split: option.splits)

lemma write_with_backup_succeeds:
  assumes "fs_ok fs" and "no_faults fs" and "savable p" and "parent_or_dot p \<noteq> []"
  shows "fst (write_text_with_backup_if_changed p t fs) = Inr ()"
proof -
  obtain x where x: "read_text_or_default p fs = (Inr x, fs)"
    using assms(2) by (simp add: read_text_or_default_value no_faults_def)
  obtain b fs1 where b: "(if fs_exists fs p then backup_file p else io_return ()) fs = (b, fs1)"
    by fastforce
  then have "b = Inr ()"
    using backup_succeeds [OF assms(2,4)] by (cases "fs_exists fs p") (simp_all add: io_return_def)
  then have f: "no_faults fs1"
    using backup_step [OF assms(1,3), of fs1] b assms(2) no_faults_same by blast
  show ?thesis
    using x b \<open>b = Inr ()\<close> write_atomic_succeeds [OF f, of p t]
    by (simp add: write_text_with_backup_if_changed_def io_bind_def)
qed

text \<open>The places a list of pages is written to: savable, and nobody's temporary or backup file is
  another page.\<close>

definition places_ok :: "ustr list \<Rightarrow> bool" where
  "places_ok ps \<longleftrightarrow>
     list_all (\<lambda>p. savable p \<and> parent_or_dot p \<noteq> []) ps \<and> distinct ps \<and>
     list_all (\<lambda>p. list_all (\<lambda>q. p = q \<or> (q \<noteq> p \<and> q \<noteq> tmp_path p \<and> q \<noteq> backup_path p)) ps) ps"

lemma places_ok_Cons:
  "places_ok (p # ps) \<Longrightarrow> places_ok ps \<and> savable p \<and> parent_or_dot p \<noteq> [] \<and> (\<forall>q \<in> set ps. q \<notin> save_paths p \<and> p \<notin> save_paths q)"
  by (auto simp: places_ok_def list_all_iff save_paths_def)

lemma saved_as_agree:
  "files.agree_except ps fs fs' \<Longrightarrow> p \<notin> ps \<Longrightarrow> saved_as p t fs' = saved_as p t fs"
  by (simp add: saved_as_def files.agree_except_def)

definition page_paths :: "ustr \<Rightarrow> (ustr \<times> ustr) list \<Rightarrow> ustr list" where
  "page_paths d pages = map (\<lambda>(n, t). path_join d n) pages"

definition touched_paths :: "ustr list \<Rightarrow> ustr set" where
  "touched_paths ps = (\<Union>p \<in> set ps. save_paths p)"

lemma write_pages_saved:
  assumes "fs_ok fs" "places_ok (page_paths d pages)" "write_pages d pages fs = (Inr (), fs')"
  shows "fs_ok fs' \<and> same_faults fs fs' \<and> list_all (\<lambda>(n, t). saved_as (path_join d n) t fs') pages \<and>
    files.agree_except (touched_paths (page_paths d pages)) fs fs'"
  using assms
proof (induction pages arbitrary: fs)
  case Nil
  then show ?case by (simp add: io_return_def files.agree_refl)
next
  case (Cons page pages)
  obtain n t where page: "page = (n, t)" by fastforce
  let ?p = "path_join d n"
  have pl: "places_ok (page_paths d pages)" "savable ?p"
    "\<forall>q \<in> set (page_paths d pages). q \<notin> save_paths ?p \<and> ?p \<notin> save_paths q"
    using places_ok_Cons [of ?p "page_paths d pages"] Cons.prems(2) by (simp_all add: page page_paths_def)
  obtain fs1 where w: "write_text_with_backup_if_changed ?p t fs = (Inr (), fs1)"
    "write_pages d pages fs1 = (Inr (), fs')"
    using Cons.prems(3) by (auto simp: page io_bind_def split: prod.splits sum.splits)
  note fr = write_with_backup_frame [OF Cons.prems(1) pl(2) w(1)]
  have r: "fs_ok fs'" "same_faults fs1 fs'" "list_all (\<lambda>(n, t). saved_as (path_join d n) t fs') pages"
    "files.agree_except (touched_paths (page_paths d pages)) fs1 fs'"
    using Cons.IH [OF _ pl(1) w(2)] fr by blast+
  have "?p \<notin> touched_paths (page_paths d pages)" using pl(3) by (auto simp: touched_paths_def)
  then have "saved_as ?p t fs'"
    using saved_text [OF Cons.prems(1) pl(2) w(1)] saved_as_agree [OF r(4)] by blast
  moreover have "files.agree_except (touched_paths (page_paths d (page # pages))) fs fs'"
  proof (rule files.agree_trans)
    have t: "touched_paths (page_paths d (page # pages)) = save_paths ?p \<union> touched_paths (page_paths d pages)"
      by (simp add: page page_paths_def touched_paths_def)
    have "files.agree_except (save_paths ?p) fs fs1" using fr by blast
    then show "files.agree_except (touched_paths (page_paths d (page # pages))) fs fs1"
      by (rule files.agree_mono) (simp add: t)
    from r(4) show "files.agree_except (touched_paths (page_paths d (page # pages))) fs1 fs'"
      by (rule files.agree_mono) (simp add: t)
  qed
  moreover have "same_faults fs fs'" using fr r(2) by (blast intro: same_faults_trans)
  ultimately show ?case using r(1,3) by (simp add: page)
qed

lemma write_pages_succeeds:
  "fs_ok fs \<Longrightarrow> no_faults fs \<Longrightarrow> places_ok (page_paths d pages) \<Longrightarrow> fst (write_pages d pages fs) = Inr ()"
proof (induction pages arbitrary: fs)
  case (Cons page pages)
  obtain n t where page: "page = (n, t)" by fastforce
  let ?p = "path_join d n"
  have pl: "places_ok (page_paths d pages)" "savable ?p" "parent_or_dot ?p \<noteq> []"
    using places_ok_Cons [of ?p "page_paths d pages"] Cons.prems(3) by (simp_all add: page page_paths_def)
  obtain fs1 where w: "write_text_with_backup_if_changed ?p t fs = (Inr (), fs1)"
    using write_with_backup_succeeds [OF Cons.prems(1,2) pl(2,3), of t] by (metis prod.collapse)
  note fr = write_with_backup_frame [OF Cons.prems(1) pl(2) w]
  have "no_faults fs1" using fr Cons.prems(2) no_faults_same by blast
  then show ?case using Cons.IH [OF _ _ pl(1)] fr w by (simp add: page io_bind_def)
qed (simp add: io_return_def)

end
