(* ===== verification/Http_Server.thy ===== *)
theory Http_Server
  imports Api_Msg Data_Server Config_Store
begin

text \<open>
  The HTTP server of \<open>src/src/http_server.rs\<close> with its tokens (\<open>src/src/http_jwt.rs\<close>) and errors
  (\<open>src/src/http_error.rs\<close>): settings, the limit on log-in attempts, the token of a request, the
  gate every API request passes, and the pages served from the web root. Sockets, TLS and the HTTP
  library are not modelled; signing and checking a token, password hashes, URL coding and URL
  parsing are library code and arguments (\<open>http_lib\<close>). An \<open>Instant\<close> is a number of nanoseconds on
  a clock that does not go back; the calls of \<open>Instant::now\<close> in one operation give one time.
\<close>

section \<open>Requests and responses\<close>

datatype http_method = GET | POST | PUT | DELETE | OPTIONS | Other_Method ustr

text \<open>A header value is text or not (\<open>to_str\<close> fails on it).\<close>

datatype header_value = Header ustr | Opaque_Header "8 word list"

datatype body_read = Body ustr | Body_Failed ustr | Not_Utf8 ustr

record http_request =
  hr_method :: http_method
  hr_path :: ustr
  hr_query :: ustr
  hr_headers :: "ustr \<Rightarrow> header_value option"
  hr_body :: body_read
  hr_upgrade :: bool

record http_response =
  hp_status :: nat
  hp_headers :: "(ustr \<times> header_value) list"
  hp_body :: ustr

record http_error =
  he_code :: nat
  he_msg :: ustr

definition header :: "string \<Rightarrow> http_response \<Rightarrow> header_value option" where
  "header name r = map_of (hp_headers r) (lit name)"

definition set_header :: "string \<Rightarrow> header_value \<Rightarrow> http_response \<Rightarrow> http_response" where
  "set_header name v r = r\<lparr>hp_headers := AList.update (lit name) v (hp_headers r)\<rparr>"

definition set_text :: "string \<Rightarrow> string \<Rightarrow> http_response \<Rightarrow> http_response" where
  "set_text name v = set_header name (Header (lit v))"

definition new_response :: "ustr \<Rightarrow> http_response" where
  "new_response body = \<lparr>hp_status = 200, hp_headers = [], hp_body = body\<rparr>"

text \<open>\<open>http_error.rs\<close>: an error as a response,
  and the conversions of \<open>?\<close>.\<close>

definition to_response :: "json_lib \<Rightarrow> http_error \<Rightarrow> http_response" where
  "to_response json e =
     (set_text ''Content-Type'' ''application/json'' (new_response (api_msg_error json (he_msg e))))
       \<lparr>hp_status := he_code e\<rparr>"

definition error_of_hyper :: "ustr \<Rightarrow> http_error" where
  "error_of_hyper e = \<lparr>he_code = 500, he_msg = lit ''Hyper error: '' @ e\<rparr>"

definition error_of_utf8 :: "ustr \<Rightarrow> http_error" where
  "error_of_utf8 e = \<lparr>he_code = 400, he_msg = lit ''FromUtf8Error: '' @ e\<rparr>"

definition error_of_io :: "ustr \<Rightarrow> http_error" where
  "error_of_io e = \<lparr>he_code = 500, he_msg = lit ''IO error: '' @ e\<rparr>"

definition error_of_box :: "ustr \<Rightarrow> http_error" where
  "error_of_box e = \<lparr>he_code = 500, he_msg = lit ''Error: '' @ e\<rparr>"

section \<open>Tokens\<close>

record jwt_claims =
  jc_user :: ustr
  jc_ip :: ustr
  jc_exp :: u64

record jwt =
  jw_user :: ustr
  jw_secret :: ustr
  jw_ip :: ustr
  jw_expired_in :: u32

record token_info =
  ti_token :: ustr
  ti_expire :: ustr

record http_lib =
  hl_json :: json_lib
  hl_jwt_encode :: "ustr \<Rightarrow> jwt_claims \<Rightarrow> ustr"
  hl_jwt_decode :: "ustr \<Rightarrow> u64 \<Rightarrow> ustr \<Rightarrow> (ustr, jwt_claims) result"
  hl_verify_password :: "ustr \<Rightarrow> ustr \<Rightarrow> bool"
  hl_hash_password :: "ustr \<Rightarrow> u32 \<Rightarrow> (ustr, ustr) result"
  hl_url_encode :: "ustr \<Rightarrow> ustr"
  hl_url_decode :: "ustr \<Rightarrow> ustr option"
  hl_url_scheme :: "ustr \<Rightarrow> ustr option"
  hl_form_parse :: "ustr \<Rightarrow> ustr \<Rightarrow> ustr option"
  hl_lower :: "ustr \<Rightarrow> ustr"

text \<open>The clock of \<open>jsonwebtoken\<close> in seconds is the argument \<open>now\<close>.\<close>

definition decode_token :: "http_lib \<Rightarrow> u64 \<Rightarrow> jwt \<Rightarrow> ustr \<Rightarrow> (ustr, jwt_claims) result" where
  "decode_token lib now j token = hl_jwt_decode lib (jw_secret j) now token"

definition encode_token :: "http_lib \<Rightarrow> u64 \<Rightarrow> jwt \<Rightarrow> token_info" where
  "encode_token lib now j =
     \<lparr>ti_token = hl_jwt_encode lib (jw_secret j)
        \<lparr>jc_user = jw_user j, jc_ip = jw_ip j, jc_exp = now + ucast (jw_expired_in j)\<rparr>,
      ti_expire = show_u (jw_expired_in j)\<rparr>"

definition is_token_valid :: "http_lib \<Rightarrow> u64 \<Rightarrow> jwt \<Rightarrow> ustr \<Rightarrow> bool" where
  "is_token_valid lib now j token =
     (case decode_token lib now j token of
        Inl e \<Rightarrow> False
      | Inr c \<Rightarrow> \<not> (jc_user c \<noteq> jw_user j \<or> jc_ip c \<noteq> jw_ip j))"

definition refresh_token :: "http_lib \<Rightarrow> u64 \<Rightarrow> jwt \<Rightarrow> ustr \<Rightarrow> (ustr, token_info) result" where
  "refresh_token lib now j token =
     (if \<not> is_token_valid lib now j token then Inl (lit ''token is invalid'')
      else Inr (encode_token lib now j))"

section \<open>Configuration\<close>

record http_server_config =
  hc_http_ip :: ustr
  hc_http_root :: ustr
  hc_username :: ustr
  hc_password :: ustr
  hc_jwt_secret :: ustr
  hc_token_expired_time :: u32
  hc_enable_cors :: bool
  hc_enable_terminal :: bool
  hc_config_file :: ustr
  hc_rules_dir :: ustr

definition jwt_secret_key :: ustr where "jwt_secret_key = lit ''smartdns-plus-ui.jwt-secret''"
definition password_key :: ustr where "password_key = lit ''smartdns-plus-ui.password''"

definition new_http_server_config :: "bool \<Rightarrow> ustr \<Rightarrow> ustr \<Rightarrow> http_server_config" where
  "new_http_server_config ipv6 default_password_hash secret =
     \<lparr>hc_http_ip = (if ipv6 then lit ''http://[::]:6081'' else lit ''http://0.0.0.0:6081''),
      hc_http_root = lit ''/usr/share/smartdns-plus/wwwroot'', hc_username = lit ''admin'',
      hc_password = default_password_hash, hc_jwt_secret = secret,
      hc_token_expired_time = 30 * 24 * 60 * 60, hc_enable_cors = False, hc_enable_terminal = False,
      hc_config_file = lit ''/etc/smartdns/smartdns.conf'', hc_rules_dir = lit ''/etc/smartdns/rules''\<rparr>"

definition show_bool :: "bool \<Rightarrow> ustr" where
  "show_bool b = (if b then lit ''true'' else lit ''false'')"

definition settings_map :: "http_server_config \<Rightarrow> ustr \<Rightarrow> ustr option" where
  "settings_map c =
     [lit ''http_ip'' \<mapsto> hc_http_ip c, lit ''username'' \<mapsto> hc_username c,
      lit ''token_expired_time'' \<mapsto> show_u (hc_token_expired_time c),
      lit ''enable_cors'' \<mapsto> show_bool (hc_enable_cors c),
      lit ''enable_terminal'' \<mapsto> show_bool (hc_enable_terminal c),
      lit ''config_file'' \<mapsto> hc_config_file c, lit ''rules_dir'' \<mapsto> hc_rules_dir c]"

definition or_else :: "'a option \<Rightarrow> 'a option \<Rightarrow> 'a option" where
  "or_else a b = (case a of None \<Rightarrow> b | Some x \<Rightarrow> Some x)"

definition is_yes :: "ustr \<Rightarrow> bool" where
  "is_yes v \<longleftrightarrow> eq_ignore_ascii_case v (lit ''yes'') \<or> eq_ignore_ascii_case v (lit ''true'')"

text \<open>The settings of the database and of the configuration file are the lookups \<open>in_db\<close> and
  \<open>in_file\<close>; \<open>setting\<close> is \<open>get_server_config\<close>.\<close>

definition setting :: "(ustr \<Rightarrow> ustr option) \<Rightarrow> (ustr \<Rightarrow> ustr option) \<Rightarrow> ustr \<Rightarrow> ustr option" where
  "setting in_db in_file key = or_else (in_db key) (in_file key)"

definition get_setting_compat ::
    "(ustr \<Rightarrow> ustr option) \<Rightarrow> (ustr \<Rightarrow> ustr option) \<Rightarrow> ustr \<Rightarrow> ustr \<Rightarrow> ustr option" where
  "get_setting_compat in_db in_file db_key plugin_key =
     or_else (in_db db_key) (or_else (in_db plugin_key) (in_file plugin_key))"

text \<open>\<open>hash\<close> is \<open>hash_password(_, Some(10000)).unwrap()\<close>,
  \<open>secret\<close> the secret \<open>generate_secret\<close> would
  return.\<close>

definition load_http_config ::
    "(ustr \<Rightarrow> ustr option) \<Rightarrow> (ustr \<Rightarrow> ustr option) \<Rightarrow> (ustr \<Rightarrow> ustr) \<Rightarrow> ustr \<Rightarrow>
      http_server_config \<Rightarrow> http_server_config" where
  "load_http_config in_db in_file hash secret c =
     (let get = setting in_db in_file;
          c = (case in_db password_key of
                 Some p \<Rightarrow> c\<lparr>hc_password := p\<rparr>
               | None \<Rightarrow> (case in_file password_key of
                   Some p \<Rightarrow> c\<lparr>hc_password := hash p\<rparr>
                 | None \<Rightarrow> c));
          c = c\<lparr>hc_jwt_secret :=
                (case in_db jwt_secret_key of
                   Some s \<Rightarrow> s
                 | None \<Rightarrow> (case in_file jwt_secret_key of Some s \<Rightarrow> s | None \<Rightarrow> secret))\<rparr>;
          c = (case get (lit ''smartdns-plus-ui.user'') of Some u \<Rightarrow> c\<lparr>hc_username := u\<rparr> | None \<Rightarrow> c);
          c = c\<lparr>hc_token_expired_time :=
                parse_value (get (lit ''smartdns-plus-ui.token-expire'')) 60 (365 * 24 * 60 * 60)
                  (30 * 24 * 60 * 60)\<rparr>;
          c = (case get_setting_compat in_db in_file (lit ''enable_cors'') (lit ''smartdns-plus-ui.enable-cors'') of
                 Some v \<Rightarrow> c\<lparr>hc_enable_cors := is_yes v\<rparr> | None \<Rightarrow> c);
          c = (case get (lit ''smartdns-plus-ui.enable-terminal'') of
                 Some v \<Rightarrow> c\<lparr>hc_enable_terminal := is_yes v\<rparr> | None \<Rightarrow> c);
          c = (case get (lit ''smartdns-plus-ui.config-file'') of
                 Some f \<Rightarrow> c\<lparr>hc_config_file := config_file_from_settings (Some f)\<rparr> | None \<Rightarrow> c)
      in (case get (lit ''smartdns-plus-ui.rules-dir'') of
            Some d \<Rightarrow> c\<lparr>hc_rules_dir := rules_dir_from_settings (Some d)\<rparr> | None \<Rightarrow> c))"

section \<open>Log-in attempts\<close>

type_synonym login_attempts = "i32 \<times> nat"

definition login_attempts_reset :: "nat \<Rightarrow> login_attempts \<Rightarrow> login_attempts" where
  "login_attempts_reset now a = (0, now)"

definition login_attempts_check :: "nat \<Rightarrow> login_attempts \<Rightarrow> bool \<times> login_attempts" where
  "login_attempts_check now a =
     (let (n, since) = a;
          since = (if n = 0 then now else since);
          n = n + 1
      in if 5 < sint n
         then (let secs = (now - since) div 1000000000
               in if secs < 60 then (False, n, if secs < 30 then now else since)
                  else (True, 0, now))
         else (True, n, since))"

section \<open>The token of a request\<close>

definition is_https_server :: "http_lib \<Rightarrow> http_server_config \<Rightarrow> bool" where
  "is_https_server lib c \<longleftrightarrow> hl_url_scheme lib (hc_http_ip c) = Some (lit ''https'')"

definition cookie_token :: "http_lib \<Rightarrow> ustr \<Rightarrow> ustr option" where
  "cookie_token lib cookie =
     (case find (\<lambda>c. starts_with (lit ''token='') (trim c)) (split_char 59 cookie) of
        None \<Rightarrow> None
      | Some c \<Rightarrow>
          (case strip_prefix (lit ''token='') (trim c) of
             None \<Rightarrow> None
           | Some v \<Rightarrow> hl_url_decode lib v))"

definition bearer :: "ustr \<Rightarrow> (ustr, ustr option) result" where
  "bearer token =
     (case strip_prefix (lit ''Bearer'') token of
        None \<Rightarrow> Inl (lit ''Invalid authorization type'')
      | Some t \<Rightarrow> Inr (Some (trim t)))"

definition get_token_from_header :: "http_lib \<Rightarrow> http_request \<Rightarrow> (ustr,
  ustr option) result" where
  "get_token_from_header lib req =
     (case hr_headers req (lit ''Authorization'') of
        Some (Header auth) \<Rightarrow> bearer auth
      | Some (Opaque_Header _) \<Rightarrow> Inr None
      | None \<Rightarrow>
          (case hr_headers req (lit ''Cookie'') of
             Some (Header cookie) \<Rightarrow>
               (case cookie_token lib cookie of None \<Rightarrow> Inr None | Some token \<Rightarrow> bearer token)
           | _ \<Rightarrow> Inr None))"

definition conf_jwt :: "http_server_config \<Rightarrow> jwt" where
  "conf_jwt c = \<lparr>jw_user = hc_username c, jw_secret = hc_jwt_secret c, jw_ip = [],
     jw_expired_in = hc_token_expired_time c\<rparr>"

definition auth_token_is_valid ::
    "http_lib \<Rightarrow> u64 \<Rightarrow> http_server_config \<Rightarrow> http_request \<Rightarrow> (ustr, bool) result" where
  "auth_token_is_valid lib now c req =
     bind_result (get_token_from_header lib req) (\<lambda>token.
       Inr (case token of None \<Rightarrow> False | Some t \<Rightarrow> is_token_valid lib now (conf_jwt c) t))"

section \<open>The gate of the API\<close>

definition server_add_cors_header ::
    "http_server_config \<Rightarrow> header_value option \<Rightarrow> http_response \<Rightarrow> http_response" where
  "server_add_cors_header c origin r =
     (if \<not> hc_enable_cors c then r
      else
        let r = (case origin of
                   Some o' \<Rightarrow> set_header ''Access-Control-Allow-Origin'' o' r
                 | None \<Rightarrow> set_text ''Access-Control-Allow-Origin'' ''*'' r);
            r = set_text ''Access-Control-Allow-Methods'' ''GET, POST, PUT, DELETE, OPTIONS, PATCH'' r;
            r = set_text ''Access-Control-Allow-Headers'' ''Content-Type, Authorization, Set-Cookie'' r;
            r = set_text ''Access-Control-Allow-Credentials'' ''true'' r
        in set_text ''Access-Control-Max-Age'' ''600'' r)"

type_synonym route_params = "ustr \<Rightarrow> ustr option"

type_synonym 's api_handler =
  "route_params \<Rightarrow> http_request \<Rightarrow> 's \<Rightarrow> (http_error,
    http_response) result \<times> 's"

record 's api_route =
  ar_method :: http_method
  ar_auth :: bool
  ar_handler :: "'s api_handler"

definition gate_error ::
    "json_lib \<Rightarrow> http_server_config \<Rightarrow> header_value option \<Rightarrow> nat \<Rightarrow> ustr \<Rightarrow> http_response" where
  "gate_error json c origin code msg =
     server_add_cors_header c origin
       ((set_text ''Cache-Control'' ''no-cache''
          (set_text ''Content-Type'' ''application/json'' (new_response (api_msg_error json msg))))
        \<lparr>hp_status := code\<rparr>)"

definition default_header :: "string \<Rightarrow> string \<Rightarrow> http_response \<Rightarrow> http_response" where
  "default_header name v r = (if header name r = None then set_text name v r else r)"

text \<open>\<open>conf_of\<close> reads the configuration from the server's state: the CORS header of a handled request
  is added with the configuration after the handler.\<close>

definition server_handle_http_api_request ::
    "http_lib \<Rightarrow> u64 \<Rightarrow> ('s \<Rightarrow> http_server_config) \<Rightarrow>
     (http_method \<Rightarrow> ustr \<Rightarrow> ('s api_route \<times> route_params) option) \<Rightarrow>
     http_request \<Rightarrow> 's \<Rightarrow> http_response \<times> 's" where
  "server_handle_http_api_request lib now conf_of get_router req s =
     (let origin = hr_headers req (lit ''Origin'');
          error = gate_error (hl_json lib) (conf_of s) origin
      in if hr_method req = OPTIONS
         then (server_add_cors_header (conf_of s) origin
                 (set_text ''Cache-Control'' ''no-cache''
                   (set_text ''Content-Type'' ''application/json'' (new_response []))), s)
         else case get_router (hr_method req) (hr_path req) of
           None \<Rightarrow> (error 404 (lit ''API not found.''), s)
         | Some (route, param) \<Rightarrow>
             (case (if ar_auth route then auth_token_is_valid lib now (conf_of s) req else Inr True) of
                Inl e \<Rightarrow> (error 400 e, s)
              | Inr False \<Rightarrow> (error 401 (lit ''Please login.''), s)
              | Inr True \<Rightarrow>
                  if ar_method route \<noteq> hr_method req then (error 405 (lit ''Method Not Allowed''), s)
                  else case ar_handler route param req s of
                    (Inr resp, s') \<Rightarrow>
                      (server_add_cors_header (conf_of s') origin
                        (default_header ''Cache-Control'' ''no-cache''
                          (default_header ''Content-Type'' ''application/json'' resp)), s')
                  | (Inl e, s') \<Rightarrow> (to_response (hl_json lib) e, s')))"

section \<open>Paths\<close>

datatype component = Root_Dir | Cur_Dir | Parent_Dir | Normal ustr

text \<open>\<open>Path::components\<close> on a Unix path: empty components and \<open>.\<close> vanish, except for a leading \<open>.\<close>
  of a relative path.\<close>

fun component_of :: "ustr \<Rightarrow> component list" where
  "component_of s =
     (if s = [] \<or> s = [46] then [] else if s = [46, 46] then [Parent_Dir] else [Normal s])"

definition components :: "ustr \<Rightarrow> component list" where
  "components path =
     (case path of
        [] \<Rightarrow> []
      | c # _ \<Rightarrow>
          (if c = 47 then [Root_Dir] else if hd (split_char 47 path) = [46] then [Cur_Dir] else []) @
          concat (map component_of (split_char 47 path)))"

text \<open>A \<open>PathBuf\<close> of root and normal components only; \<open>pop\<close> leaves the root and the empty path as
  they are.\<close>

type_synonym clean_path = "bool \<times> ustr list"

fun path_component :: "component \<Rightarrow> clean_path \<Rightarrow> clean_path" where
  "path_component Root_Dir p = (True, [])"
| "path_component Cur_Dir p = p"
| "path_component Parent_Dir (absolute, cs) = (absolute, butlast cs)"
| "path_component (Normal c) (absolute, cs) = (absolute, cs @ [c])"

definition normalize_path :: "ustr \<Rightarrow> clean_path" where
  "normalize_path path = fold path_component (components path) (False, [])"

section \<open>Pages\<close>

record page_meta =
  pm_etag :: ustr

datatype page_node =
    Absent
  | Directory "page_meta option"
  | Page "page_meta option" "ustr option"

fun is_dir :: "page_node \<Rightarrow> bool" where
  "is_dir (Directory _) = True"
| "is_dir _ = False"

fun node_meta :: "page_node \<Rightarrow> page_meta option" where
  "node_meta (Directory m) = m"
| "node_meta (Page m _) = m"
| "node_meta Absent = None"

fun node_content :: "page_node \<Rightarrow> ustr option" where
  "node_content (Page _ c) = c"
| "node_content _ = None"

text \<open>The file system below the root: a file with its metadata and content,
  \<open>None\<close> where reading
  them fails. A path is the list of its components.\<close>

type_synonym page_tree = "ustr list \<Rightarrow> page_node"

definition extension :: "ustr list \<Rightarrow> ustr option" where
  "extension path =
     (if path = [] then None
      else case rsplit_char 46 (last path) of
        None \<Rightarrow> None
      | Some (stem, ext) \<Rightarrow> if stem = [] then None else Some ext)"

definition with_html :: "ustr list \<Rightarrow> ustr list" where
  "with_html path =
     (if path = [] then []
      else butlast path @
        [(case rsplit_char 46 (last path) of
            Some (stem, ext) \<Rightarrow> (if stem = [] then last path else stem)
          | None \<Rightarrow> last path) @ lit ''.html''])"

text \<open>The file a page request is answered from, the name that decides its type and whether it stands
  for a missing page.\<close>

definition page_step1 :: "page_tree \<Rightarrow> ustr \<Rightarrow> ustr list \<times> ustr \<Rightarrow> ustr list \<times> ustr" where
  "page_step1 tree uri fp =
     (if extension (fst fp) = None \<and> \<not> ends_with (lit ''/'') uri \<and> tree (with_html (fst fp)) \<noteq> Absent
      then (with_html (fst fp), uri @ lit ''.html'') else fp)"

definition page_step2 :: "page_tree \<Rightarrow> ustr \<Rightarrow> ustr list \<times> ustr \<Rightarrow> ustr list \<times> ustr" where
  "page_step2 tree uri fp =
     (if is_dir (tree (fst fp)) then (fst fp @ [lit ''index.html''], uri @ lit ''/index.html'') else fp)"

definition page_step3 :: "page_tree \<Rightarrow> ustr list \<Rightarrow> ustr list \<times> ustr \<Rightarrow> (ustr list \<times> ustr) \<times> bool" where
  "page_step3 tree root fp =
     (if tree (fst fp) \<noteq> Absent then (fp, False)
      else if tree (root @ [lit ''404.html'']) = Absent
           then ((root @ [lit ''index.html''], lit ''/index.html''), False)
           else ((root @ [lit ''404.html''], lit ''/404.html''), True))"

definition page_file :: "page_tree \<Rightarrow> ustr list \<Rightarrow> ustr \<Rightarrow> (ustr list \<times> ustr) \<times> bool" where
  "page_file tree root uri =
     (let fp = (root @ snd (normalize_path uri), uri)
      in if tree (fst fp) = Absent \<or> is_dir (tree (fst fp))
         then page_step3 tree root (page_step2 tree uri (page_step1 tree uri fp))
         else (fp, False))"

definition mime_map :: "(string \<times> string) list" where
  "mime_map =
     [(''htm'', ''text/html''), (''html'', ''text/html''), (''js'', ''text/javascript''),
      (''css'', ''text/css''), (''txt'', ''text/plain''), (''conf'', ''text/plain''),
      (''xml'', ''text/xml''), (''csv'', ''text/csv''), (''md'', ''text/markdown''),
      (''png'', ''image/png''), (''gif'', ''image/gif''), (''jpeg'', ''image/jpeg''),
      (''svg'', ''image/svg+xml''), (''ico'', ''image/x-icon''), (''bmp'', ''image/bmp''),
      (''avif'', ''image/avif''), (''mpeg'', ''video/mpeg''), (''mp4'', ''video/mp4''),
      (''webm'', ''video/webm''), (''mp3'', ''audio/mpeg''), (''ogg'', ''audio/ogg''),
      (''wav'', ''audio/wav''), (''woff'', ''font/woff''), (''woff2'', ''font/woff2''),
      (''ttf'', ''font/ttf''), (''otf'', ''font/otf''), (''wasm'', ''application/wasm''),
      (''pdf'', ''application/pdf''), (''json'', ''application/json''), (''tar'', ''application/x-tar''),
      (''zip'', ''application/zip'')]"

definition get_mime_type :: "ustr \<Rightarrow> ustr" where
  "get_mime_type file =
     (case map_of (map (\<lambda>(k, v). (lit k, lit v)) mime_map) (last (split_char 46 file)) of
        Some mime \<Rightarrow> mime
      | None \<Rightarrow> lit ''application/octet-stream'')"

text \<open>The answer when reading the file fails: the pages compiled into the program (\<open>asset\<close>) for three
  addresses.\<close>

definition embedded_page :: "(ustr \<Rightarrow> ustr) \<Rightarrow> ustr \<Rightarrow> http_response" where
  "embedded_page asset uri =
     (if uri = lit ''/'' \<or> uri = lit ''/index.html'' then
        set_text ''Content-Type'' ''text/html; charset=utf-8'' (new_response (asset (lit ''index.html'')))
      else if uri = lit ''/app.js'' then
        set_text ''Content-Type'' ''text/javascript; charset=utf-8'' (new_response (asset (lit ''app.js'')))
      else if uri = lit ''/style.css'' then
        set_text ''Content-Type'' ''text/css; charset=utf-8'' (new_response (asset (lit ''style.css'')))
      else (new_response (lit ''Page Not Found''))\<lparr>hp_status := 404\<rparr>)"

definition file_response :: "ustr \<Rightarrow> ustr \<Rightarrow> page_meta option \<Rightarrow> bool \<Rightarrow> http_response" where
  "file_response content path meta is_404 =
     (let r = new_response content;
          r = set_header ''Content-Length'' (Header (dec_digits (length content))) r;
          r = set_header ''Content-Type'' (Header (get_mime_type path)) r;
          r = set_text ''Connection'' ''keep-alive'' r;
          r = set_text ''Keep-Alive'' ''timeout=60, max=1000'' r;
          r = (case meta of None \<Rightarrow> r | Some m \<Rightarrow> set_header ''ETag'' (Header (pm_etag m)) r)
      in r\<lparr>hp_status := (if is_404 then 404 else 200)\<rparr>)"

text \<open>A page request; \<open>None\<close> is the panic on an \<open>If-None-Match\<close> header that is not text. The content
  of a file counts one character per byte.\<close>

definition page_response :: "(ustr \<Rightarrow> ustr) \<Rightarrow> page_tree \<Rightarrow> ustr list \<Rightarrow> http_request \<Rightarrow> http_response option" where
  "page_response asset tree root req =
     (let ((file, path), is_404) = page_file tree root (hr_path req);
          meta = node_meta (tree file);
          answer = (case node_content (tree file) of
              Some content \<Rightarrow> file_response content path meta is_404
            | None \<Rightarrow> embedded_page asset (hr_path req))
      in case (hr_headers req (lit ''If-None-Match''), meta) of
           (Some (Header tag), Some m) \<Rightarrow>
             Some (if pm_etag m = tag then (new_response [])\<lparr>hp_status := 304\<rparr> else answer)
         | (Some (Opaque_Header _), Some m) \<Rightarrow> None
         | _ \<Rightarrow> Some answer)"

definition is_api_path :: "ustr \<Rightarrow> bool" where
  "is_api_path uri \<longleftrightarrow>
     (case snd (normalize_path uri) of [] \<Rightarrow> False | c # _ \<Rightarrow> c = lit ''api'')"

definition server_handle_http_request ::
    "http_lib \<Rightarrow> u64 \<Rightarrow> ('s \<Rightarrow> http_server_config) \<Rightarrow>
     (http_method \<Rightarrow> ustr \<Rightarrow> ('s api_route \<times> route_params) option) \<Rightarrow>
     (ustr \<Rightarrow> ustr) \<Rightarrow> page_tree \<Rightarrow> http_request \<Rightarrow> 's \<Rightarrow> http_response option \<times> 's" where
  "server_handle_http_request lib now conf_of get_router asset tree req s =
     (if is_api_path (hr_path req)
      then (case server_handle_http_api_request lib now conf_of get_router req s of (r,
        s') \<Rightarrow> (Some r, s'))
      else (page_response asset tree (snd (normalize_path (hc_http_root (conf_of s)))) req, s))"


section \<open>The limit on log-in attempts\<close>

fun login_run :: "nat list \<Rightarrow> login_attempts \<Rightarrow> bool list" where
  "login_run [] a = []"
| "login_run (now # ts) a =
     (case login_attempts_check now a of (ok, a') \<Rightarrow> ok # login_run ts a')"

definition allowed :: "nat list \<Rightarrow> login_attempts \<Rightarrow> nat" where
  "allowed ts a = length (filter id (login_run ts a))"

lemma allowed_simps [simp]:
  "allowed [] a = 0"
  "allowed (now # ts) a =
     (case login_attempts_check now a of (ok, a') \<Rightarrow> (if ok then 1 else 0) + allowed ts a')"
  by (simp_all add: allowed_def split: prod.split)

text \<open>The counter as a number, below its sign bit.\<close>

lemma sint_of_small: "k < 2 ^ 31 \<Longrightarrow> sint (of_nat k :: i32) = int k"
  by (simp add: sint_uint unsigned_of_nat take_bit_nat_eq_self signed_take_bit_int_eq_self)

lemma check_small:
  assumes "k < 2 ^ 31 - 1"
  shows "login_attempts_check now (of_nat k, since) =
    (let since = (if k = 0 then now else since)
     in if 5 < Suc k
        then (if (now - since) div 1000000000 < 60
              then (False, of_nat (Suc k), if (now - since) div 1000000000 < 30 then now else since)
              else (True, of_nat 0, now))
        else (True, of_nat (Suc k), since))"
proof -
  have z: "(of_nat k :: i32) = 0 \<longleftrightarrow> k = 0"
    using sint_of_small [of k] assms by fastforce
  have s: "sint ((of_nat k :: i32) + 1) = int (Suc k)"
    using sint_of_small [of "Suc k"] assms by (simp add: add.commute)
  have "(of_nat k :: i32) + 1 = of_nat (Suc k)" by simp
  then show ?thesis using z s by (simp add: login_attempts_check_def Let_def)
qed

lemma same_minute:
  fixes a since now :: nat
  shows "a \<le> since \<Longrightarrow> now < a + 60000000000 \<Longrightarrow> (now - since) div 1000000000 < 60"
  by (rule less_mult_imp_div_less) simp

lemma allowed_in_window:
  assumes "\<forall>t \<in> set ts. a \<le> t \<and> t < a + 60000000000" "k = 0 \<or> a \<le> since"
    "k + length ts < 2 ^ 31"
  shows "allowed ts (of_nat k, since) \<le> 5 - k"
  using assms
proof (induction ts arbitrary: k since)
  case (Cons now ts)
  define since' where "since' = (if k = 0 then now else since)"
  have "a \<le> since'" "now < a + 60000000000" "a \<le> now" using Cons.prems by (auto simp: since'_def)
  then have m: "(now - since') div 1000000000 < 60" by (intro same_minute)
  have c: "login_attempts_check now (of_nat k, since) =
      (if 5 < Suc k then (False, of_nat (Suc k), if (now - since') div 1000000000 < 30 then now else since')
       else (True, of_nat (Suc k), since'))"
  proof -
    have "k < 2 ^ 31 - 1" using Cons.prems(3) by simp
    then have "login_attempts_check now (of_nat k, since) =
      (if 5 < Suc k
       then (if (now - since') div 1000000000 < 60
             then (False, of_nat (Suc k), if (now - since') div 1000000000 < 30 then now else since')
             else (True, of_nat 0, now))
       else (True, of_nat (Suc k), since'))"
      unfolding since'_def by (subst check_small) (simp_all only: Let_def)
    then show ?thesis using m by (simp only: if_True)
  qed
  have ih: "allowed ts (of_nat (Suc k), x) \<le> 5 - Suc k" if "a \<le> x" for x
    by (rule Cons.IH) (use Cons.prems that in auto)
  show ?case
    using c ih [OF \<open>a \<le> since'\<close>] ih [OF \<open>a \<le> now\<close>] by (auto simp del: of_nat_Suc)
qed simp


text \<open>Refused attempts are counted as well; after 2^31 of them the 32-bit counter turns negative (in a
  release build) and attempts are let through.\<close>

lemma login_counter_wraps:
  "since \<le> now \<Longrightarrow> login_attempts_check now (0x7FFFFFFF, since) = (True, 0x80000000, since)"
  by (simp add: login_attempts_check_def)

section \<open>No handler without a token\<close>

text \<open>What the gate lets through: the handler's state change and its answer reach the client only for
  a request that names a route, with a valid token where the route asks for one.\<close>

definition authorized :: "http_lib \<Rightarrow> u64 \<Rightarrow> http_server_config \<Rightarrow> http_request \<Rightarrow> bool" where
  "authorized lib now c req \<longleftrightarrow>
     (\<exists>token claims. get_token_from_header lib req = Inr (Some token) \<and>
        hl_jwt_decode lib (hc_jwt_secret c) now token = Inr claims \<and>
        jc_user claims = hc_username c \<and> jc_ip claims = [])"

lemma valid_token_authorized:
  "auth_token_is_valid lib now c req = Inr True \<longleftrightarrow> authorized lib now c req"
  by (auto simp: auth_token_is_valid_def authorized_def bind_result_def is_token_valid_def decode_token_def
      conf_jwt_def split: sum.splits option.splits)

theorem no_handler_without_token:
  assumes "\<And>route param. get_router (hr_method req) (hr_path req) = Some (route,
    param) \<Longrightarrow> ar_auth route"
    and "\<not> authorized lib now (conf_of s) req"
  shows "snd (server_handle_http_api_request lib now conf_of get_router req s) = s \<and>
    (hr_method req \<noteq> OPTIONS \<longrightarrow>
       hp_status (fst (server_handle_http_api_request lib now conf_of get_router req s)) \<in> {400,
         401, 404})"
proof -
  have e: "hp_status (gate_error json c origin code msg) = code" for json c origin code msg
    by (simp add: gate_error_def server_add_cors_header_def set_text_def set_header_def Let_def
        split: option.split)
  show ?thesis
  proof (cases "get_router (hr_method req) (hr_path req)")
    case None
    then show ?thesis by (simp add: server_handle_http_api_request_def Let_def e)
  next
    case (Some rp)
    obtain route param where r: "rp = (route, param)" by fastforce
    have "ar_auth route" using assms(1) Some r by blast
    moreover have "auth_token_is_valid lib now (conf_of s) req \<noteq> Inr True"
      using assms(2) valid_token_authorized by blast
    ultimately show ?thesis using Some r
      by (simp add: server_handle_http_api_request_def Let_def e split: sum.split bool.split)
  qed
qed

section \<open>A token opens the gate\<close>

text \<open>What the libraries promise: a token is read back under its secret until it expires, tokens and
  coded URL texts are of characters that end neither a header value nor a cookie, and URL coding is
  undone by decoding.\<close>

definition safe_text :: "ustr \<Rightarrow> bool" where
  "safe_text s \<longleftrightarrow> list_all non_ws s \<and> 59 \<notin> set s"

definition http_lib_laws :: "http_lib \<Rightarrow> bool" where
  "http_lib_laws lib \<longleftrightarrow>
     (\<forall>secret c now. now \<le> jc_exp c \<longrightarrow> hl_jwt_decode lib secret now (hl_jwt_encode lib secret c) = Inr c) \<and>
     (\<forall>secret c. safe_text (hl_jwt_encode lib secret c)) \<and>
     (\<forall>s. safe_text (hl_url_encode lib s) \<and> hl_url_decode lib (hl_url_encode lib s) = Some s)"

text \<open>How a client presents a token: in the header for it, or in the cookie the log-in has set.\<close>

definition presents :: "http_lib \<Rightarrow> http_request \<Rightarrow> ustr \<Rightarrow> bool" where
  "presents lib req token \<longleftrightarrow>
     hr_headers req (lit ''Authorization'') = Some (Header (lit ''Bearer '' @ token)) \<or>
     hr_headers req (lit ''Authorization'') = None \<and>
     hr_headers req (lit ''Cookie'') =
       Some (Header (lit ''token='' @ hl_url_encode lib (lit ''Bearer '' @ token)))"

lemma safe_trimmed: "safe_text s \<Longrightarrow> trimmed s"
  by (auto simp: safe_text_def trimmed_def list_all_iff)

lemma bearer_token: "safe_text t \<Longrightarrow> bearer (lit ''Bearer '' @ t) = Inr (Some t)"
proof -
  assume "safe_text t"
  then have "trim (32 # t) = t" by (simp add: trim_Cons_ws safe_trimmed trimmed_trim_id)
  moreover have "strip_prefix (lit ''Bearer'') (lit ''Bearer '' @ t) = Some (32 # t)"
    using strip_prefix_append [of "lit ''Bearer''" "32 # t"] by (simp add: lit_def)
  ultimately show ?thesis by (simp add: bearer_def)
qed

lemma cookie_token_one:
  assumes "safe_text v"
  shows "cookie_token lib (lit ''token='' @ v) = hl_url_decode lib v"
proof -
  have "safe_text (lit ''token='' @ v)"
    using assms by (auto simp: safe_text_def lit_def is_whitespace_def)
  then have "split_char 59 (lit ''token='' @ v) = [lit ''token='' @ v]" "trim (lit ''token='' @
    v) = lit ''token='' @ v"
    by (simp_all add: split_char_none safe_text_def safe_trimmed trimmed_trim_id)
  then show ?thesis using starts_with_append [of "lit ''token=''" v] strip_prefix_append [of "lit ''token=''" v]
    by (simp only: cookie_token_def find.simps option.case if_True)
qed

lemma presented_token:
  assumes "http_lib_laws lib" "safe_text t" "presents lib req t"
  shows "get_token_from_header lib req = Inr (Some t)"
  using assms cookie_token_one [of "hl_url_encode lib (lit ''Bearer '' @ t)" lib] bearer_token [of t]
  by (auto simp: presents_def get_token_from_header_def http_lib_laws_def)

lemma signed_token_authorizes:
  assumes "http_lib_laws lib" "later \<le> expiry"
    and "presents lib req (hl_jwt_encode lib (hc_jwt_secret c) \<lparr>jc_user = hc_username c, jc_ip = [], jc_exp = expiry\<rparr>)"
  shows "authorized lib later c req"
proof -
  have "get_token_from_header lib req =
      Inr (Some (hl_jwt_encode lib (hc_jwt_secret c) \<lparr>jc_user = hc_username c, jc_ip = [], jc_exp = expiry\<rparr>))"
    using presented_token [OF assms(1) _ assms(3)] assms(1) by (simp add: http_lib_laws_def)
  then show ?thesis using assms(1,2) by (simp add: authorized_def http_lib_laws_def)
qed

lemma issued_token_authorizes:
  assumes "http_lib_laws lib" "later \<le> now + ucast (hc_token_expired_time c)"
    and "presents lib req (ti_token (encode_token lib now (conf_jwt c)))"
  shows "authorized lib later c req"
  using signed_token_authorizes [OF assms(1,2)] assms(3) by (simp add: encode_token_def conf_jwt_def)

section \<open>Pages stay below the root\<close>

text \<open>A name that leads to a child of a directory.\<close>

definition plain :: "ustr \<Rightarrow> bool" where
  "plain c \<longleftrightarrow> c \<noteq> [] \<and> c \<noteq> [46] \<and> c \<noteq> [46,
    46] \<and> 47 \<notin> set c"

lemma components_plain: "Normal c \<in> set (components path) \<Longrightarrow> plain c"
  using split_char_pieces [of _ 47 path]
  by (auto simp: components_def plain_def split: list.splits if_splits)

lemma fold_path_plain:
  "(\<And>c. Normal c \<in> set ks \<Longrightarrow> plain c) \<Longrightarrow> list_all plain (snd p) \<Longrightarrow>
    list_all plain (snd (fold path_component ks p))"
proof (induction ks arbitrary: p)
  case (Cons k ks)
  have "list_all plain (snd (path_component k p))"
    using Cons.prems by (cases k; cases p) (auto simp: list_all_iff dest: in_set_butlastD)
  then show ?case using Cons by simp
qed simp

lemma normalize_path_plain: "list_all plain (snd (normalize_path path))"
  unfolding normalize_path_def by (rule fold_path_plain) (auto intro: components_plain)

lemma rsplit_char_pieces: "rsplit_char c s = Some (a, b) \<Longrightarrow> set a \<subseteq> set s"
proof -
  have "x \<in> set (tl xs) \<Longrightarrow> x \<in> set xs" for x and xs :: ustr by (cases xs) auto
  then show "rsplit_char c s = Some (a, b) \<Longrightarrow> set a \<subseteq> set s"
    by (auto simp: rsplit_char_def split: if_splits) (metis set_dropWhileD set_rev)
qed

lemma with_html_last:
  "\<exists>stem. with_html (cs @ [c]) = cs @ [stem @ lit ''.html''] \<and> set stem \<subseteq> set c"
  by (auto simp: with_html_def dest: rsplit_char_pieces split: option.split)

lemma plain_html: "47 \<notin> set stem \<Longrightarrow> plain (stem @ lit ''.html'')"
  by (cases stem) (auto simp: plain_def lit_def)

lemma with_html_below:
  assumes "list_all plain cs" "cs \<noteq> []"
  shows "\<exists>ds. list_all plain ds \<and> with_html (root @ cs) = root @ ds"
proof -
  obtain ds d where cs: "cs = ds @ [d]" using assms(2) by (cases cs rule: rev_cases) auto
  obtain stem where "with_html ((root @ ds) @ [d]) = (root @ ds) @ [stem @
    lit ''.html'']" "set stem \<subseteq> set d"
    using with_html_last by metis
  moreover have "47 \<notin> set d" using assms cs by (simp add: plain_def)
  ultimately show ?thesis using cs assms(1) plain_html [of stem]
    by (intro exI [of _ "ds @ [stem @ lit ''.html'']"]) auto
qed

text \<open>Below the root, or below its sibling with the extension \<open>html\<close>,
  which only an address that
  cleans to nothing and has no slash at its end reaches.\<close>

definition served :: "ustr list \<Rightarrow> ustr \<Rightarrow> ustr list \<Rightarrow> bool" where
  "served root uri file \<longleftrightarrow>
     (\<exists>cs. list_all plain cs \<and>
        (file = root @ cs \<or>
         file = with_html root @ cs \<and> snd (normalize_path uri) = [] \<and> \<not> ends_with (lit ''/'') uri))"

lemma served_root: "list_all plain cs \<Longrightarrow> served root uri (root @ cs)"
  by (auto simp: served_def)

lemma served_child: "served root uri file \<Longrightarrow> plain c \<Longrightarrow> served root uri (file @ [c])"
  unfolding served_def
  by (elim exE, rule_tac x = "cs @ [c]" in exI) (auto simp: append_assoc [symmetric] simp del: append_assoc)

lemma plain_pages [simp]: "plain (lit ''index.html'')" "plain (lit ''404.html'')"
  by (simp_all add: plain_def lit_def)

lemma served_step1:
  "served root uri (fst (page_step1 tree uri (root @ snd (normalize_path uri), path)))"
proof (cases "snd (normalize_path uri) = []")
  case True
  then show ?thesis using served_root [of "[]"]
    by (auto simp: page_step1_def served_def intro: exI [of _ "[]"])
next
  case False
  then show ?thesis using with_html_below [OF normalize_path_plain False,
    of root] normalize_path_plain [of uri]
    by (auto simp: page_step1_def intro: served_root)
qed

lemma served_step2: "served root uri (fst fp) \<Longrightarrow> served root uri (fst (page_step2 tree uri' fp))"
  by (simp add: page_step2_def served_child)

lemma served_step3: "served root uri (fst fp) \<Longrightarrow> served root uri (fst (fst (page_step3 tree root fp)))"
  by (simp add: page_step3_def served_root)

text \<open>C23: The file a page request is answered from is below the web root, dot components of the
  address included; only an address that cleans to nothing reaches the sibling of the root with
  the extension html.\<close>

theorem page_stays_in_root: "served root uri (fst (fst (page_file tree root uri)))"
  unfolding page_file_def Let_def
  by (auto intro!: served_step3 served_step2 served_step1 served_root normalize_path_plain)

section \<open>The limit, the gate and a token at concrete inputs\<close>

text \<open>A library whose laws can be checked: a text as letters,
  a character being as many \<open>A\<close> as its
  number (\<open>C\<close> below zero), closed by a \<open>B\<close>.\<close>

definition letters :: "ustr \<Rightarrow> ustr" where
  "letters s = concat (map (\<lambda>c. replicate (nat \<bar>c\<bar>) (if c < 0 then 67 else 65) @ [66]) s)"

definition letters_back :: "ustr \<Rightarrow> ustr" where
  "letters_back s =
     map (\<lambda>p. if 67 \<in> set p then - int (length p) else int (length p)) (butlast (split_char 66 s))"

lemma letters_back: "letters_back (letters s) = s"
proof (induction s)
  case Nil
  show ?case by (simp add: letters_def letters_back_def split_char_none)
next
  case (Cons c s)
  have "split_char 66 (letters (c # s)) =
      replicate (nat \<bar>c\<bar>) (if c < 0 then 67 else 65) # split_char 66 (letters s)"
    using split_char_append [of 66 "replicate (nat \<bar>c\<bar>) (if c < 0 then 67 else 65)" "letters s"]
    by (simp add: letters_def)
  then show ?case using Cons split_char_nonempty [of 66 "letters s"] by (auto simp: letters_back_def)
qed

lemma letters_safe: "safe_text (letters s)"
  by (auto simp: letters_def safe_text_def list_all_iff is_whitespace_def)

definition text_field :: "ustr \<Rightarrow> ustr" where
  "text_field s = int (length s) # s"

definition take_field :: "ustr \<Rightarrow> ustr \<times> ustr" where
  "take_field s = (take (nat (hd s)) (tl s), drop (nat (hd s)) (tl s))"

lemma take_text_field [simp]: "take_field (text_field a @ b) = (a, b)"
  by (simp add: take_field_def text_field_def)

definition letter_lib :: http_lib where
  "letter_lib =
     \<lparr>hl_json = one_text_lib Null,
      hl_jwt_encode = (\<lambda>secret c.
        letters (text_field secret @ text_field (jc_user c) @ text_field (jc_ip c) @ [uint (jc_exp c)])),
      hl_jwt_decode = (\<lambda>secret now t.
        let (k, r) = take_field (letters_back t); (u, r) = take_field r; (i, r) = take_field r
        in if k = secret \<and> now \<le> word_of_int (hd r)
           then Inr \<lparr>jc_user = u, jc_ip = i, jc_exp = word_of_int (hd r)\<rparr>
           else Inl (lit ''InvalidToken'')),
      hl_verify_password = (\<lambda>password hash. hash = text_field password),
      hl_hash_password = (\<lambda>password rounds. Inr (text_field password)),
      hl_url_encode = letters, hl_url_decode = (\<lambda>s. Some (letters_back s)),
      hl_url_scheme = (\<lambda>s. Some (takeWhile (\<lambda>c. c \<noteq> 58) s)),
      hl_form_parse = (\<lambda>body key. None), hl_lower = id\<rparr>"

lemma letter_lib_laws: "http_lib_laws letter_lib"
  by (simp add: http_lib_laws_def letter_lib_def letters_back letters_safe)

definition sample_config :: http_server_config where
  "sample_config = new_http_server_config False (text_field (lit ''password'')) (lit ''k'')"

definition request_to :: "http_method \<Rightarrow> string \<Rightarrow> (string \<times> ustr) list \<Rightarrow> http_request" where
  "request_to m path hs =
     \<lparr>hr_method = m, hr_path = lit path, hr_query = [],
      hr_headers = map_of (map (\<lambda>(k, v). (lit k, Header v)) hs), hr_body = Body [],
        hr_upgrade = False\<rparr>"


theorem no_handler_without_token_witness:
  "snd (server_handle_http_api_request letter_lib 0 (\<lambda>s. sample_config)
      (\<lambda>m p. Some (\<lparr>ar_method = m, ar_auth = True,
         ar_handler = (\<lambda>param req s. (Inr (new_response []), s + 1))\<rparr>, Map.empty))
      (request_to PUT ''/api/service/restart'' []) (0 :: nat)) = 0"
proof -
  have "\<not> authorized letter_lib 0 sample_config (request_to PUT ''/api/service/restart'' [])"
    by (simp add: authorized_def get_token_from_header_def request_to_def)
  then show ?thesis
    using no_handler_without_token
      [where lib = letter_lib and now = 0 and conf_of = "\<lambda>s. sample_config" and s = "0 :: nat" and
        req = "request_to PUT ''/api/service/restart'' []" and
        get_router = "\<lambda>m p. Some (\<lparr>ar_method = m, ar_auth = True,
           ar_handler = (\<lambda>param req s. (Inr (new_response []), s + 1))\<rparr>, Map.empty)"]
    by simp
qed

theorem issued_token_authorizes_witness:
  "authorized letter_lib 100 sample_config
     (request_to GET ''/api/auth/check''
       [(''Authorization'', lit ''Bearer '' @ ti_token (encode_token letter_lib 0 (conf_jwt sample_config)))])"
proof (rule issued_token_authorizes [OF letter_lib_laws, of _ 0])
  show "(100 :: u64) \<le> 0 + ucast (hc_token_expired_time sample_config)"
    by (simp add: sample_config_def new_http_server_config_def)
qed (simp add: presents_def request_to_def)
end
