(* ===== verification/Smartdns_Objects.thy ===== *)
theory Smartdns_Objects
  imports Smartdns_Types Server_Data
begin

text \<open>
  The objects of the C library the plugin holds (\<open>src/src/smartdns.rs\<close>): DNS requests and upstream
  servers are counted references that \<open>new\<close> and \<open>clone\<close> take and \<open>drop\<close> gives back. The model keeps
  the library's count of each object and the handles of the program; \<open>Vec\<close>s of handles drop each
  of their elements. Also here: the list of cached domains and the callbacks of the library.
\<close>

section \<open>Counted references\<close>

record 'o counted =
  ct_refs :: "'o \<Rightarrow> int"
  ct_handles :: "'o list"

definition take_ref :: "'o \<Rightarrow> 'o counted \<Rightarrow> 'o counted" where
  "take_ref x s = s\<lparr>ct_refs := (ct_refs s)(x := ct_refs s x + 1)\<rparr>"

definition give_ref :: "'o \<Rightarrow> 'o counted \<Rightarrow> 'o counted" where
  "give_ref x s = s\<lparr>ct_refs := (ct_refs s)(x := ct_refs s x - 1)\<rparr>"

text \<open>\<open>DnsRequest_C::new\<close>, \<open>DnsServerStats::new\<close> and \<open>DnsUpstreamServer::new\<close>.\<close>

definition handle_new :: "'o \<Rightarrow> 'o counted \<Rightarrow> 'o counted" where
  "handle_new x s = (take_ref x s)\<lparr>ct_handles := ct_handles s @ [x]\<rparr>"

text \<open>\<open>Clone\<close> and \<open>Drop\<close> of the handle at a position.\<close>

definition handle_clone :: "nat \<Rightarrow> 'o counted \<Rightarrow> 'o counted" where
  "handle_clone i s = (if i < length (ct_handles s) then handle_new (ct_handles s ! i) s else s)"

definition handle_drop :: "nat \<Rightarrow> 'o counted \<Rightarrow> 'o counted" where
  "handle_drop i s =
     (if i < length (ct_handles s)
      then (give_ref (ct_handles s ! i) s)
             \<lparr>ct_handles := take i (ct_handles s) @ drop (Suc i) (ct_handles s)\<rparr>
      else s)"

text \<open>\<open>get_server_list\<close>: the library fills the buffer and takes a reference for each server it puts
  in; \<open>capacity\<close> is the number of servers asked for before. A count above the capacity or below
  zero is an error.\<close>

definition get_server_list :: "i32 \<Rightarrow> 'o list \<Rightarrow> i32 \<Rightarrow> 'o counted \<Rightarrow> (ustr, unit) result \<times> 'o counted" where
  "get_server_list capacity servers ret s =
     (let s = fold take_ref servers s
      in if sint ret < 0 \<or> sint capacity < sint ret then (Inl (lit ''get server info failed.''), s)
         else (Inr (), fold (\<lambda>x s. give_ref x (handle_new x s)) servers s))"

datatype 'o handle_op =
    Op_New 'o
  | Op_Clone nat
  | Op_Drop nat
  | Op_List i32 "'o list"

text \<open>A listing as the library documents it: the count it returns is that of the servers it put in,
  at most the capacity.\<close>

fun handle_step :: "'o handle_op \<Rightarrow> 'o counted \<Rightarrow> 'o counted" where
  "handle_step (Op_New x) s = handle_new x s"
| "handle_step (Op_Clone i) s = handle_clone i s"
| "handle_step (Op_Drop i) s = handle_drop i s"
| "handle_step (Op_List capacity servers) s =
     (if int (length servers) \<le> sint capacity
      then snd (get_server_list capacity servers (of_nat (length servers)) s) else s)"

definition balanced :: "('o \<Rightarrow> int) \<Rightarrow> 'o counted \<Rightarrow> bool" where
  "balanced base s \<longleftrightarrow> (\<forall>x. ct_refs s x = base x + int (count_list (ct_handles s) x))"

lemma balanced_new: "balanced base s \<Longrightarrow> balanced base (handle_new x s)"
  by (simp add: balanced_def handle_new_def take_ref_def)

lemma balanced_drop: "balanced base s \<Longrightarrow> balanced base (handle_drop i s)"
proof (cases "i < length (ct_handles s)")
  case True
  then have "count_list (ct_handles s) y =
      count_list (take i (ct_handles s) @ drop (Suc i) (ct_handles s)) y + (if y = ct_handles s ! i then 1 else 0)" for y
    by (subst id_take_nth_drop [OF True]) simp
  then show "balanced base s \<Longrightarrow> balanced base (handle_drop i s)" using True
    by (auto simp: balanced_def handle_drop_def give_ref_def)
qed (simp add: handle_drop_def)

lemma listed_fields:
  "ct_refs (fold take_ref xs s) x = ct_refs s x + int (count_list xs x)"
  "ct_handles (fold take_ref xs s) = ct_handles s"
  "ct_refs (fold (\<lambda>x s. give_ref x (handle_new x s)) xs s) = ct_refs s"
  "ct_handles (fold (\<lambda>x s. give_ref x (handle_new x s)) xs s) = ct_handles s @ xs"
  by (induction xs arbitrary: s) (auto simp: take_ref_def give_ref_def handle_new_def)

lemma balanced_listed:
  "balanced base s \<Longrightarrow> balanced base (fold (\<lambda>x s. give_ref x (handle_new x s)) xs (fold take_ref xs s))"
  by (simp add: balanced_def listed_fields)

lemma balanced_step: "balanced base s \<Longrightarrow> balanced base (handle_step op s)"
proof (cases op)
  case (Op_List capacity servers)
  assume s: "balanced base s"
  show ?thesis
  proof (cases "int (length servers) \<le> sint capacity")
    case True
    have "sint capacity < 2 ^ 31" using sint_lt [of capacity] by simp
    then have "sint (of_nat (length servers) :: i32) = int (length servers)"
      using True by (simp add: sint_uint unsigned_of_nat take_bit_nat_eq_self signed_take_bit_int_eq_self)
    then show ?thesis using True s by (simp add: Op_List get_server_list_def Let_def balanced_listed)
  qed (simp add: Op_List s)
qed (simp_all add: balanced_new balanced_drop handle_clone_def)

interpretation handles: machine handle_step "balanced base" for base
  by unfold_locales (rule balanced_step)

text \<open>C31: Whatever handles on requests and servers are made, cloned, dropped and listed, the
  library's count of each object exceeds that of the beginning by the number of live handles on
  it.\<close>

theorem references_balanced:
  assumes "ct_handles s = []"
  shows "ct_refs (fold handle_step ops s) x = ct_refs s x + int (count_list (ct_handles (fold handle_step ops s)) x)"
proof -
  have "balanced (ct_refs s) s" using assms by (simp add: balanced_def)
  then have "balanced (ct_refs s) (fold handle_step ops s)" by (rule handles.run_ok)
  then show ?thesis by (simp add: balanced_def)
qed

section \<open>The list of upstream servers\<close>

text \<open>\<open>UpstreamServerInfo::get_all\<close>: the statistics of a server hold a reference while its entry is
  made, and the vector of servers drops its handles at the end; \<open>n\<close> handles were there before.\<close>

definition with_stats :: "'o \<Rightarrow> 'o counted \<Rightarrow> 'o counted" where
  "with_stats x s = handle_drop (length (ct_handles s)) (handle_new x s)"

definition drop_handles_from :: "nat \<Rightarrow> 'o counted \<Rightarrow> 'o counted" where
  "drop_handles_from n s = (handle_drop n ^^ (length (ct_handles s) - n)) s"

definition get_all :: "(u64 \<Rightarrow> u64 \<Rightarrow> f64) \<Rightarrow> (f64 \<Rightarrow> f64) \<Rightarrow> ('o \<Rightarrow> c_server_info) \<Rightarrow>
    i32 \<Rightarrow> 'o list \<Rightarrow> i32 \<Rightarrow> 'o counted \<Rightarrow> (ustr, upstream_server_info list) result \<times> 'o counted" where
  "get_all percent round10 info capacity servers ret s =
     (case get_server_list capacity servers ret s of
        (Inl e, s') \<Rightarrow> (Inl e, s')
      | (Inr _, s') \<Rightarrow>
          (Inr (map (\<lambda>x. upstream_info percent round10 (info x)) servers),
           drop_handles_from (length (ct_handles s)) (fold with_stats servers s')))"

lemma drop_handles:
  "n \<le> length (ct_handles s) \<Longrightarrow> m = length (ct_handles s) - n \<Longrightarrow>
    ct_handles ((handle_drop n ^^ m) s) = take n (ct_handles s) \<and>
    (balanced base s \<longrightarrow> balanced base ((handle_drop n ^^ m) s))"
proof (induction m arbitrary: s)
  case (Suc m)
  then have "n < length (ct_handles s)" by simp
  then have h: "ct_handles (handle_drop n s) = take n (ct_handles s) @ drop (Suc n) (ct_handles s)"
    by (simp add: handle_drop_def)
  have "ct_handles ((handle_drop n ^^ m) (handle_drop n s)) = take n (ct_handles (handle_drop n s)) \<and>
      (balanced base (handle_drop n s) \<longrightarrow> balanced base ((handle_drop n ^^ m) (handle_drop n s)))"
    using Suc.prems by (intro Suc.IH) (simp_all add: h)
  then show ?case using h balanced_drop by (auto simp: funpow_swap1)
qed simp

lemma with_stats_keeps: "ct_handles (with_stats x s) = ct_handles s" "balanced base s \<Longrightarrow> balanced base (with_stats x s)"
  by (simp add: with_stats_def handle_drop_def handle_new_def take_ref_def give_ref_def)
    (simp add: with_stats_def balanced_drop balanced_new)

text \<open>Listing the servers leaves no reference behind, when the library puts in as many as it says.\<close>

lemma listing_gives_references_back:
  assumes "balanced base s" "get_all percent round10 info capacity servers (of_nat (length servers)) s = (Inr infos, s')"
    and "int (length servers) \<le> sint capacity"
  shows "ct_handles s' = ct_handles s" "ct_refs s' = ct_refs s" "length infos = length servers"
proof -
  let ?r = "of_nat (length servers) :: i32"
  obtain s1 where l: "get_server_list capacity servers ?r s = (Inr (), s1)"
    and s': "s' = drop_handles_from (length (ct_handles s)) (fold with_stats servers s1)"
    and i: "infos = map (\<lambda>x. upstream_info percent round10 (info x)) servers"
    using assms(2) by (auto simp: get_all_def split: prod.splits sum.splits)
  have b1: "balanced base s1" using balanced_step [OF assms(1), of "Op_List capacity servers"] assms(3) l by simp
  have h1: "ct_handles s1 = ct_handles s @ servers"
    using l by (auto simp: get_server_list_def Let_def listed_fields split: if_splits)
  have f: "ct_handles (fold with_stats xs t) = ct_handles t \<and> (balanced base t \<longrightarrow> balanced base (fold with_stats xs t))" for xs t
    by (induction xs arbitrary: t) (simp_all add: with_stats_keeps)
  let ?n = "length (ct_handles s)" and ?t = "fold with_stats servers s1"
  have t: "ct_handles ?t = ct_handles s @ servers" "balanced base ?t" using f [of servers s1] b1 h1 by auto
  have "ct_handles s' = take ?n (ct_handles ?t) \<and> (balanced base ?t \<longrightarrow> balanced base s')"
    unfolding s' drop_handles_from_def by (rule drop_handles) (simp_all only: t length_append le_add1)
  then have d: "ct_handles s' = ct_handles s" "balanced base s'" using t by simp_all
  then show "ct_handles s' = ct_handles s" "ct_refs s' = ct_refs s" "length infos = length servers"
    using assms(1) i by (auto simp: balanced_def fun_eq_iff)
qed

section \<open>Cached domains\<close>

record cached_domain =
  cc_id :: u64
  cc_domain :: ustr
  cc_qtype :: u16
  cc_cached_time :: i64
  cc_ttl_remaining :: i32

type_synonym cache_entry = "ustr \<times> u16 \<times> i32 \<times> i64"

definition cache_foreach_cb :: "cache_entry \<Rightarrow> cached_domain list \<Rightarrow> cached_domain list" where
  "cache_foreach_cb e domains =
     (case e of (domain, qtype, ttl, insert_time) \<Rightarrow>
        domains @ [\<lparr>cc_id = 0, cc_domain = domain, cc_qtype = qtype, cc_cached_time = insert_time,
          cc_ttl_remaining = ttl\<rparr>])"

text \<open>\<open>dns_cache_foreach\<close> calls back for the entries and returns a count.\<close>

definition get_cached_domains :: "cache_entry list \<Rightarrow> i32 \<Rightarrow> cached_domain list" where
  "get_cached_domains entries ret =
     (let domains = fold cache_foreach_cb entries []
      in if sint ret < 0 then []
         else map (\<lambda>(idx, item). item\<lparr>cc_id := of_nat (idx + 1)\<rparr>) (enumerate 0 domains))"

lemma fold_cache_foreach:
  "fold cache_foreach_cb entries ds = ds @ map (\<lambda>(domain, qtype, ttl, t).
     \<lparr>cc_id = 0, cc_domain = domain, cc_qtype = qtype, cc_cached_time = t,
       cc_ttl_remaining = ttl\<rparr>) entries"
  by (induction entries arbitrary: ds) (auto simp: cache_foreach_cb_def)

lemma cached_domains_numbered:
  "0 \<le> sint ret \<Longrightarrow> i < length entries \<Longrightarrow>
    get_cached_domains entries ret ! i =
      (case entries ! i of (domain, qtype, ttl, t) \<Rightarrow>
         \<lparr>cc_id = of_nat (i + 1), cc_domain = domain, cc_qtype = qtype, cc_cached_time = t,
           cc_ttl_remaining = ttl\<rparr>)"
  by (simp add: get_cached_domains_def fold_cache_foreach Let_def nth_enumerate_eq split: prod.split)


theorem references_balanced_witness:
  "ct_refs (fold handle_step [Op_New 1, Op_Clone 0, Op_List 4 [1, 2], Op_Drop 0]
     \<lparr>ct_refs = (\<lambda>x. 1), ct_handles = []\<rparr>) (1 :: nat) = 3"
proof -
  let ?s = "\<lparr>ct_refs = (\<lambda>x. 1), ct_handles = []\<rparr> :: nat counted"
  let ?ops = "[Op_New 1, Op_Clone 0, Op_List 4 [1, 2], Op_Drop 0] :: nat handle_op list"
  have "ct_refs (fold handle_step ?ops ?s) 1 = ct_refs ?s 1 + int (count_list (ct_handles (fold handle_step ?ops ?s)) 1)"
    by (rule references_balanced) simp
  also have "\<dots> = 3" by code_simp
  finally show ?thesis .
qed
end
