(* ===== verification/Http_Api.thy ===== *)
theory Http_Api
  imports Http_Server Smartdns_Objects
begin

text \<open>
  The HTTP interface of \<open>src/src/http_server_api.rs\<close>: the table of routes and one definition per
  handler, over the server's state (\<open>api_state\<close>: settings, log-in attempts, data server with its
  database, files, log level). Everything a handler takes from outside is in \<open>api_env\<close>: clock,
  fresh secret, numbers of the C library, the derived JSON conversions, and the router's matching of
  a path against the registered patterns. A panic inside a handler, or a handler that never returns,
  leaves the request without an answer (\<open>no_answer\<close>).
\<close>

section \<open>State and surroundings\<close>

datatype stream = Log_Stream | Audit_Log_Stream | Metrics_Stream | Terminal

record api_state =
  as_conf :: http_server_config
  as_attempts :: login_attempts
  as_server :: data_server
  as_files :: file_system
  as_log_level :: log_level
  as_cache_number :: i32
  as_restarts :: nat
  as_streams :: "stream list"

record api_env =
  ae_lib :: http_lib
  ae_match :: "ustr list \<Rightarrow> ustr \<Rightarrow> (ustr \<times> route_params) option"
  ae_now :: u64
  ae_now_ms :: u64
  ae_instant :: nat
  ae_secret :: ustr
  ae_upgrade :: "(ustr, http_response) result"
  ae_db_error :: "db_error \<Rightarrow> ustr"
  ae_flush :: "i32 \<Rightarrow> i32"
  ae_cache :: "cache_entry list \<times> i32"
  ae_versions :: "ustr \<times> ustr"
  ae_upstreams :: "(ustr, upstream_server_info list) result"
  ae_metrics :: "data_server \<Rightarrow> metrics_data"
  ae_overview :: "data_server \<Rightarrow> overview_data"
  ae_local_time :: "u64 \<Rightarrow> ustr"
  ae_local_day :: "u64 \<Rightarrow> ustr"
  ae_now_seconds :: int
  ae_to_hour :: nat
  ae_whois_net :: whois_net
  ae_whois_servers :: "ustr \<Rightarrow> ustr option"
  ae_member_order :: "(ustr \<Rightarrow> ustr option) \<Rightarrow> ustr list"
  ae_save_request :: "ustr \<Rightarrow> (ustr, save_config_request) result"
  ae_assets_request :: "ustr \<Rightarrow> (ustr, managed_assets) result"
  ae_set_request :: "ustr \<Rightarrow> (ustr, save_rule_set_request) result"
  ae_overview_json :: "config_overview \<Rightarrow> json"
  ae_assets_json :: "managed_assets \<Rightarrow> json"
  ae_detail_json :: "rule_set_file_detail \<Rightarrow> json"
  ae_beginner_json :: "beginner_config \<Rightarrow> json"

abbreviation ae_json :: "api_env \<Rightarrow> json_lib" where
  "ae_json env \<equiv> hl_json (ae_lib env)"

abbreviation ae_lower :: "api_env \<Rightarrow> ustr \<Rightarrow> ustr" where
  "ae_lower env \<equiv> hl_lower (ae_lib env)"

type_synonym 'a api_act = "(api_state, http_error, 'a) act"

type_synonym handler = "api_env \<Rightarrow> api_state api_handler"

text \<open>No answer reaches the client: code 0 is no HTTP status.\<close>

definition no_answer :: http_error where
  "no_answer = \<lparr>he_code = 0, he_msg = []\<rparr>"

definition the_result :: "(http_error, 'a) result \<Rightarrow> 'a api_act" where
  "the_result r s = (r, s)"

definition or_error :: "('e \<Rightarrow> http_error) \<Rightarrow> ('e,
  'a) result \<Rightarrow> (http_error, 'a) result" where
  "or_error f r = (case r of Inl e \<Rightarrow> Inl (f e) | Inr x \<Rightarrow> Inr x)"

definition read_body :: "http_request \<Rightarrow> (http_error, ustr) result" where
  "read_body req =
     (case hr_body req of
        Body text \<Rightarrow> Inr text
      | Body_Failed e \<Rightarrow> Inl (error_of_hyper e)
      | Not_Utf8 e \<Rightarrow> Inl (error_of_utf8 e))"

definition response_build :: "nat \<Rightarrow> ustr \<Rightarrow> http_response" where
  "response_build code body =
     (set_text ''Content-Type'' ''application/json'' (new_response body))\<lparr>hp_status := code\<rparr>"

definition response_error :: "api_env \<Rightarrow> nat \<Rightarrow> ustr \<Rightarrow> http_response" where
  "response_error env code msg = response_build code (api_msg_error (ae_json env) msg)"

abbreviation refuse :: "api_env \<Rightarrow> nat \<Rightarrow> ustr \<Rightarrow> http_response api_act" where
  "refuse env code msg \<equiv> act_return (response_error env code msg)"

abbreviation answer :: "nat \<Rightarrow> ustr \<Rightarrow> http_response api_act" where
  "answer code body \<equiv> act_return (response_build code body)"

text \<open>An operation of the data server within a handler: its error is answered by \<open>failed\<close>; a panic
  ends a handler, while \<open>call_blocking\<close> reports it as an error of the task.\<close>

definition on_server :: "(data_server \<Rightarrow> 'a \<times> data_server) \<Rightarrow> 'a api_act" where
  "on_server m s = (case m (as_server s) of (x, sv) \<Rightarrow> (Inr x, s\<lparr>as_server := sv\<rparr>))"

definition direct_call ::
    "api_env \<Rightarrow> 'a db_act \<Rightarrow> (ustr \<Rightarrow> http_response api_act) \<Rightarrow> ('a \<Rightarrow> http_response api_act) \<Rightarrow>
      http_response api_act" where
  "direct_call env m failed k = act_bind (on_server (with_db m)) (\<lambda>r.
     case r of
       Inl e \<Rightarrow> if e = Db_Panic then act_fail no_answer else failed (ae_db_error env e)
     | Inr x \<Rightarrow> k x)"

definition call_blocking ::
    "api_env \<Rightarrow> 'a db_act \<Rightarrow> ('a \<Rightarrow> http_response api_act) \<Rightarrow> http_response api_act" where
  "call_blocking env m k = act_bind (on_server (with_db m)) (\<lambda>r.
     case r of Inl e \<Rightarrow> refuse env 500 (ae_db_error env e) | Inr x \<Rightarrow> k x)"

text \<open>A file operation of \<open>config_ui\<close>.\<close>

definition on_files :: "'a io \<Rightarrow> (io_error, 'a) result api_act" where
  "on_files m s = (case m (as_files s) of (r, fs) \<Rightarrow> (Inr r, s\<lparr>as_files := fs\<rparr>))"

definition file_call :: "(io_error \<Rightarrow> http_error) \<Rightarrow> 'a io \<Rightarrow> 'a api_act" where
  "file_call f m = act_bind (on_files m) (\<lambda>r. the_result (or_error f r))"

definition io_failure :: "io_error \<Rightarrow> http_error" where
  "io_failure e = error_of_io (ie_message e)"

definition plain_failure :: "io_error \<Rightarrow> http_error" where
  "plain_failure e = \<lparr>he_code = 500, he_msg = ie_message e\<rparr>"

definition set_failure :: "io_error \<Rightarrow> http_error" where
  "set_failure e =
     \<lparr>he_code = (case ie_kind e of Not_Found \<Rightarrow> 404 | Invalid_Input \<Rightarrow> 400 | _ \<Rightarrow> 500),
      he_msg = ie_message e\<rparr>"

section \<open>Parameters\<close>

text \<open>\<open>get_params\<close>: the pairs of the query as a map, the last one of a key wins.\<close>

definition get_params :: "api_env \<Rightarrow> http_request \<Rightarrow> route_params" where
  "get_params env req = hl_form_parse (ae_lib env) (hr_query req)"

definition parse_word :: "ustr \<Rightarrow> 'w::len word option" where
  "parse_word s = map_option of_nat (parse_uint (2 ^ LENGTH('w)) s)"

definition parse_usize :: "ustr \<Rightarrow> nat option" where
  "parse_usize s = parse_u64 s"

definition parse_flag :: "ustr \<Rightarrow> bool option" where
  "parse_flag s = (if s = lit ''true'' then Some True else if s = lit ''false'' then Some False else None)"

definition params_get_value :: "(ustr \<Rightarrow> 'a option) \<Rightarrow> route_params \<Rightarrow> string \<Rightarrow> 'a option" where
  "params_get_value parse params key = Option.bind (params (lit key)) parse"

definition params_get_value_default ::
    "(ustr \<Rightarrow> 'a option) \<Rightarrow> route_params \<Rightarrow> string \<Rightarrow> 'a \<Rightarrow> (http_error, 'a) result" where
  "params_get_value_default parse params key fallback =
     (case params (lit key) of
        None \<Rightarrow> Inr fallback
      | Some v \<Rightarrow>
          (case parse v of
             Some x \<Rightarrow> Inr x
           | None \<Rightarrow> Inl \<lparr>he_code = 400, he_msg = lit ''Invalid parameter: '' @
             lit key\<rparr>))"

abbreviation text_param :: "route_params \<Rightarrow> string \<Rightarrow> ustr option" where
  "text_param \<equiv> params_get_value Some"

abbreviation word_param :: "route_params \<Rightarrow> string \<Rightarrow> 'w::len word option" where
  "word_param \<equiv> params_get_value parse_word"


section \<open>Log-in and tokens\<close>

definition check_attempts :: "api_env \<Rightarrow> bool api_act" where
  "check_attempts env s =
     (case login_attempts_check (ae_instant env) (as_attempts s) of
        (ok, a) \<Rightarrow> (Inr ok, s\<lparr>as_attempts := a\<rparr>))"

definition reset_attempts :: "api_env \<Rightarrow> unit api_act" where
  "reset_attempts env =
     act_upd (\<lambda>s. s\<lparr>as_attempts := login_attempts_reset (ae_instant env) (as_attempts s)\<rparr>)"

definition too_many :: "api_env \<Rightarrow> http_response" where
  "too_many env = response_error env 403 (lit ''Too many login attempts, please try again later.'')"

definition unauthorized :: "api_env \<Rightarrow> http_response" where
  "unauthorized env = response_error env 401 (lit ''Incorrect username or password.'')"

text \<open>The token as an answer and as a cookie.\<close>

definition token_answer :: "api_env \<Rightarrow> http_server_config \<Rightarrow> token_info \<Rightarrow> http_response" where
  "token_answer env c t =
     set_header ''Set-Cookie''
       (Header (lit ''token='' @ hl_url_encode (ae_lib env) (lit ''Bearer '' @ ti_token t) @
          lit ''; HttpOnly; Max-Age='' @ ti_expire t @ lit ''; Path=/api'' @
          (if is_https_server (ae_lib env) c \<and> hc_enable_cors c
           then lit ''; SameSite=None; Secure'' else [])))
       (response_build 200 (api_msg_auth_token (ae_json env) (ti_token t) (ti_expire t)))"

definition api_auth_login :: handler where
  "api_auth_login env param req =
     act_bind (the_result (read_body req)) (\<lambda>body.
     case api_msg_parse_auth (ae_json env) body of
       Inl e \<Rightarrow> refuse env 400 e
     | Inr userinfo \<Rightarrow>
         act_bind (act_get as_conf) (\<lambda>conf.
         act_bind (check_attempts env) (\<lambda>ok.
         if \<not> ok then act_return (too_many env)
         else if au_username userinfo \<noteq> hc_username conf \<or>
                 \<not> hl_verify_password (ae_lib env) (au_password userinfo) (hc_password conf)
         then act_return (unauthorized env)
         else
           act_bind (reset_attempts env) (\<lambda>_.
           act_return (token_answer env conf
             (encode_token (ae_lib env) (ae_now env) (conf_jwt conf\<lparr>jw_user := au_username userinfo\<rparr>)))))))"

definition api_auth_refresh :: handler where
  "api_auth_refresh env param req =
     act_bind (the_result (or_error error_of_box (get_token_from_header (ae_lib env) req))) (\<lambda>token.
     case token of
       None \<Rightarrow> act_return (unauthorized env)
     | Some t \<Rightarrow>
         act_bind (act_get as_conf) (\<lambda>conf.
         case decode_token (ae_lib env) (ae_now env) (conf_jwt conf) t of
           Inl e \<Rightarrow> act_return (unauthorized env)
         | Inr claims \<Rightarrow>
             (case refresh_token (ae_lib env) (ae_now env) (conf_jwt conf) t of
                Inl e \<Rightarrow> act_return (unauthorized env)
              | Inr new \<Rightarrow> act_return (token_answer env conf new))))"

definition api_auth_logout :: handler where
  "api_auth_logout env param req =
     act_return ((set_text ''Set-Cookie'' ''token=none; HttpOnly; Max-Age=1; Path=/api''
       (new_response []))\<lparr>hp_status := 204\<rparr>)"

definition api_auth_check :: handler where
  "api_auth_check env param req = answer 200 []"

definition api_auth_change_password :: handler where
  "api_auth_change_password env param req =
     act_bind (the_result (or_error error_of_box (get_token_from_header (ae_lib env) req))) (\<lambda>token.
     act_bind (the_result (read_body req)) (\<lambda>body.
     if token = None then act_return (unauthorized env)
     else case api_msg_parse_auth_password_change (ae_json env) body of
       Inl e \<Rightarrow> refuse env 400 e
     | Inr (old, new) \<Rightarrow>
         act_bind (check_attempts env) (\<lambda>ok.
         if \<not> ok then act_return (too_many env)
         else
           act_bind (act_get as_conf) (\<lambda>conf.
           if \<not> hl_verify_password (ae_lib env) old (hc_password conf)
           then refuse env 403 (lit ''Incorrect password.'')
           else case hl_hash_password (ae_lib env) new 10000 of
             Inl e \<Rightarrow> refuse env 500 e
           | Inr hashed \<Rightarrow>
               act_bind (act_upd (\<lambda>s. s\<lparr>as_conf := (as_conf s)\<lparr>hc_password := hashed\<rparr>\<rparr>)) (\<lambda>_.
               direct_call env (set_config password_key hashed) (refuse env 500) (\<lambda>_.
               act_bind (act_upd (\<lambda>s. s\<lparr>as_conf := (as_conf s)\<lparr>hc_jwt_secret := ae_secret env\<rparr>\<rparr>)) (\<lambda>_.
               direct_call env (set_config jwt_secret_key (ae_secret env)) (refuse env 500) (\<lambda>_.
               act_bind (reset_attempts env) (\<lambda>_.
               answer 204 [])))))))))"

section \<open>Service, cache and version\<close>

definition request_restart :: "unit api_act" where
  "request_restart = act_upd (\<lambda>s. s\<lparr>as_restarts := as_restarts s + 1\<rparr>)"

definition api_service_restart :: handler where
  "api_service_restart env param req =
     act_bind request_restart (\<lambda>_. answer 204 [])"

definition api_cache_count :: handler where
  "api_cache_count env param req =
     act_bind (act_get as_cache_number) (\<lambda>n. answer 200 (api_msg_gen_cache_number (ae_json env) n))"

definition api_cache_flush :: handler where
  "api_cache_flush env param req =
     act_bind (act_upd (\<lambda>s. s\<lparr>as_cache_number := ae_flush env (as_cache_number s)\<rparr>)) (\<lambda>_.
     act_bind (act_get as_cache_number) (\<lambda>n. answer 200 (api_msg_gen_cache_number (ae_json env) n)))"

definition cached_domain_json :: "cached_domain \<Rightarrow> json" where
  "cached_domain_json d = object
     [(''id'', num_u (cc_id d)), (''domain'', Str (cc_domain d)), (''qtype'', num_u (cc_qtype d)),
      (''cached_time'', num_i (cc_cached_time d)), (''ttl_remaining'', num_i (cc_ttl_remaining d))]"

definition api_cache_domains :: handler where
  "api_cache_domains env param req =
     (let domains = get_cached_domains (fst (ae_cache env)) (snd (ae_cache env))
      in answer 200 (jl_to_string (ae_json env)
           (object [(''domains'', Arr (map cached_domain_json domains))])))"

definition api_server_version :: handler where
  "api_server_version env param req =
     answer 200 (api_msg_gen_version (ae_json env) (fst (ae_versions env)) (snd (ae_versions env)))"

section \<open>Configuration files\<close>

definition validation_json :: "validation_result \<Rightarrow> json" where
  "validation_json v = object
     [(''ok'', Bool (vr_ok v)), (''errors'', Arr (map Str (vr_errors v))),
      (''warnings'', Arr (map Str (vr_warnings v)))]"

definition backup_json :: "backup_info \<Rightarrow> json" where
  "backup_json b = object
     [(''path'', Str (bi_path b)), (''modified_unix'', num_u (of_nat (bi_modified_unix b) :: u64))]"

definition answer_json :: "api_env \<Rightarrow> json \<Rightarrow> http_response api_act" where
  "answer_json env v = answer 200 (jl_to_string (ae_json env) v)"

text \<open>The body of a request as the value a derived reader makes of it.\<close>

definition payload :: "(ustr \<Rightarrow> (ustr, 'a) result) \<Rightarrow> http_request \<Rightarrow> 'a api_act" where
  "payload parse req = act_bind (the_result (read_body req)) (\<lambda>body.
     the_result (or_error (\<lambda>e. \<lparr>he_code = 400, he_msg = e\<rparr>) (parse body)))"

definition api_plus_get_config :: handler where
  "api_plus_get_config env param req =
     act_bind (act_get as_conf) (\<lambda>conf.
     act_bind (file_call io_failure (read_overview (hc_config_file conf) (hc_rules_dir conf))) (\<lambda>overview.
     answer_json env (ae_overview_json env overview)))"

definition api_plus_managed_assets_get :: handler where
  "api_plus_managed_assets_get env param req =
     act_bind (act_get as_conf) (\<lambda>conf.
     act_bind (file_call io_failure (read_overview (hc_config_file conf) (hc_rules_dir conf))) (\<lambda>overview.
     answer_json env (ae_assets_json env (co_managed_assets overview))))"

definition api_plus_save :: handler where
  "api_plus_save env param req =
     act_bind (act_get as_conf) (\<lambda>conf.
     act_bind (payload (ae_save_request env) req) (\<lambda>save_req.
     act_bind (file_call io_failure
       (save_beginner_config (hc_config_file conf) (hc_rules_dir conf) save_req)) (\<lambda>validation.
     answer_json env (object [(''saved'', Bool (vr_ok validation)),
       (''validation'', validation_json validation)]))))"

definition api_plus_save_and_restart :: handler where
  "api_plus_save_and_restart env param req =
     act_bind (act_get as_conf) (\<lambda>conf.
     act_bind (payload (ae_save_request env) req) (\<lambda>save_req.
     act_bind (file_call io_failure
       (save_beginner_config (hc_config_file conf) (hc_rules_dir conf) save_req)) (\<lambda>validation.
     act_bind (if vr_ok validation
               then act_bind request_restart (\<lambda>_. act_return (lit ''restart_requested''))
               else act_return (lit ''validation_failed'')) (\<lambda>status.
     answer_json env (object [(''status'', Str status), (''validation'', validation_json validation)])))))"

definition api_plus_managed_assets_save :: handler where
  "api_plus_managed_assets_save env param req =
     act_bind (act_get as_conf) (\<lambda>conf.
     act_bind (payload (ae_assets_request env) req) (\<lambda>assets.
     act_bind (file_call io_failure
       (save_managed_assets (hc_config_file conf) (hc_rules_dir conf) assets)) (\<lambda>validation.
     answer_json env (object [(''saved'', Bool (vr_ok validation)),
       (''validation'', validation_json validation)]))))"

definition api_plus_apply :: handler where
  "api_plus_apply env param req =
     act_bind (act_get as_conf) (\<lambda>conf.
     act_bind (file_call io_failure (apply_working_config (hc_config_file conf) (hc_rules_dir conf))) (\<lambda>_.
     act_bind request_restart (\<lambda>_.
     answer_json env (object [(''applied'', Bool True)]))))"

definition api_plus_backups :: handler where
  "api_plus_backups env param req =
     act_bind (act_get as_conf) (\<lambda>conf.
     act_bind (file_call io_failure (list_backups (hc_config_file conf))) (\<lambda>backups.
     answer_json env (Arr (map backup_json backups))))"

definition api_plus_restore :: handler where
  "api_plus_restore env param req =
     act_bind (act_get as_conf) (\<lambda>conf.
     act_bind (payload (jl_from_str (ae_json env)) req) (\<lambda>body.
     case as_str (at_key body (lit ''path'')) of
       None \<Rightarrow> act_fail \<lparr>he_code = 400, he_msg = lit ''path not found''\<rparr>
     | Some path \<Rightarrow>
         act_bind (file_call io_failure (restore_backup (hc_config_file conf) path)) (\<lambda>_.
         answer_json env (object [(''restored'', Bool True), (''path'', Str path)]))))"

definition api_plus_templates :: handler where
  "api_plus_templates env param req =
     answer_json env (object
       [(''beginner'', ae_beginner_json env default_beginner_config),
        (''rules_text'', Str default_rules_text)])"

section \<open>Rule set files\<close>

definition set_name :: "string \<Rightarrow> route_params \<Rightarrow> (http_error, ustr) result" where
  "set_name msg param =
     (case param (lit ''name'') of
        None \<Rightarrow> Inl \<lparr>he_code = 400, he_msg = lit msg\<rparr>
      | Some name \<Rightarrow> Inr name)"

text \<open>\<open>read\<close> is the reader of rule sets or of address sets.\<close>

definition set_get ::
    "string \<Rightarrow> string \<Rightarrow> (ustr \<Rightarrow> ustr \<Rightarrow> ustr option \<Rightarrow> nat \<Rightarrow> nat \<Rightarrow> rule_set_file_detail option io) \<Rightarrow>
      handler" where
  "set_get missing not_found read env param req =
     act_bind (act_get as_conf) (\<lambda>conf.
     act_bind (the_result (set_name missing param)) (\<lambda>name.
     let params = get_params env req in
     act_bind (the_result (params_get_value_default parse_usize params ''offset'' 0)) (\<lambda>offset.
     act_bind (the_result (params_get_value_default parse_usize params ''limit'' 200)) (\<lambda>limit.
     act_bind (file_call plain_failure
       (read (hc_config_file conf) name (text_param params ''query'') offset limit)) (\<lambda>detail.
     case detail of
       None \<Rightarrow> refuse env 404 (lit not_found)
     | Some d \<Rightarrow> answer_json env (ae_detail_json env d))))))"

definition set_save ::
    "string \<Rightarrow> (ustr \<Rightarrow> ustr \<Rightarrow> save_rule_set_request \<Rightarrow> rule_set_file_detail io) \<Rightarrow> handler" where
  "set_save missing save env param req =
     act_bind (act_get as_conf) (\<lambda>conf.
     act_bind (the_result (set_name missing param)) (\<lambda>name.
     act_bind (payload (ae_set_request env) req) (\<lambda>edit.
     act_bind (file_call set_failure (save (hc_config_file conf) name edit)) (\<lambda>d.
     answer_json env (object [(''saved'', Bool True), (''detail'', ae_detail_json env d)])))))"

definition api_plus_rule_set_get :: handler where
  "api_plus_rule_set_get env =
     set_get ''missing rule set name'' ''Rule set not found.'' (read_rule_set_detail (ae_lower env)) env"

definition api_plus_rule_set_save :: handler where
  "api_plus_rule_set_save env =
     set_save ''missing rule set name'' (save_rule_set_file (ae_lower env)) env"

definition api_plus_ip_set_get :: handler where
  "api_plus_ip_set_get env =
     set_get ''missing ip set name'' ''IP set not found.'' (read_ip_set_detail (ae_lower env)) env"

definition api_plus_ip_set_save :: handler where
  "api_plus_ip_set_save env =
     set_save ''missing ip set name'' (save_ip_set_file (ae_lower env)) env"

section \<open>Queries and clients\<close>

text \<open>The cursor of a list request, and the number of pages it reports.\<close>

definition list_cursor_of :: "u64 option \<Rightarrow> u64 option \<Rightarrow> ustr \<Rightarrow> list_cursor option" where
  "list_cursor_of cursor total_count direction =
     (if cursor \<noteq> None \<or> total_count \<noteq> None
      then Some \<lparr>lc_id = cursor, lc_total_count = (case total_count of None \<Rightarrow> 0 | Some n \<Rightarrow> n),
        lc_direction = direction\<rparr>
      else None)"

definition total_page :: "u64 \<Rightarrow> u64 \<Rightarrow> u64" where
  "total_page list_count page_size =
     (let n = list_count div page_size in if list_count mod page_size \<noteq> 0 then n + 1 else n)"

definition domain_params :: "route_params \<Rightarrow> u64 \<Rightarrow> u64 \<Rightarrow> ustr \<Rightarrow> domain_list_param" where
  "domain_params params page_num page_size direction = new_domain_list_param
     \<lparr>dp_id := word_param params ''id'', dp_page_num := page_num, dp_page_size := page_size,
      dp_domain := text_param params ''domain'',
      dp_domain_filter_mode := text_param params ''domain_filter_mode'',
      dp_domain_type := word_param params ''domain_type'',
      dp_domain_group := text_param params ''domain_group'', dp_client := text_param params ''client'',
      dp_reply_code := word_param params ''reply_code'', dp_order := text_param params ''order'',
      dp_is_blocked := params_get_value parse_flag params ''is_blocked'',
      dp_timestamp_after := word_param params ''timestamp_after'',
      dp_timestamp_before := word_param params ''timestamp_before'',
      dp_cursor := list_cursor_of (word_param params ''cursor'') (word_param params ''total_count'') direction\<rparr>"

definition client_params :: "route_params \<Rightarrow> u64 \<Rightarrow> u64 \<Rightarrow> ustr \<Rightarrow> client_list_param" where
  "client_params params page_num page_size direction = new_client_list_param
     \<lparr>cp_id := word_param params ''id'', cp_page_num := page_num, cp_page_size := page_size,
      cp_client_ip := text_param params ''client_ip'', cp_hostname := text_param params ''hostname'',
      cp_mac := text_param params ''mac'', cp_order := text_param params ''order'',
      cp_timestamp_after := word_param params ''timestamp_after'',
      cp_timestamp_before := word_param params ''timestamp_before'',
      cp_cursor := list_cursor_of (word_param params ''cursor'') (word_param params ''total_count'') direction\<rparr>"

text \<open>Both lists: page number, page size and direction, the query, the message.\<close>

definition list_request ::
    "api_env \<Rightarrow> route_params \<Rightarrow> (u64 \<Rightarrow> u64 \<Rightarrow> ustr \<Rightarrow> 'r db_act) \<Rightarrow> (u64 \<Rightarrow> 'r \<Rightarrow> ustr) \<Rightarrow> http_response api_act" where
  "list_request env params list message =
     act_bind (the_result (params_get_value_default parse_word params ''page_num'' 1)) (\<lambda>page_num.
     act_bind (the_result (params_get_value_default parse_word params ''page_size'' 10)) (\<lambda>page_size.
     if page_num = 0 \<or> page_size = 0
     then refuse env 400 (lit ''Invalid parameter: page_num or page_size'')
     else case params_get_value_default Some params ''cursor_direction'' (lit ''next'') of
       Inl e \<Rightarrow> act_return (to_response (ae_json env) e)
     | Inr direction \<Rightarrow>
         call_blocking env (list page_num page_size direction) (\<lambda>res.
         answer 200 (message page_size res))))"

definition api_domain_get_list :: handler where
  "api_domain_get_list env param req =
     list_request env (get_params env req)
       (\<lambda>num size dir. get_domain_list (ae_lower env) (Some (domain_params (get_params env req) num size dir)))
       (\<lambda>size res. api_msg_gen_domain_list (ae_json env) res (total_page (qd_total_count res) size)
          (qd_total_count res))"

definition api_client_get_list :: handler where
  "api_client_get_list env param req =
     list_request env (get_params env req)
       (\<lambda>num size dir. get_client_list (Some (client_params (get_params env req) num size dir)))
       (\<lambda>size res. api_msg_gen_client_list (ae_json env) res (total_page (qc_total_count res) size)
          (qc_total_count res))"

definition api_domain_get_list_count :: handler where
  "api_domain_get_list_count env param req =
     direct_call env (get_domain_list_count (ae_lower env) None) (refuse env 500) (\<lambda>n.
     answer 200 (api_msg_gen_count (ae_json env) n))"

definition api_domain_get_by_id :: handler where
  "api_domain_get_by_id env param req =
     (case Option.bind (param (lit ''id'')) parse_word of
        None \<Rightarrow> refuse env 400 (lit ''Invalid parameter.'')
      | Some i \<Rightarrow>
          direct_call env (get_domain_list (ae_lower env) (Some (new_domain_list_param\<lparr>dp_id := Some i\<rparr>)))
            (\<lambda>e. act_fail (error_of_box e)) (\<lambda>res.
          case qd_domain_list res of
            [] \<Rightarrow> refuse env 404 (lit ''Not found'')
          | d # _ \<Rightarrow> answer 200 (api_msg_gen_domain (ae_json env) d)))"

definition delete_by_id :: "(u64 \<Rightarrow> u64 db_act) \<Rightarrow> handler" where
  "delete_by_id delete env param req =
     (case Option.bind (param (lit ''id'')) parse_word of
        None \<Rightarrow> refuse env 400 (lit ''Invalid parameter.'')
      | Some i \<Rightarrow>
          direct_call env (delete i) (refuse env 500) (\<lambda>n.
          if n = 0 then refuse env 404 (lit ''Not found'') else answer 204 []))"

definition api_client_delete_by_id :: handler where
  "api_client_delete_by_id = delete_by_id delete_client_by_id"

definition api_domain_delete_by_id :: handler where
  "api_domain_delete_by_id = delete_by_id delete_domain_by_id"

definition api_domain_delete_list :: handler where
  "api_domain_delete_list env param req =
     (case word_param (get_params env req) ''timestamp_before'' of
        None \<Rightarrow> refuse env 400 (lit ''Invalid parameter.'')
      | Some ts \<Rightarrow>
          direct_call env (delete_domain_before_timestamp ts) (refuse env 500) (\<lambda>n.
          if n = 0 then refuse env 404 (lit ''Not found'')
          else answer 200 (api_msg_gen_count (ae_json env) n)))"

section \<open>Log, settings and upstream servers\<close>

definition stream_request :: "stream \<Rightarrow> handler" where
  "stream_request kind env param req =
     (case ae_upgrade env of
        Inl e \<Rightarrow> act_fail \<lparr>he_code = 500, he_msg = e\<rparr>
      | Inr response \<Rightarrow>
          act_bind (act_upd (\<lambda>s. s\<lparr>as_streams := as_streams s @
            [kind]\<rparr>)) (\<lambda>_. act_return response))"

definition need_upgrade :: "stream \<Rightarrow> handler" where
  "need_upgrade kind env param req =
     (if hr_upgrade req then stream_request kind env param req
      else refuse env 400 (lit ''Need websocket upgrade.''))"

definition api_log_stream :: handler where "api_log_stream = need_upgrade Log_Stream"

definition api_audit_log_stream :: handler where "api_audit_log_stream = need_upgrade Audit_Log_Stream"

definition api_tool_term :: handler where
  "api_tool_term env param req =
     act_bind (act_get as_conf) (\<lambda>conf.
     if hc_enable_terminal conf \<noteq> True then refuse env 403 (lit ''Terminal is disabled.'')
     else need_upgrade Terminal env param req)"

definition api_log_set_level :: handler where
  "api_log_set_level env param req =
     act_bind (the_result (read_body req)) (\<lambda>body.
     case api_msg_parse_loglevel (ae_json env) (ae_lower env) body of
       Inl e \<Rightarrow> refuse env 400 e
     | Inr level \<Rightarrow>
         act_bind (act_upd (\<lambda>s. s\<lparr>as_log_level := level\<rparr>)) (\<lambda>_.
         direct_call env (set_config (lit ''log-level'') (log_level_text level)) (\<lambda>_. answer 204 [])
           (\<lambda>_. answer 204 [])))"

definition api_log_get_level :: handler where
  "api_log_get_level env param req =
     act_bind (act_get as_log_level) (\<lambda>l. answer 200 (api_msg_gen_loglevel (ae_json env) l))"

definition api_upstream_server_get_list :: handler where
  "api_upstream_server_get_list env param req =
     act_bind (the_result (or_error error_of_box (ae_upstreams env))) (\<lambda>servers.
     answer 200 (api_msg_gen_upstream_server_list (ae_json env) servers))"

definition shown_settings :: "http_server_config \<Rightarrow> (ustr \<Rightarrow> ustr option) \<Rightarrow> ustr \<Rightarrow> ustr option" where
  "shown_settings conf stored =
     (let settings = settings_map conf ++ stored
      in if settings password_key \<noteq> None then settings(password_key \<mapsto> lit ''********'') else settings)"

definition api_config_get_settings :: handler where
  "api_config_get_settings env param req =
     (let key = text_param param ''key''
      in direct_call env get_config_list (\<lambda>_. refuse env 404 (lit ''Not found'')) (\<lambda>stored.
         act_bind (act_get as_conf) (\<lambda>conf.
         let settings = shown_settings conf stored
         in case key of
              None \<Rightarrow> answer 200 (api_msg_gen_key_value (ae_json env) settings)
            | Some k \<Rightarrow>
                (case settings k of
                   None \<Rightarrow> refuse env 404 (lit ''Not found'')
                 | Some v \<Rightarrow> answer 200 (api_msg_gen_key_value (ae_json env) [k \<mapsto> v])))))"

text \<open>The members in the order in which the hash map yields them.\<close>

fun store_settings :: "api_env \<Rightarrow> (ustr \<Rightarrow> ustr option) \<Rightarrow> ustr list \<Rightarrow> http_response api_act" where
  "store_settings env settings [] = answer 204 []"
| "store_settings env settings (key # keys) =
     (if key = password_key then store_settings env settings keys
      else direct_call env (set_config key (the (settings key))) (refuse env 500)
        (\<lambda>_. store_settings env settings keys))"

definition api_config_set_settings :: handler where
  "api_config_set_settings env param req =
     act_bind (the_result (read_body req)) (\<lambda>body.
     case api_msg_parse_key_value (ae_json env) body of
       Inl e \<Rightarrow> refuse env 400 e
     | Inr settings \<Rightarrow> store_settings env settings (ae_member_order env settings))"

section \<open>Statistics and WHOIS\<close>

definition api_stats_get_top_client :: handler where
  "api_stats_get_top_client env param req =
     call_blocking env (get_top_client_top_list (word_param (get_params env req) ''count'')) (\<lambda>tops.
     answer 200 (api_msg_gen_top_client_list (ae_json env) tops))"

definition api_stats_get_top_domain :: handler where
  "api_stats_get_top_domain env param req =
     call_blocking env (get_top_domain_top_list (word_param (get_params env req) ''count'')) (\<lambda>tops.
     answer 200 (api_msg_gen_top_domain_list (ae_json env) tops))"

definition api_stats_get_metrics :: handler where
  "api_stats_get_metrics env param req =
     (if hr_upgrade req then stream_request Metrics_Stream env param req
      else act_bind (act_get as_server) (\<lambda>sv.
        answer 200 (api_msg_gen_metrics_data (ae_json env) (ae_metrics env sv))))"

definition api_stats_get_overview :: handler where
  "api_stats_get_overview env param req =
     act_bind (act_get as_server) (\<lambda>sv.
     answer 200 (api_msg_gen_stats_overview (ae_json env) (ae_overview env sv)))"

definition api_stats_refresh :: handler where
  "api_stats_refresh env param req =
     act_bind (on_server (\<lambda>sv. ((), sv\<lparr>sv_stat :=
       refresh (ae_now_ms env) (dc_max_log_age_ms (sv_conf sv)) (sv_stat sv)\<rparr>))) (\<lambda>_.
     answer 204 [])"

text \<open>The days are looked up among the parameters of the route, which has none.\<close>

definition api_stats_get_daily_query_count :: handler where
  "api_stats_get_daily_query_count env param req =
     (let past_days = (case word_param param ''past_days'' of None \<Rightarrow> 30 | Some n \<Rightarrow> n)
      in call_blocking env
           (get_daily_query_count (ae_local_day env) (ae_now_seconds env) (ae_to_hour env) past_days)
           (\<lambda>counts. answer 200 (api_msg_gen_daily_query_count (ae_json env) (ae_now_ms env,
             counts))))"

definition api_stats_get_hourly_query_count :: handler where
  "api_stats_get_hourly_query_count env param req =
     (let past_hours = (case word_param (get_params env req) ''past_hours'' of None \<Rightarrow> 24 | Some n \<Rightarrow> n)
      in call_blocking env
           (get_hourly_query_count (ae_local_time env) (ae_now_seconds env) (ae_to_hour env) past_hours)
           (\<lambda>counts. answer 200 (api_msg_gen_hourly_query_count (ae_json env) (ae_now_ms env,
             counts))))"

definition api_whois :: handler where
  "api_whois env param req =
     (case text_param (get_params env req) ''domain'' of
        None \<Rightarrow> refuse env 400 (lit ''Invalid parameter.'')
      | Some domain \<Rightarrow>
          (case whois_query (ae_lower env) (ae_whois_net env) (ae_whois_servers env) domain of
             None \<Rightarrow> act_fail no_answer
           | Some (Inl e) \<Rightarrow> refuse env 500 e
           | Some (Inr info) \<Rightarrow> answer 200 (api_msg_gen_whois_info (ae_json env) info)))"

section \<open>Routes\<close>

type_synonym route = "api_state api_route"

text \<open>The router maps a registered path to its handlers by method; registering a method of a path
  again replaces the handler.\<close>

type_synonym router = "(ustr \<times> (http_method \<times> route) list) list"

definition register :: "http_method \<times> string \<times> bool \<times> api_state api_handler \<Rightarrow> router \<Rightarrow> router" where
  "register entry router =
     (case entry of (m, path, auth, h) \<Rightarrow>
        (let methods = (case map_of router (lit path) of None \<Rightarrow> [] | Some ms \<Rightarrow> ms)
         in AList.update (lit path)
              (AList.update m \<lparr>ar_method = m, ar_auth = auth, ar_handler = h\<rparr> methods) router))"

definition api_table :: "api_env \<Rightarrow> (http_method \<times> string \<times> bool \<times> api_state api_handler) list" where
  "api_table env =
     [(PUT, ''/api/service/restart'', True, api_service_restart env),
      (PUT, ''/api/cache/flush'', True, api_cache_flush env),
      (GET, ''/api/cache/count'', True, api_cache_count env),
      (GET, ''/api/cache/domains'', True, api_cache_domains env),
      (POST, ''/api/auth/login'', False, api_auth_login env),
      (POST, ''/api/auth/logout'', False, api_auth_logout env),
      (GET, ''/api/auth/check'', True, api_auth_check env),
      (GET, ''/api/plus/config'', True, api_plus_get_config env),
      (POST, ''/api/plus/save'', True, api_plus_save env),
      (POST, ''/api/plus/save-and-restart'', True, api_plus_save_and_restart env),
      (GET, ''/api/plus/backups'', True, api_plus_backups env),
      (POST, ''/api/plus/restore'', True, api_plus_restore env),
      (GET, ''/api/plus/templates'', True, api_plus_templates env),
      (GET, ''/api/plus/rule-sets/{name}'', True, api_plus_rule_set_get env),
      (POST, ''/api/plus/rule-sets/{name}'', True, api_plus_rule_set_save env),
      (GET, ''/api/plus/managed/assets'', True, api_plus_managed_assets_get env),
      (POST, ''/api/plus/managed/assets'', True, api_plus_managed_assets_save env),
      (POST, ''/api/plus/apply'', True, api_plus_apply env),
      (GET, ''/api/plus/ip-sets/{name}'', True, api_plus_ip_set_get env),
      (POST, ''/api/plus/ip-sets/{name}'', True, api_plus_ip_set_save env),
      (PUT, ''/api/auth/password'', True, api_auth_change_password env),
      (POST, ''/api/auth/refresh'', True, api_auth_refresh env),
      (GET, ''/api/domain'', True, api_domain_get_list env),
      (DELETE, ''/api/domain'', True, api_domain_delete_list env),
      (GET, ''/api/domain/count'', True, api_domain_get_list_count env),
      (GET, ''/api/domain/{id}'', True, api_domain_get_by_id env),
      (DELETE, ''/api/domain/{id}'', True, api_domain_delete_by_id env),
      (GET, ''/api/client'', True, api_client_get_list env),
      (DELETE, ''/api/client/{id}'', True, api_client_delete_by_id env),
      (GET, ''/api/log/stream'', True, api_log_stream env),
      (PUT, ''/api/log/level'', True, api_log_set_level env),
      (GET, ''/api/log/level'', True, api_log_get_level env),
      (GET, ''/api/log/audit/stream'', True, api_audit_log_stream env),
      (GET, ''/api/server/version'', False, api_server_version env),
      (GET, ''/api/upstream-server'', True, api_upstream_server_get_list env),
      (GET, ''/api/config/settings'', True, api_config_get_settings env),
      (PUT, ''/api/config/settings'', True, api_config_set_settings env),
      (GET, ''/api/stats/top/client'', True, api_stats_get_top_client env),
      (GET, ''/api/stats/top/domain'', True, api_stats_get_top_domain env),
      (GET, ''/api/stats/metrics'', True, api_stats_get_metrics env),
      (GET, ''/api/stats/overview'', True, api_stats_get_overview env),
      (GET, ''/api/stats/hourly-query-count'', True, api_stats_get_hourly_query_count env),
      (GET, ''/api/stats/daily-query-count'', True, api_stats_get_daily_query_count env),
      (PUT, ''/api/stats/refresh'', True, api_stats_refresh env),
      (GET, ''/api/whois'', True, api_whois env),
      (GET, ''/api/tool/term'', True, api_tool_term env)]"

definition api_router :: "api_env \<Rightarrow> router" where
  "api_router env = fold register (api_table env) []"

text \<open>\<open>ae_match\<close> is \<open>Router::at\<close>: the pattern a path matches and the texts of its parameters.\<close>

definition find_route :: "api_env \<Rightarrow> router \<Rightarrow> http_method \<Rightarrow> ustr \<Rightarrow> (route \<times> route_params) option" where
  "find_route env router m path =
     (case ae_match env (map fst router) path of
        None \<Rightarrow> None
      | Some (pattern, param) \<Rightarrow>
          (case map_of router pattern of
             None \<Rightarrow> None
           | Some methods \<Rightarrow>
               (case map_of methods m of None \<Rightarrow> None | Some route \<Rightarrow> Some (route,
                 param))))"

definition get_router :: "api_env \<Rightarrow> http_method \<Rightarrow> ustr \<Rightarrow> (route \<times> route_params) option" where
  "get_router env = find_route env (api_router env)"

text \<open>A request to the server.\<close>

definition serve ::
    "api_env \<Rightarrow> (ustr \<Rightarrow> ustr) \<Rightarrow> page_tree \<Rightarrow> http_request \<Rightarrow> api_state \<Rightarrow> http_response option \<times> api_state" where
  "serve env asset tree =
     server_handle_http_request (ae_lib env) (ae_now env) as_conf (get_router env) asset tree"

section \<open>What the routes lead to\<close>

definition routes_of :: "router \<Rightarrow> ustr \<Rightarrow> http_method \<Rightarrow> route option" where
  "routes_of router path m = Option.bind (map_of router path) (\<lambda>ms. map_of ms m)"

lemma routes_of_register:
  "routes_of (register (m, path, auth, h) router) p m' =
     (if p = lit path \<and> m' = m then Some \<lparr>ar_method = m, ar_auth = auth, ar_handler = h\<rparr>
      else routes_of router p m')"
  by (simp add: routes_of_def register_def Let_def update_conv' split: option.split)

lemma routes_of_registered:
  "routes_of (fold register es router) p m = Some r \<Longrightarrow>
     routes_of router p m = Some r \<or>
     (\<exists>path auth h. (m, path, auth, h) \<in> set es \<and> r = \<lparr>ar_method = m,
       ar_auth = auth, ar_handler = h\<rparr>)"
proof (induction es arbitrary: router)
  case (Cons e es)
  obtain m' path' auth' h' where e: "e = (m', path', auth', h')" by (cases e)
  show ?case using Cons.IH [of "register e router"] Cons.prems
    by (auto simp: e routes_of_register split: if_splits)
qed simp

lemma get_router_in_table:
  assumes "get_router env m path = Some (r, param)"
  shows "\<exists>p auth h. (m, p, auth, h) \<in> set (api_table env) \<and> r = \<lparr>ar_method = m,
    ar_auth = auth, ar_handler = h\<rparr>"
proof -
  obtain pattern methods where "map_of (api_router env) pattern = Some methods" "map_of methods m = Some r"
    using assms by (auto simp: get_router_def find_route_def split: option.splits)
  then have "routes_of (api_router env) pattern m = Some r" by (simp add: routes_of_def)
  then show ?thesis
    using routes_of_registered [of "api_table env" "[]"] by (auto simp: api_router_def routes_of_def)
qed

lemma get_router_method: "get_router env m path = Some (r, param) \<Longrightarrow> ar_method r = m"
  using get_router_in_table by fastforce

lemma public_routes:
  assumes "get_router env m path = Some (r, param)" "\<not> ar_auth r"
  shows "ar_handler r \<in> {api_auth_login env, api_auth_logout env, api_server_version env}"
proof -
  obtain p auth h where "(m, p, auth, h) \<in> set (api_table env)"
    "r = \<lparr>ar_method = m, ar_auth = auth, ar_handler = h\<rparr>" using get_router_in_table [OF assms(1)] by blast
  then show ?thesis using assms(2) by (auto simp: api_table_def)
qed

section \<open>Without a token only the attempts are counted\<close>

definition attempts_only :: "'a api_act \<Rightarrow> bool" where
  "attempts_only f \<longleftrightarrow> (\<forall>s. (snd (f s))\<lparr>as_attempts := as_attempts s\<rparr> = s)"

named_theorems attempts_only_intros

lemma attempts_only_basic [attempts_only_intros]:
  "attempts_only (act_return x)" "attempts_only (act_fail e)" "attempts_only (act_get f)"
  "attempts_only (the_result r)" "attempts_only (check_attempts env)" "attempts_only (reset_attempts env)"
  by (simp_all add: attempts_only_def act_defs the_result_def check_attempts_def reset_attempts_def
      split: prod.split)

lemma attempts_only_bind [attempts_only_intros]:
  assumes "attempts_only m" "\<And>x. attempts_only (f x)"
  shows "attempts_only (act_bind m f)"
  unfolding attempts_only_def
proof
  fix s
  obtain r s1 where m: "m s = (r, s1)" by fastforce
  then have s1: "s1\<lparr>as_attempts := as_attempts s\<rparr> = s" using assms(1) by (metis attempts_only_def snd_conv)
  show "(snd (act_bind m f s))\<lparr>as_attempts := as_attempts s\<rparr> = s"
  proof (cases r)
    case (Inr x)
    have "((snd (f x s1))\<lparr>as_attempts := as_attempts s1\<rparr>)\<lparr>as_attempts := as_attempts s\<rparr> = s"
      using assms(2) s1 by (simp only: attempts_only_def)
    then show ?thesis using m Inr by (simp add: act_bind_def)
  qed (use m s1 in \<open>simp add: act_bind_def\<close>)
qed

lemma attempts_only_cases [attempts_only_intros]:
  "(b \<Longrightarrow> attempts_only f) \<Longrightarrow> (\<not> b \<Longrightarrow> attempts_only g) \<Longrightarrow> attempts_only (if b then f else g)"
  "(\<And>e. attempts_only (f' e)) \<Longrightarrow> (\<And>x. attempts_only (g' x)) \<Longrightarrow>
     attempts_only (case r of Inl e \<Rightarrow> f' e | Inr x \<Rightarrow> g' x)"
  by (simp_all split: sum.split)

lemma public_attempts_only:
  "attempts_only (api_auth_login env param req)" "attempts_only (api_auth_logout env param req)"
  "attempts_only (api_server_version env param req)"
  unfolding api_auth_login_def api_auth_logout_def api_server_version_def
  by (intro attempts_only_intros)+

lemma handled_state:
  "snd (server_handle_http_api_request lib now conf_of look req s) =
     (case look (hr_method req) (hr_path req) of
        None \<Rightarrow> s
      | Some (route, param) \<Rightarrow>
          if hr_method req \<noteq> OPTIONS \<and> ar_method route = hr_method req \<and>
             (ar_auth route \<longrightarrow> authorized lib now (conf_of s) req)
          then snd (ar_handler route param req s) else s)"
  by (auto simp: server_handle_http_api_request_def Let_def valid_token_authorized [symmetric]
      split: option.split sum.split prod.split bool.split)

text \<open>C2: A request to the server, to any path and with any method and body, that carries no valid
  token leaves everything but the count of log-in attempts as it was: settings, password,
  secret, database, files, log level, restarts and streams.\<close>

theorem unauthorized_changes_nothing_else:
  assumes "\<not> authorized (ae_lib env) (ae_now env) (as_conf s) req"
  shows "(snd (serve env asset tree req s))\<lparr>as_attempts := as_attempts s\<rparr> = s"
proof -
  have "(snd (ar_handler r param req s))\<lparr>as_attempts := as_attempts s\<rparr> = s"
    if "get_router env (hr_method req) (hr_path req) = Some (r, param)" "\<not> ar_auth r" for r param
    using public_routes [OF that] public_attempts_only by (auto simp: attempts_only_def)
  then show ?thesis using assms
    by (auto simp: serve_def server_handle_http_request_def handled_state case_prod_beta split: option.split)
qed

section \<open>A routed request\<close>

lemma routes_of_other:
  "(\<And>path auth h. (m, path, auth, h) \<in> set es \<Longrightarrow> lit path \<noteq> p) \<Longrightarrow>
    routes_of (fold register es router) p m = routes_of router p m"
proof (induction es arbitrary: router)
  case (Cons e es)
  obtain m' path' auth' h' where e: "e = (m', path', auth', h')" by (cases e)
  have "routes_of (fold register es (register e router)) p m = routes_of (register e router) p m"
    by (rule Cons.IH) (use Cons.prems in auto)
  then show ?case using Cons.prems [of path' auth' h'] by (auto simp: e routes_of_register)
qed simp

lemma routes_of_entry:
  assumes "distinct (map (\<lambda>(m, path, auth, h). (m, lit path)) es)" "(m, path, auth, h) \<in> set es"
  shows "routes_of (fold register es router) (lit path) m =
    Some \<lparr>ar_method = m, ar_auth = auth, ar_handler = h\<rparr>"
proof -
  obtain xs ys where es: "es = xs @ (m, path, auth, h) # ys" using assms(2) by (meson split_list)
  have "routes_of (fold register ys (register (m, path, auth, h) (fold register xs router))) (lit path) m =
      routes_of (register (m, path, auth, h) (fold register xs router)) (lit path) m"
    by (rule routes_of_other) (use assms(1) es in force)
  then show ?thesis by (simp add: es routes_of_register)
qed

lemma table_distinct: "distinct (map (\<lambda>(m, path, auth, h). (m, lit path)) (api_table env))"
  by (simp add: api_table_def lit_def)

text \<open>The request is for the given route.\<close>

definition asks :: "api_env \<Rightarrow> http_method \<Rightarrow> string \<Rightarrow> route_params \<Rightarrow> http_request \<Rightarrow> bool" where
  "asks env m path param req \<longleftrightarrow>
     is_api_path (hr_path req) \<and> hr_method req = m \<and>
     ae_match env (map fst (api_router env)) (hr_path req) = Some (lit path, param)"

lemma get_router_asked:
  assumes "asks env m path param req" "(m, path, auth, h) \<in> set (api_table env)"
  shows "get_router env (hr_method req) (hr_path req) =
    Some (\<lparr>ar_method = m, ar_auth = auth, ar_handler = h\<rparr>, param)"
  using assms routes_of_entry [OF table_distinct assms(2), of "[]"]
  by (auto simp: asks_def get_router_def find_route_def routes_of_def api_router_def
      split: option.splits bind_splits)

definition finished ::
    "json_lib \<Rightarrow> http_server_config \<Rightarrow> http_request \<Rightarrow> (http_error,
      http_response) result \<Rightarrow> http_response" where
  "finished json c req r =
     (case r of
        Inl e \<Rightarrow> to_response json e
      | Inr resp \<Rightarrow>
          server_add_cors_header c (hr_headers req (lit ''Origin''))
            (default_header ''Cache-Control'' ''no-cache''
              (default_header ''Content-Type'' ''application/json'' resp)))"

lemma serve_asked:
  assumes "asks env m path param req" "(m, path, auth, h) \<in> set (api_table env)" "m \<noteq> OPTIONS"
    and "auth \<Longrightarrow> authorized (ae_lib env) (ae_now env) (as_conf s) req"
    and "h param req s = (r, s')"
  shows "serve env asset tree req s = (Some (finished (ae_json env) (as_conf s') req r), s')"
proof -
  have "(if auth then auth_token_is_valid (ae_lib env) (ae_now env) (as_conf s) req else Inr True) = Inr True"
    using assms(4) by (simp add: valid_token_authorized)
  then show ?thesis
    using assms(1,3,5) get_router_asked [OF assms(1,2)]
    by (simp add: serve_def server_handle_http_request_def server_handle_http_api_request_def Let_def
        finished_def asks_def split: sum.split)
qed

lemma header_set_header [simp]:
  "header n (set_header n' v r) = (if n = n' then Some v else header n r)"
  "hp_status (set_header n' v r) = hp_status r" "hp_body (set_header n' v r) = hp_body r"
  by (auto simp: header_def set_header_def update_conv')

lemma header_status [simp]: "header n (r\<lparr>hp_status := c\<rparr>) = header n r"
  by (simp add: header_def)

lemma finished_ok [simp]:
  "hp_status (finished json c req (Inr resp)) = hp_status resp"
  "hp_body (finished json c req (Inr resp)) = hp_body resp"
  "header ''Set-Cookie'' (finished json c req (Inr resp)) = header ''Set-Cookie'' resp"
  by (auto simp: finished_def server_add_cors_header_def default_header_def set_text_def Let_def split: option.split)

lemma header_new_response [simp]: "header n (new_response b) = None"
  by (simp add: header_def new_response_def)

lemma response_build_simps [simp]:
  "hp_status (response_build c b) = c" "hp_body (response_build c b) = b"
  "header ''Set-Cookie'' (response_build c b) = None"
  by (simp_all add: response_build_def set_text_def) (simp add: new_response_def)

section \<open>Log-in and password\<close>

lemma read_body_text [simp]: "hr_body req = Body text \<Longrightarrow> read_body req = Inr text"
  by (simp add: read_body_def)

lemma the_result_Inr [simp]: "the_result (Inr x) = act_return x"
  by (simp add: fun_eq_iff the_result_def act_return_def)

lemma conf_jwt_user [simp]: "conf_jwt c\<lparr>jw_user := hc_username c\<rparr> = conf_jwt c"
  by (simp add: conf_jwt_def)

definition log_in_ok :: "api_env \<Rightarrow> api_state \<Rightarrow> http_request \<Rightarrow> bool" where
  "log_in_ok env s req \<longleftrightarrow>
     (\<exists>text password. hr_body req = Body text \<and>
        api_msg_parse_auth (ae_json env) text =
          Inr \<lparr>au_username = hc_username (as_conf s), au_password = password\<rparr> \<and>
        hl_verify_password (ae_lib env) password (hc_password (as_conf s))) \<and>
     fst (login_attempts_check (ae_instant env) (as_attempts s))"

lemma login_result:
  assumes "log_in_ok env s req"
  shows "api_auth_login env param req s =
    (Inr (token_answer env (as_conf s) (encode_token (ae_lib env) (ae_now env) (conf_jwt (as_conf s)))),
     s\<lparr>as_attempts := (0, ae_instant env)\<rparr>)"
  using assms
  by (auto simp: api_auth_login_def log_in_ok_def act_bind_def act_get_def check_attempts_def act_upd_def
      reset_attempts_def login_attempts_reset_def act_return_def split: prod.splits)

text \<open>C7: A log-in with the right name and password within the limit is answered with status 200 and
  a cookie whose token opens every protected route, by cookie or by header, until it expires;
  the count of attempts starts again.\<close>

theorem login_opens_gate:
  assumes "http_lib_laws (ae_lib env)" "asks env POST ''/api/auth/login'' param req" "log_in_ok env s req"
  shows "\<exists>token resp rest. serve env asset tree req s = (Some resp, s\<lparr>as_attempts := (0,
    ae_instant env)\<rparr>) \<and>
    hp_status resp = 200 \<and>
    header ''Set-Cookie'' resp =
      Some (Header (lit ''token='' @ hl_url_encode (ae_lib env) (lit ''Bearer '' @ token) @
        lit ''; HttpOnly; Max-Age='' @ rest)) \<and>
    (\<forall>req' later. presents (ae_lib env) req' token \<and>
       later \<le> ae_now env + ucast (hc_token_expired_time (as_conf s)) \<longrightarrow>
       authorized (ae_lib env) later (as_conf s) req')"
proof -
  let ?t = "encode_token (ae_lib env) (ae_now env) (conf_jwt (as_conf s))"
  have "serve env asset tree req s =
    (Some (finished (ae_json env) (as_conf s) req (Inr (token_answer env (as_conf s) ?t))),
     s\<lparr>as_attempts := (0, ae_instant env)\<rparr>)"
    using serve_asked [OF assms(2), of False "api_auth_login env", OF _ _ _ login_result [OF assms(3)]]
    by (simp add: api_table_def)
  moreover have "\<forall>req' later. presents (ae_lib env) req' (ti_token ?t) \<and>
       later \<le> ae_now env + ucast (hc_token_expired_time (as_conf s)) \<longrightarrow>
       authorized (ae_lib env) later (as_conf s) req'"
    using issued_token_authorizes [OF assms(1)] by blast
  ultimately show ?thesis
    by (intro exI [of _ "ti_token ?t"]) (auto simp: token_answer_def)
qed

text \<open>What the database's settings make of the configuration at the next start.\<close>

lemma loaded_secrets:
  assumes "in_db password_key = Some p" "in_db jwt_secret_key = Some k"
  shows "hc_password (load_http_config in_db in_file hash secret c) = p"
    "hc_jwt_secret (load_http_config in_db in_file hash secret c) = k"
  using assms by (simp_all add: load_http_config_def Let_def split: option.split)

lemma keys_differ [simp]: "password_key \<noteq> jwt_secret_key" "jwt_secret_key \<noteq> password_key"
  by (simp_all add: password_key_def jwt_secret_key_def)

text \<open>A token that another secret has signed is not read.\<close>

definition jwt_keyed :: "http_lib \<Rightarrow> bool" where
  "jwt_keyed lib \<longleftrightarrow> (\<forall>k k' now c. k \<noteq> k' \<longrightarrow> (\<exists>e. hl_jwt_decode lib k' now (hl_jwt_encode lib k c) = Inl e))"

lemma other_secret_refused:
  assumes "http_lib_laws lib" "jwt_keyed lib" "k \<noteq> hc_jwt_secret c" "presents lib req (hl_jwt_encode lib k claims)"
  shows "\<not> authorized lib now c req"
proof -
  have "get_token_from_header lib req = Inr (Some (hl_jwt_encode lib k claims))"
    using presented_token [OF assms(1) _ assms(4)] assms(1) by (simp add: http_lib_laws_def)
  moreover obtain e where "hl_jwt_decode lib (hc_jwt_secret c) now (hl_jwt_encode lib k claims) = Inl e"
    using assms(2,3) unfolding jwt_keyed_def by blast
  ultimately show ?thesis by (auto simp: authorized_def)
qed

lemma authorized_token: "authorized lib now c req \<Longrightarrow> \<exists>t. get_token_from_header lib req = Inr (Some t)"
  by (auto simp: authorized_def)

lemma direct_call_healthy:
  assumes "m (server_db (as_server s)) = (Inr x, d)"
  shows "direct_call env m failed k s = k x (s\<lparr>as_server := (as_server s)\<lparr>sv_stat := (sv_stat (as_server s))\<lparr>ds_db := d\<rparr>\<rparr>\<rparr>)"
  using assms by (simp add: direct_call_def on_server_def with_db_def act_bind_def)

lemma direct_call_failed:
  assumes "m (server_db (as_server s)) = (Inl e, d)" "e \<noteq> Db_Panic"
  shows "direct_call env m failed k s =
    failed (ae_db_error env e) (s\<lparr>as_server := (as_server s)\<lparr>sv_stat := (sv_stat (as_server s))\<lparr>ds_db := d\<rparr>\<rparr>\<rparr>)"
  using assms by (simp add: direct_call_def on_server_def with_db_def act_bind_def)

text \<open>A request for a change of the password that passes every check before the first write.\<close>

definition change_ok :: "api_env \<Rightarrow> api_state \<Rightarrow> http_request \<Rightarrow> ustr \<Rightarrow> bool" where
  "change_ok env s req hashed \<longleftrightarrow>
     (\<exists>text old new. hr_body req = Body text \<and>
        api_msg_parse_auth_password_change (ae_json env) text = Inr (old, new) \<and>
        hl_verify_password (ae_lib env) old (hc_password (as_conf s)) \<and>
        hl_hash_password (ae_lib env) new 10000 = Inr hashed) \<and>
     fst (login_attempts_check (ae_instant env) (as_attempts s)) \<and>
     authorized (ae_lib env) (ae_now env) (as_conf s) req"

abbreviation api_db :: "api_state \<Rightarrow> db" where
  "api_db s \<equiv> server_db (as_server s)"

lemma get_conf: "act_get as_conf s = (Inr (as_conf s), s)"
  by (simp add: act_get_def)

lemma upd_state: "act_upd f s = (Inr (), f s)"
  by (simp add: act_upd_def)

lemma attempts_checked:
  "login_attempts_check (ae_instant env) (as_attempts s) = (ok, a) \<Longrightarrow>
    check_attempts env s = (Inr ok, s\<lparr>as_attempts := a\<rparr>)"
  by (simp add: check_attempts_def)

lemma change_password_steps:
  assumes "change_ok env s req hashed"
  shows "\<exists>a. api_auth_change_password env param req s =
    direct_call env (set_config password_key hashed) (refuse env 500) (\<lambda>_.
      act_bind (act_upd (\<lambda>s. s\<lparr>as_conf := (as_conf s)\<lparr>hc_jwt_secret := ae_secret env\<rparr>\<rparr>)) (\<lambda>_.
      direct_call env (set_config jwt_secret_key (ae_secret env)) (refuse env 500) (\<lambda>_.
      act_bind (reset_attempts env) (\<lambda>_. answer 204 []))))
    (s\<lparr>as_attempts := a, as_conf := (as_conf s)\<lparr>hc_password := hashed\<rparr>\<rparr>)"
proof -
  have "authorized (ae_lib env) (ae_now env) (as_conf s) req"
    "fst (login_attempts_check (ae_instant env) (as_attempts s))"
    using assms by (simp_all add: change_ok_def)
  then obtain t a where "get_token_from_header (ae_lib env) req = Inr (Some t)"
    "login_attempts_check (ae_instant env) (as_attempts s) = (True, a)"
    by (cases "login_attempts_check (ae_instant env) (as_attempts s)") (auto dest: authorized_token)
  moreover obtain msg old new where "hr_body req = Body msg"
    "api_msg_parse_auth_password_change (ae_json env) msg = Inr (old, new)"
    "hl_verify_password (ae_lib env) old (hc_password (as_conf s))"
    "hl_hash_password (ae_lib env) new 10000 = Inr hashed"
    using assms by (auto simp: change_ok_def)
  ultimately show ?thesis
    by (intro exI [of _ a])
       (simp add: api_auth_change_password_def or_error_def act_bind_ok [OF get_conf] act_bind_ok [OF upd_state]
          act_bind_ok [OF attempts_checked])
qed

text \<open>C9: After a successful change of the password no token signed before is accepted, and the next
  start of the server loads the new password and the new secret from the database.\<close>

theorem password_change_revokes:
  assumes "http_lib_laws (ae_lib env)" "jwt_keyed (ae_lib env)"
    and "asks env PUT ''/api/auth/password'' param req" "change_ok env s req hashed"
    and "db_healthy (api_db s)" "ae_secret env \<noteq> hc_jwt_secret (as_conf s)"
  shows "\<exists>resp s'. serve env asset tree req s = (Some resp, s') \<and> hp_status resp = 204 \<and>
    as_conf s' = (as_conf s)\<lparr>hc_password := hashed, hc_jwt_secret := ae_secret env\<rparr> \<and>
    (\<forall>in_file hash k c. let c' = load_http_config (tb_config (db_tables (api_db s'))) in_file hash k c
       in hc_password c' = hashed \<and> hc_jwt_secret c' = ae_secret env) \<and>
    (\<forall>now claims req'. presents (ae_lib env) req' (hl_jwt_encode (ae_lib env) (hc_jwt_secret (as_conf s)) claims) \<longrightarrow>
       \<not> authorized (ae_lib env) now (as_conf s') req')"
proof -
  obtain d1 where d1: "set_config password_key hashed (api_db s) = (Inr (), d1)" "db_healthy d1"
    "tb_config (db_tables d1) = (tb_config (db_tables (api_db s)))(password_key \<mapsto> hashed)"
    using config_kv.put_ok [OF assms(5)] by blast
  obtain d2 where d2: "set_config jwt_secret_key (ae_secret env) d1 = (Inr (), d2)" "db_healthy d2"
    "tb_config (db_tables d2) = (tb_config (db_tables d1))(jwt_secret_key \<mapsto> ae_secret env)"
    using config_kv.put_ok [OF d1(2)] by blast
  let ?c = "(as_conf s)\<lparr>hc_password := hashed, hc_jwt_secret := ae_secret env\<rparr>"
  have "\<exists>s'. api_auth_change_password env param req s = (Inr (response_build 204 []), s') \<and>
      as_conf s' = ?c \<and> api_db s' = d2"
    using change_password_steps [OF assms(4), of param] d1(1) d2(1)
    by (auto simp: direct_call_healthy act_bind_def act_upd_def reset_attempts_def act_return_def)
  then obtain s' where s': "api_auth_change_password env param req s = (Inr (response_build 204 []), s')"
    "as_conf s' = ?c" "api_db s' = d2" by blast
  have "serve env asset tree req s = (Some (finished (ae_json env) ?c req (Inr (response_build 204 []))), s')"
    using serve_asked [OF assms(3), of True "api_auth_change_password env", OF _ _ _ s'(1)] assms(4) s'(2)
    by (simp add: api_table_def change_ok_def)
  moreover have "\<not> authorized (ae_lib env) now ?c req'"
    if "presents (ae_lib env) req' (hl_jwt_encode (ae_lib env) (hc_jwt_secret (as_conf s)) claims)" for now claims req'
    using other_secret_refused [OF assms(1,2) _ that, of ?c] assms(6) by simp
  ultimately show ?thesis using s'(2,3) d2(3) d1(3) by (auto simp: loaded_secrets Let_def)
qed

text \<open>When the write of the new password fails, the answer is an error, but the server goes on with the
  new password until it is started again; the tokens stay valid.\<close>

text \<open>C37: When the database refuses the new password the change is answered with an error, but the
  running server has the new password while the database keeps the old one.\<close>

theorem failed_password_change_half_done:
  assumes "asks env PUT ''/api/auth/password'' param req" "change_ok env s req hashed"
    and "set_config password_key hashed (api_db s) = (Inl e, d)" "e \<noteq> Db_Panic"
  shows "\<exists>resp s'. serve env asset tree req s = (Some resp, s') \<and> hp_status resp = 500 \<and>
    as_conf s' = (as_conf s)\<lparr>hc_password := hashed\<rparr> \<and>
    tb_config (db_tables (api_db s')) = tb_config (db_tables (api_db s))"
proof -
  obtain a where "api_auth_change_password env param req s = (Inr (response_error env 500 (ae_db_error env e)),
      s\<lparr>as_attempts := a, as_conf := (as_conf s)\<lparr>hc_password := hashed\<rparr>,
        as_server := (as_server s)\<lparr>sv_stat := (sv_stat (as_server s))\<lparr>ds_db := d\<rparr>\<rparr>\<rparr>)"
    using change_password_steps [OF assms(2), of param] assms(3,4)
    by (auto simp: direct_call_failed act_return_def)
  from serve_asked [OF assms(1), of True "api_auth_change_password env", OF _ _ _ this]
  show ?thesis using config_kv.put_error [OF assms(3)] assms(2)
    by (simp add: api_table_def change_ok_def response_error_def)
qed

section \<open>Settings\<close>

lemma shown_settings_at:
  "k \<noteq> password_key \<Longrightarrow> shown_settings conf stored k =
     (case stored k of Some v \<Rightarrow> Some v | None \<Rightarrow> settings_map conf k)"
  "shown_settings conf stored password_key \<in> {None, Some (lit ''********'')}"
  by (auto simp: shown_settings_def Let_def map_add_def split: option.split)

lemma store_settings_result:
  "db_healthy (api_db s) \<Longrightarrow> set keys \<subseteq> dom m \<Longrightarrow>
    \<exists>s'. store_settings env m keys s = (Inr (response_build 204 []),
      s') \<and> db_healthy (api_db s') \<and>
      tb_config (db_tables (api_db s')) = tb_config (db_tables (api_db s)) ++ (m |` (set keys - {password_key})) \<and>
      as_conf s' = as_conf s"
proof (induction keys arbitrary: s)
  case Nil
  then show ?case by (simp add: act_return_def)
next
  case (Cons k ks)
  show ?case
  proof (cases "k = password_key")
    case True
    then show ?thesis using Cons by simp
  next
    case False
    obtain v where v: "m k = Some v" using Cons.prems(2) by auto
    obtain d where d: "set_config k v (api_db s) = (Inr (), d)" "db_healthy d"
      "tb_config (db_tables d) = (tb_config (db_tables (api_db s)))(k \<mapsto> v)"
      using config_kv.put_ok [OF Cons.prems(1)] by blast
    let ?s = "s\<lparr>as_server := (as_server s)\<lparr>sv_stat := (sv_stat (as_server s))\<lparr>ds_db := d\<rparr>\<rparr>\<rparr>"
    have tb: "tb_config (db_tables d) ++ (m |` (set ks - {password_key})) =
        tb_config (db_tables (api_db s)) ++ (m |` (set (k # ks) - {password_key}))"
      using v False d(3) by (auto simp: fun_eq_iff map_add_def restrict_map_def split: option.split)
    have "\<exists>s'. store_settings env m ks ?s = (Inr (response_build 204 []),
      s') \<and> db_healthy (api_db s') \<and>
        tb_config (db_tables (api_db s')) = tb_config (db_tables (api_db ?s)) ++ (m |` (set ks - {password_key})) \<and>
        as_conf s' = as_conf ?s"
      by (rule Cons.IH) (use Cons.prems(2) d(2) in simp_all)
    then obtain s' where s': "store_settings env m ks ?s = (Inr (response_build 204 []), s')"
      "db_healthy (api_db s')" "as_conf s' = as_conf s"
      "tb_config (db_tables (api_db s')) = tb_config (db_tables d) ++ (m |` (set ks - {password_key}))" by auto
    have "store_settings env m (k # ks) s = (Inr (response_build 204 []), s')"
      using s'(1) d(1) v False by (simp add: direct_call_healthy)
    then show ?thesis using s'(2,3,4) tb by (intro exI [of _ s'] conjI) (simp_all only:)
  qed
qed

lemma set_settings_result:
  assumes "hr_body req = Body text" "api_msg_parse_key_value (ae_json env) text = Inr m"
    and "set (ae_member_order env m) = dom m" "db_healthy (api_db s)"
  shows "\<exists>s'. api_config_set_settings env param req s = (Inr (response_build 204 []), s') \<and>
    db_healthy (api_db s') \<and>
    tb_config (db_tables (api_db s')) = tb_config (db_tables (api_db s)) ++ (m |` (- {password_key})) \<and>
    as_conf s' = as_conf s"
proof -
  have "m |` (dom m - {password_key}) = m |` (- {password_key})"
    by (auto simp: restrict_map_def fun_eq_iff)
  then show ?thesis
    using store_settings_result [OF assms(4), of "ae_member_order env m" m env] assms
    by (simp add: api_config_set_settings_def)
qed

lemma get_settings_result:
  assumes "db_healthy (api_db s)" "param (lit ''key'') = None"
  shows "api_config_get_settings env param req s =
    (Inr (response_build 200 (api_msg_gen_key_value (ae_json env)
       (shown_settings (as_conf s) (tb_config (db_tables (api_db s)))))), s)"
proof -
  have same: "s\<lparr>as_server := (as_server s)\<lparr>sv_stat := (sv_stat (as_server s))\<lparr>ds_db := api_db s\<rparr>\<rparr>\<rparr> = s" by simp
  show ?thesis
    using direct_call_healthy [where m = get_config_list, OF config_kv.get_all_ok [OF assms(1)]] assms(2)
    by (simp only: api_config_get_settings_def params_get_value_def Let_def same)
       (simp add: act_bind_ok [OF get_conf] act_return_def)
qed


text \<open>The answer masks the password but not the secret: whoever reads it can sign tokens of any
  lifetime.\<close>


section \<open>Lists and restarts\<close>

lemma div_ceiling:
  fixes n k :: nat
  assumes "0 < k"
  shows "(n + k - 1) div k = n div k + (if n mod k = 0 then 0 else 1)"
proof -
  have "n + k - 1 = (n mod k + k - 1) + n div k * k"
    using div_mult_mod_eq [of n k] assms by linarith
  then have "(n + k - 1) div k = n div k + (n mod k + k - 1) div k"
    using assms by (metis div_mult_self1 add.commute neq0_conv)
  moreover have "(n mod k + k - 1) div k = (if n mod k = 0 then 0 else 1)"
    using assms mod_less_divisor [OF assms, of n] by (auto intro!: div_nat_eqI)
  ultimately show ?thesis by simp
qed

lemma total_page_ceiling:
  assumes "k \<noteq> 0"
  shows "unat (total_page n k) = (unat n + unat k - 1) div unat k"
proof -
  have k: "0 < unat k" using assms by (simp add: unat_gt_0)
  have zero: "n mod k = 0 \<longleftrightarrow> unat n mod unat k = 0" by (metis unat_0 unat_mod_distrib unsigned_word_eqI)
  have d: "unat (n div k) = unat n div unat k" by (rule unat_div_distrib)
  show ?thesis
  proof (cases "unat n mod unat k = 0")
    case True
    then have "total_page n k = n div k" using zero by (simp add: total_page_def)
    then show ?thesis using True d div_ceiling [OF k, of "unat n"] by simp
  next
    case False
    then have "unat k \<noteq> 1" by auto
    then have "1 < unat k" using k by simp
    moreover have "0 < unat n" using False by (cases "unat n = 0") auto
    ultimately have "unat n div unat k < unat n" by (rule div_less_dividend)
    moreover have "unat n < 2 ^ LENGTH(64)" by (rule unsigned_less)
    ultimately have small: "Suc (unat (n div k)) < 2 ^ LENGTH(64)" unfolding d by linarith
    have "unat (1 + n div k) = Suc (unat (n div k))"
      using small by (simp add: unat_word_ariths(1) del: One_nat_def)
    then have "unat (total_page n k) = Suc (unat (n div k))"
      using False zero by (simp add: total_page_def add.commute)
    then show ?thesis using False d div_ceiling [OF k, of "unat n"] by simp
  qed
qed

lemma call_blocking_healthy:
  assumes "m (api_db s) = (Inr x, api_db s)"
  shows "call_blocking env m k s = k x s"
  using assms by (simp add: call_blocking_def on_server_def with_db_def act_bind_def)

lemma get_domain_list_healthy:
  assumes "db_healthy d" "domain_list lower (Some p) (tb_domain (db_tables d)) = Inr res" "dp_cursor p = None"
  shows "get_domain_list lower (Some p) d = (Inr res, d)"
proof -
  have "qd_total_count res = domain_list_count lower (Some p) (tb_domain (db_tables d))"
    using assms(2,3) by (auto simp: domain_list_def bind_result_def Let_def split: sum.splits)
  then have "res\<lparr>qd_total_count := domain_list_count lower (Some p) (tb_domain (db_tables d))\<rparr> = res" by simp
  then show ?thesis using assms
    by (simp add: get_domain_list_def with_readonly_def get_readonly_conn_def db_healthy_def act_bind_def
        get_domain_list_count_def act_get_def act_return_def)
qed

text \<open>A list request without a cursor, with page number and size.\<close>

definition page_request :: "route_params \<Rightarrow> u64 \<Rightarrow> u64 \<Rightarrow> bool" where
  "page_request params n k \<longleftrightarrow>
     params_get_value_default parse_word params ''page_num'' 1 = Inr n \<and>
     params_get_value_default parse_word params ''page_size'' 10 = Inr k \<and> 0 < n \<and> 0 < k \<and>
     params (lit ''cursor'') = None \<and> params (lit ''total_count'') = None \<and>
     params (lit ''cursor_direction'') = None"


text \<open>C27: A save-and-restart request asks for at most one restart, and only after a valid form has
  been read from its body and every page has been written.\<close>

theorem restart_only_after_save:
  assumes "asks env POST ''/api/plus/save-and-restart'' param req"
    and "serve env asset tree req s = (resp, s')"
  shows "(as_restarts s' = as_restarts s \<or> as_restarts s' = as_restarts s + 1) \<and>
    (as_restarts s' \<noteq> as_restarts s \<longrightarrow>
       (\<exists>text request v. hr_body req = Body text \<and> ae_save_request env text = Inr request \<and> vr_ok v \<and>
          save_beginner_config (hc_config_file (as_conf s)) (hc_rules_dir (as_conf s)) request (as_files s) =
            (Inr v, as_files s')))"
proof -
  obtain r s1 where h: "api_plus_save_and_restart env param req s = (r, s1)" by fastforce
  have "s' = (if authorized (ae_lib env) (ae_now env) (as_conf s) req then s1 else s)"
    using assms h get_router_asked [OF assms(1), of True "api_plus_save_and_restart env"]
    by (auto simp: serve_def server_handle_http_request_def asks_def api_table_def handled_state
        case_prod_beta dest!: arg_cong [of _ _ snd])
  moreover have "(as_restarts s1 = as_restarts s \<or> as_restarts s1 = as_restarts s + 1) \<and>
    (as_restarts s1 \<noteq> as_restarts s \<longrightarrow>
       (\<exists>text request v. hr_body req = Body text \<and> ae_save_request env text = Inr request \<and> vr_ok v \<and>
          save_beginner_config (hc_config_file (as_conf s)) (hc_rules_dir (as_conf s)) request (as_files s) =
            (Inr v, as_files s1)))"
    using h
    by (auto simp: api_plus_save_and_restart_def payload_def file_call_def on_files_def or_error_def
        the_result_def read_body_def request_restart_def answer_json_def act_bind_def act_get_def act_upd_def
        act_return_def split: sum.splits prod.splits if_splits body_read.splits)
  ultimately show ?thesis by simp
qed

section \<open>Concrete requests\<close>

lemma path_registered:
  "(m, path, auth, h) \<in> set (api_table env) \<Longrightarrow> lit path \<in> set (map fst (api_router env))"
  using routes_of_entry [OF table_distinct, of m path auth h env "[]"]
  by (auto simp: api_router_def routes_of_def bind_eq_Some_conv dest!: map_of_SomeD intro: rev_image_eqI)

text \<open>A router that knows the paths without parameters, and a JSON text with one meaning.\<close>

definition exact_match :: "ustr list \<Rightarrow> ustr \<Rightarrow> (ustr \<times> route_params) option" where
  "exact_match paths path = (if path \<in> set paths then Some (path, Map.empty) else None)"

definition sample_env :: "json \<Rightarrow> api_env" where
  "sample_env v =
     \<lparr>ae_lib = letter_lib\<lparr>hl_json := one_text_lib v\<rparr>, ae_match = exact_match,
       ae_now = 0, ae_now_ms = 0,
      ae_instant = 0, ae_secret = lit ''new'', ae_upgrade = Inl (lit ''no upgrade''),
        ae_db_error = (\<lambda>e. lit ''error''),
      ae_flush = (\<lambda>n. 0), ae_cache = ([], 0), ae_versions = ([], []), ae_upstreams = Inr [],
      ae_metrics = (\<lambda>sv. get_metrics 0 0 0 0 None 4096 sv),
      ae_overview = (\<lambda>sv. get_overview [] (None, None) 0 sv), ae_local_time = show_u,
        ae_local_day = show_u,
      ae_now_seconds = 0, ae_to_hour = 0, ae_whois_net = one_server_net, ae_whois_servers = Map.empty,
      ae_member_order = (\<lambda>m. if m (lit ''k'') = None then [] else [lit ''k'']),
      ae_save_request = (\<lambda>t. Inr \<lparr>sc_beginner = default_beginner_config,
        sc_rules_text = []\<rparr>),
      ae_assets_request = (\<lambda>t. Inl []), ae_set_request = (\<lambda>t. Inl []),
        ae_overview_json = (\<lambda>x. Null),
      ae_assets_json = (\<lambda>x. Null), ae_detail_json = (\<lambda>x. Null),
        ae_beginner_json = (\<lambda>x. Null)\<rparr>"

definition sample_state :: "bool list \<Rightarrow> (ustr \<Rightarrow> ustr option) \<Rightarrow> api_state" where
  "sample_state calls stored =
     \<lparr>as_conf = sample_config, as_attempts = (0, 0),
      as_server = new_data_server [] 0 (sample_db\<lparr>db_is_open := True, db_calls := calls,
        db_tables := (db_tables sample_db)\<lparr>tb_config := stored,
          tb_domain := sample_rows, tb_domain_seq := 4\<rparr>\<rparr>),
      as_files = sample_fs, as_log_level = INFO, as_cache_number = 0, as_restarts = 0,
        as_streams = []\<rparr>"

definition token_header :: "(string \<times> ustr) list" where
  "token_header = [(''Authorization'', lit ''Bearer '' @ ti_token (encode_token letter_lib 0 (conf_jwt sample_config)))]"

definition ask :: "http_method \<Rightarrow> string \<Rightarrow> http_request" where
  "ask m path = (request_to m path token_header)\<lparr>hr_body := Body (lit ''{}'')\<rparr>"

lemma sample_laws [simp]: "http_lib_laws (ae_lib (sample_env v))"
  using letter_lib_laws by (simp add: http_lib_laws_def sample_env_def)

lemma sample_keyed [simp]: "jwt_keyed (ae_lib (sample_env v))"
  by (simp add: jwt_keyed_def sample_env_def letter_lib_def letters_back)

lemma sample_asks:
  "(m, path, auth, h) \<in> set (api_table (sample_env v)) \<Longrightarrow> is_api_path (lit path) \<Longrightarrow>
    asks (sample_env v) m path Map.empty (ask m path)"
  using path_registered [of m path auth h "sample_env v"]
  by (simp add: asks_def ask_def request_to_def sample_env_def exact_match_def)

lemma sample_conf [simp]: "as_conf (sample_state calls stored) = sample_config"
  by (simp add: sample_state_def)

lemma sample_authorized [simp]:
  "authorized (ae_lib (sample_env v)) (ae_now (sample_env v)) sample_config (ask m path)"
proof (rule issued_token_authorizes [OF sample_laws, of _ 0])
  show "ae_now (sample_env v) \<le> 0 + ucast (hc_token_expired_time sample_config)"
    by (simp add: sample_env_def sample_config_def new_http_server_config_def)
  have "encode_token (ae_lib (sample_env v)) 0 j = encode_token letter_lib 0 j" for j
    by (simp add: encode_token_def sample_env_def)
  then show "presents (ae_lib (sample_env v)) (ask m path)
      (ti_token (encode_token (ae_lib (sample_env v)) 0 (conf_jwt sample_config)))"
    by (simp add: presents_def ask_def request_to_def token_header_def)
qed

lemma sample_body [simp]: "hr_body (ask m path) = Body (lit ''{}'')"
  by (simp add: ask_def)

lemma sample_healthy [simp]: "db_healthy (api_db (sample_state [] stored))"
  by (simp add: db_healthy_def sample_state_def new_data_server_def)

lemma sample_stored [simp]: "tb_config (db_tables (api_db (sample_state calls stored))) = stored"
  by (simp add: sample_state_def new_data_server_def)

theorem unauthorized_changes_nothing_else_witness:
  "(snd (serve (sample_env Null) id (\<lambda>_. Absent) (request_to PUT ''/api/service/restart'' [])
      (sample_state [] Map.empty)))\<lparr>as_attempts := (0, 0)\<rparr> = sample_state [] Map.empty"
proof -
  have "\<not> authorized (ae_lib (sample_env Null)) (ae_now (sample_env Null)) (as_conf (sample_state [] Map.empty))
      (request_to PUT ''/api/service/restart'' [])"
    by (simp add: authorized_def get_token_from_header_def request_to_def)
  from unauthorized_changes_nothing_else [OF this, of id "\<lambda>_. Absent"] show ?thesis
    by (simp add: sample_state_def)
qed

definition log_in_message :: json where
  "log_in_message = object [(''username'', Str (lit ''admin'')), (''password'', Str (lit ''password''))]"

lemma sample_log_in: "log_in_ok (sample_env log_in_message) (sample_state [] Map.empty) (ask POST ''/api/auth/login'')"
proof -
  have "api_msg_parse_auth (ae_json (sample_env log_in_message)) (lit ''{}'') =
      Inr \<lparr>au_username = hc_username sample_config, au_password = lit ''password''\<rparr>"
    by code_simp
  moreover have "hl_verify_password (ae_lib (sample_env log_in_message)) (lit ''password'') (hc_password sample_config)"
    by code_simp
  moreover have "fst (login_attempts_check (ae_instant (sample_env log_in_message))
      (as_attempts (sample_state [] Map.empty)))" by code_simp
  ultimately show ?thesis by (auto simp: log_in_ok_def)
qed

theorem login_opens_gate_witness:
  "\<exists>token resp. fst (serve (sample_env log_in_message) id (\<lambda>_. Absent) (ask POST ''/api/auth/login'')
      (sample_state [] Map.empty)) = Some resp \<and> hp_status resp = 200 \<and>
    authorized (ae_lib (sample_env log_in_message)) 60 sample_config
      (request_to GET ''/api/auth/check'' [(''Authorization'', lit ''Bearer '' @ token)])"
proof -
  have "is_api_path (lit ''/api/auth/login'')" by code_simp
  then have "asks (sample_env log_in_message) POST ''/api/auth/login'' Map.empty (ask POST ''/api/auth/login'')"
    by (intro sample_asks [of _ _ False "api_auth_login (sample_env log_in_message)"]) (simp add: api_table_def)
  from login_opens_gate [OF sample_laws this sample_log_in, of id "\<lambda>_. Absent"]
  obtain token resp rest where "serve (sample_env log_in_message) id (\<lambda>_. Absent) (ask POST ''/api/auth/login'')
      (sample_state [] Map.empty) = (Some resp, (sample_state [] Map.empty)\<lparr>as_attempts := (0,
        ae_instant (sample_env log_in_message))\<rparr>)"
    and ok: "hp_status resp = 200"
    and later: "\<forall>req' later. presents (ae_lib (sample_env log_in_message)) req' token \<and>
       later \<le> ae_now (sample_env log_in_message) + ucast (hc_token_expired_time sample_config) \<longrightarrow>
       authorized (ae_lib (sample_env log_in_message)) later sample_config req'"
    unfolding sample_conf by (elim exE conjE)
  then have r: "fst (serve (sample_env log_in_message) id (\<lambda>_. Absent) (ask POST ''/api/auth/login'')
      (sample_state [] Map.empty)) = Some resp" by simp
  have "authorized (ae_lib (sample_env log_in_message)) 60 sample_config
      (request_to GET ''/api/auth/check'' [(''Authorization'', lit ''Bearer '' @ token)])"
  proof (intro later [rule_format] conjI)
    show "(60 :: u64) \<le> ae_now (sample_env log_in_message) + ucast (hc_token_expired_time sample_config)"
      by code_simp
  qed (simp add: presents_def request_to_def)
  then show ?thesis using r ok by blast
qed

definition change_message :: json where
  "change_message = object [(''old_password'', Str (lit ''password'')), (''password'', Str (lit ''better''))]"

lemma sample_change:
  "change_ok (sample_env change_message) (sample_state calls Map.empty) (ask PUT ''/api/auth/password'')
     (text_field (lit ''better''))"
proof -
  have "api_msg_parse_auth_password_change (ae_json (sample_env change_message)) (lit ''{}'') =
      Inr (lit ''password'', lit ''better'')"
    by code_simp
  moreover have "hl_verify_password (ae_lib (sample_env change_message)) (lit ''password'') (hc_password sample_config)"
    by code_simp
  moreover have "hl_hash_password (ae_lib (sample_env change_message)) (lit ''better'') 10000 = Inr (text_field (lit ''better''))"
    by (simp add: sample_env_def letter_lib_def)
  moreover have "fst (login_attempts_check (ae_instant (sample_env change_message))
      (as_attempts (sample_state calls Map.empty)))"
    by (simp add: sample_env_def sample_state_def login_attempts_check_def)
  ultimately show ?thesis by (auto simp: change_ok_def)
qed

lemma sample_change_asks:
  "asks (sample_env change_message) PUT ''/api/auth/password'' Map.empty (ask PUT ''/api/auth/password'')"
proof -
  have "is_api_path (lit ''/api/auth/password'')" by code_simp
  then show ?thesis
    by (intro sample_asks [of _ _ True "api_auth_change_password (sample_env change_message)"]) (simp add: api_table_def)
qed

theorem password_change_revokes_witness:
  "\<exists>resp s'. serve (sample_env change_message) id (\<lambda>_. Absent) (ask PUT ''/api/auth/password'')
      (sample_state [] Map.empty) = (Some resp, s') \<and> hp_status resp = 204 \<and>
    hc_jwt_secret (as_conf s') = lit ''new''"
proof -
  have "ae_secret (sample_env change_message) \<noteq> hc_jwt_secret (as_conf (sample_state [] Map.empty))"
    by code_simp
  from password_change_revokes [OF sample_laws sample_keyed sample_change_asks sample_change sample_healthy this,
      of id "\<lambda>_. Absent"]
  show ?thesis by (auto simp: sample_env_def)
qed

theorem failed_password_change_half_done_witness:
  "\<exists>resp s'. serve (sample_env change_message) id (\<lambda>_. Absent) (ask PUT ''/api/auth/password'')
      (sample_state [False] Map.empty) = (Some resp, s') \<and> hp_status resp = 500 \<and>
    hc_password (as_conf s') = text_field (lit ''better'') \<and> tb_config (db_tables (api_db s')) password_key = None"
proof -
  let ?r = "set_config password_key (text_field (lit ''better'')) (api_db (sample_state [False] Map.empty))"
  have "fst ?r = Inl Sqlite" by code_simp
  then have "?r = (Inl Sqlite, snd ?r)" by (metis prod.collapse)
  from failed_password_change_half_done [OF sample_change_asks sample_change this, of id "\<lambda>_. Absent"]
  show ?thesis by auto
qed




theorem restart_only_after_save_witness:
  "as_restarts (snd (serve (sample_env Null) id (\<lambda>_. Absent) (ask POST ''/api/plus/save-and-restart'')
      (sample_state [] Map.empty))) \<in> {0, 1}"
proof -
  let ?env = "sample_env Null" and ?req = "ask POST ''/api/plus/save-and-restart''"
  have path: "is_api_path (lit ''/api/plus/save-and-restart'')" by code_simp
  have asked: "asks ?env POST ''/api/plus/save-and-restart'' Map.empty ?req"
    by (rule sample_asks [of _ _ True "api_plus_save_and_restart ?env"]) (simp_all add: api_table_def path)
  from restart_only_after_save [OF asked, of id "\<lambda>_. Absent" "sample_state [] Map.empty"] show ?thesis
    by (cases "serve ?env id (\<lambda>_. Absent) ?req (sample_state [] Map.empty)") (auto simp: sample_state_def)
qed
end
