(* ===== verification/Http_Api_Safety.thy ===== *)
theory Http_Api_Safety
  imports Http_Api
begin

text \<open>
  What holds of every request of \<open>src/src/http_server_api.rs\<close>, whatever route it takes: the tables
  of the database stay well formed and the status of the answer is one of nine. Both are shown for
  the parts handlers are made of and then for all handlers of the table.
\<close>

section \<open>Tables\<close>

definition api_keeps :: "'a api_act \<Rightarrow> bool" where
  "api_keeps f \<longleftrightarrow> (\<forall>s. tables_ok (db_tables (api_db s)) \<longrightarrow> tables_ok (db_tables (api_db (snd (f s)))))"

named_theorems api_keeps_intros \<open>handlers that keep the tables well formed\<close>

lemma api_keeps_basic [api_keeps_intros]:
  "api_keeps (act_return x)" "api_keeps (act_fail e)" "api_keeps (act_get f)" "api_keeps (the_result r)"
  "api_keeps (check_attempts env)" "api_keeps (reset_attempts env)" "api_keeps (on_files m)"
  by (simp_all add: api_keeps_def act_defs the_result_def check_attempts_def reset_attempts_def on_files_def
      split: prod.split)

lemma api_keeps_upd [api_keeps_intros]: "(\<And>s. as_server (f s) = as_server s) \<Longrightarrow> api_keeps (act_upd f)"
  by (simp add: api_keeps_def act_upd_def)

lemma api_keeps_bind [api_keeps_intros]:
  assumes "api_keeps m" "\<And>x. api_keeps (f x)"
  shows "api_keeps (act_bind m f)"
  unfolding api_keeps_def
proof (intro allI impI)
  fix s assume s: "tables_ok (db_tables (api_db s))"
  obtain r s1 where m: "m s = (r, s1)" by fastforce
  then have "tables_ok (db_tables (api_db s1))" using assms(1) s by (metis api_keeps_def snd_conv)
  then show "tables_ok (db_tables (api_db (snd (act_bind m f s))))"
    using assms(2) m by (cases r) (simp_all add: act_bind_def api_keeps_def)
qed

lemma api_keeps_cases [api_keeps_intros]:
  "(b \<Longrightarrow> api_keeps f) \<Longrightarrow> (\<not> b \<Longrightarrow> api_keeps g) \<Longrightarrow> api_keeps (if b then f else g)"
  "(\<And>e. api_keeps (f' e)) \<Longrightarrow> (\<And>x. api_keeps (g' x)) \<Longrightarrow> api_keeps (case r of Inl e \<Rightarrow> f' e | Inr x \<Rightarrow> g' x)"
  "api_keeps n \<Longrightarrow> (\<And>x. api_keeps (h x)) \<Longrightarrow> api_keeps (case v of None \<Rightarrow> n | Some x \<Rightarrow> h x)"
  "(\<And>a b. api_keeps (k a b)) \<Longrightarrow> api_keeps (case p of (a, b) \<Rightarrow> k a b)"
  "api_keeps n \<Longrightarrow> (\<And>y ys. api_keeps (l y ys)) \<Longrightarrow> api_keeps (case zs of [] \<Rightarrow> n | y # ys \<Rightarrow> l y ys)"
  by (simp_all split: sum.split option.split prod.split list.split)

lemma api_keeps_on_server:
  assumes "keeps tables_ok m"
  shows "api_keeps (on_server (with_db m))"
  unfolding api_keeps_def
proof (intro allI impI)
  fix s assume "tables_ok (db_tables (api_db s))"
  then have "tables_ok (db_tables (snd (m (api_db s))))"
    using assms keepsD [of tables_ok m "api_db s"] by (metis prod.collapse)
  then show "tables_ok (db_tables (api_db (snd (on_server (with_db m) s))))"
    by (auto simp: on_server_def with_db_def split: prod.split)
qed

lemma api_keeps_calls [api_keeps_intros]:
  assumes "keeps tables_ok m" "\<And>x. api_keeps (k x)"
  shows "api_keeps (call_blocking env m k)" "(\<And>e. api_keeps (failed e)) \<Longrightarrow> api_keeps (direct_call env m failed k)"
  unfolding call_blocking_def direct_call_def
  by (intro api_keeps_intros api_keeps_on_server assms | assumption)+

lemma api_keeps_parts [api_keeps_intros]:
  "api_keeps (file_call f m')" "api_keeps (payload parse req)" "api_keeps request_restart"
  "api_keeps (answer_json env v)" "api_keeps (stream_request kind env param req)"
  "api_keeps (need_upgrade kind env param req)" "api_keeps (set_get a b rd env param req)"
  "api_keeps (set_save a sv env param req)"
  unfolding file_call_def payload_def request_restart_def answer_json_def stream_request_def need_upgrade_def
    set_get_def set_save_def Let_def
  by (intro api_keeps_intros; simp)+

lemma keeps_looked_up [keeps_intros]:
  assumes "\<And>r. keeps P (m r)"
  shows "keeps P (\<lambda>d. case x d of Inl e \<Rightarrow> (Inl (f e), d) | Inr r \<Rightarrow> m r d)"
  by (rule keepsI) (auto split: sum.splits dest: keepsD [OF assms])

lemma keeps_lists [keeps_intros]:
  "keeps P (get_domain_list_count lower p)" "keeps P (get_client_list_count q)"
  "keeps P (get_domain_list lower p)" "keeps P (get_client_list q)"
  unfolding get_domain_list_count_def get_client_list_count_def get_domain_list_def get_client_list_def
  by (intro keeps_intros)+

lemma keeps_reads_tables [keeps_intros]:
  "keeps tables_ok get_config_list"
  "keeps tables_ok (get_top_client_top_list n)" "keeps tables_ok (get_top_domain_top_list n)"
  "keeps tables_ok (get_hourly_query_count fmt now h past)" "keeps tables_ok (get_daily_query_count fmt now h past)"
  by (simp_all add: keeps_reads get_top_client_top_list_def get_top_domain_top_list_def)

lemmas keeps_writes_tables [keeps_intros] = keeps_set_config keeps_deletes

lemma store_settings_keeps [api_keeps_intros]: "api_keeps (store_settings env m keys)"
  by (induction keys) (auto intro!: api_keeps_intros keeps_intros)

lemma refresh_keeps: "tables_ok (db_tables (ds_db st)) \<Longrightarrow> tables_ok (db_tables (ds_db (refresh now age st)))"
  by (simp add: refresh_def db_ignore_def) (metis keepsD keeps_deletes keeps_refresh prod.collapse)

lemma api_keeps_refresh [api_keeps_intros]:
  "api_keeps (on_server (\<lambda>sv. ((), sv\<lparr>sv_stat := refresh now (age sv) (sv_stat sv)\<rparr>)))"
  by (simp add: api_keeps_def on_server_def refresh_keeps)

lemma list_request_keeps [api_keeps_intros]:
  "(\<And>n k d. keeps tables_ok (list n k d)) \<Longrightarrow> api_keeps (list_request env params list message)"
  unfolding list_request_def by (intro api_keeps_intros keeps_intros)

lemmas handler_defs =
  api_service_restart_def api_cache_flush_def api_cache_count_def api_cache_domains_def
  api_auth_login_def api_auth_logout_def api_auth_check_def api_plus_get_config_def api_plus_save_def
  api_plus_save_and_restart_def api_plus_backups_def api_plus_restore_def api_plus_templates_def
  api_plus_rule_set_get_def api_plus_rule_set_save_def api_plus_managed_assets_get_def
  api_plus_managed_assets_save_def api_plus_apply_def api_plus_ip_set_get_def api_plus_ip_set_save_def
  api_auth_change_password_def api_auth_refresh_def api_domain_get_list_def api_domain_delete_list_def
  api_domain_get_list_count_def api_domain_get_by_id_def api_domain_delete_by_id_def api_client_get_list_def
  api_client_delete_by_id_def api_log_stream_def api_log_set_level_def api_log_get_level_def
  api_audit_log_stream_def api_server_version_def api_upstream_server_get_list_def
  api_config_get_settings_def api_config_set_settings_def api_stats_get_top_client_def
  api_stats_get_top_domain_def api_stats_get_metrics_def api_stats_get_overview_def
  api_stats_get_hourly_query_count_def api_stats_get_daily_query_count_def api_stats_refresh_def
  api_whois_def api_tool_term_def delete_by_id_def

lemma handlers_keep_tables:
  "(m, path, auth, h) \<in> set (api_table env) \<Longrightarrow> api_keeps (h param req)"
  unfolding api_table_def
  apply (simp only: list.set insert_iff empty_iff prod.inject)
  apply (elim disjE conjE FalseE; hypsubst)
  unfolding handler_defs Let_def
  by ((intro api_keeps_intros keeps_intros; simp)+)


section \<open>Statuses\<close>

text \<open>Status 0 is no answer, 101 an upgrade.\<close>

definition known :: "nat list" where
  "known = [0, 101, 200, 204, 400, 401, 403, 404, 500]"

definition api_error_ok :: "'a api_act \<Rightarrow> bool" where
  "api_error_ok f \<longleftrightarrow> (\<forall>s e s'. f s = (Inl e, s') \<longrightarrow> he_code e \<in> set known)"

definition api_status_ok :: "http_response api_act \<Rightarrow> bool" where
  "api_status_ok f \<longleftrightarrow> api_error_ok f \<and> (\<forall>s r s'. f s = (Inr r, s') \<longrightarrow> hp_status r \<in> set known)"

named_theorems status_intros \<open>answers with a known status\<close>

lemma known_codes [simp]:
  "0 \<in> set known" "101 \<in> set known" "200 \<in> set known" "204 \<in> set known" "400 \<in> set known"
  "401 \<in> set known" "403 \<in> set known" "404 \<in> set known" "500 \<in> set known"
  by (simp_all add: known_def)

lemma error_codes [simp]:
  "he_code (error_of_hyper e) = 500" "he_code (error_of_utf8 e) = 400" "he_code (error_of_io e) = 500"
  "he_code (error_of_box e) = 500" "he_code no_answer = 0" "he_code (io_failure i) = 500"
  "he_code (plain_failure i) = 500" "he_code (set_failure i) \<in> set known"
  by (simp_all add: error_of_hyper_def error_of_utf8_def error_of_io_def error_of_box_def no_answer_def
      io_failure_def plain_failure_def set_failure_def split: io_kind.split)

lemma answer_codes [simp]:
  "hp_status (response_error env c msg) = c" "hp_status (to_response json e) = he_code e"
  "hp_status (too_many env) = 403" "hp_status (unauthorized env) = 401"
  "hp_status (token_answer env conf t) = 200" "hp_status (set_text n v r) = hp_status r"
  by (simp_all add: response_error_def to_response_def too_many_def unauthorized_def token_answer_def set_text_def)

lemma api_error_ok_intros [status_intros]:
  "api_error_ok (act_return x)" "api_error_ok (act_get f)" "api_error_ok (act_upd g)"
  "api_error_ok (check_attempts env)" "api_error_ok (reset_attempts env)" "api_error_ok (on_files m)"
  "api_error_ok (on_server m')" "api_error_ok (payload parse req)" "api_error_ok request_restart"
  "api_error_ok (the_result (read_body req))" "api_error_ok (the_result (set_name msg param))"
  "api_error_ok (the_result (params_get_value_default ps params key d))"
  "(\<And>e. he_code (h e) \<in> set known) \<Longrightarrow> api_error_ok (the_result (or_error h r))"
  "(\<And>e. he_code (h' e) \<in> set known) \<Longrightarrow> api_error_ok (file_call h' io)"
  "api_error_ok (if b then act_bind request_restart (\<lambda>_. act_return v) else act_return w)"
  by (auto simp: api_error_ok_def act_defs check_attempts_def reset_attempts_def on_files_def on_server_def
      payload_def request_restart_def file_call_def the_result_def or_error_def read_body_def set_name_def
      params_get_value_default_def act_bind_def split: prod.splits sum.splits option.splits body_read.splits
      if_splits)

lemma api_status_bind [status_intros]:
  "api_error_ok m \<Longrightarrow> (\<And>x. api_status_ok (f x)) \<Longrightarrow> api_status_ok (act_bind m f)"
  by (force simp: api_status_ok_def api_error_ok_def act_bind_def split: prod.splits sum.splits)

lemma api_status_basic [status_intros]:
  "hp_status r \<in> set known \<Longrightarrow> api_status_ok (act_return r)"
  "he_code e \<in> set known \<Longrightarrow> api_status_ok (act_fail e)"
  by (simp_all add: api_status_ok_def api_error_ok_def act_return_def act_fail_def)

lemma api_status_cases [status_intros]:
  "(b \<Longrightarrow> api_status_ok f) \<Longrightarrow> (\<not> b \<Longrightarrow> api_status_ok g) \<Longrightarrow> api_status_ok (if b then f else g)"
  "(\<And>e. r = Inl e \<Longrightarrow> api_status_ok (f' e)) \<Longrightarrow> (\<And>x. r = Inr x \<Longrightarrow> api_status_ok (g' x)) \<Longrightarrow>
     api_status_ok (case r of Inl e \<Rightarrow> f' e | Inr x \<Rightarrow> g' x)"
  "api_status_ok n \<Longrightarrow> (\<And>x. api_status_ok (h x)) \<Longrightarrow> api_status_ok (case v of None \<Rightarrow> n | Some x \<Rightarrow> h x)"
  "(\<And>a b. api_status_ok (k a b)) \<Longrightarrow> api_status_ok (case p of (a, b) \<Rightarrow> k a b)"
  "api_status_ok n \<Longrightarrow> (\<And>y ys. api_status_ok (l y ys)) \<Longrightarrow> api_status_ok (case zs of [] \<Rightarrow> n | y # ys \<Rightarrow> l y ys)"
  by (simp_all split: sum.split option.split prod.split list.split)

lemma api_status_calls [status_intros]:
  assumes "\<And>x. api_status_ok (k x)"
  shows "api_status_ok (call_blocking env m k)"
    "(\<And>e. api_status_ok (failed e)) \<Longrightarrow> api_status_ok (direct_call env m failed k)"
  unfolding call_blocking_def direct_call_def by (intro status_intros assms; simp)+

definition upgrade_101 :: "api_env \<Rightarrow> bool" where
  "upgrade_101 env \<longleftrightarrow> (\<forall>r. ae_upgrade env = Inr r \<longrightarrow> hp_status r = 101)"

lemma stream_status [status_intros]:
  "upgrade_101 env \<Longrightarrow> api_status_ok (stream_request kind env param req)"
  "upgrade_101 env \<Longrightarrow> api_status_ok (need_upgrade kind env param req)"
  unfolding need_upgrade_def stream_request_def
  by (intro status_intros; simp add: upgrade_101_def)+

lemma parts_status [status_intros]:
  "api_status_ok (answer_json env v)" "api_status_ok (set_get a b rd env param req)"
  "api_status_ok (set_save a sv env param req)"
  unfolding answer_json_def set_get_def set_save_def Let_def
  by (intro status_intros; simp add: answer_json_def)+

lemma store_settings_status [status_intros]: "api_status_ok (store_settings env m keys)"
  by (induction keys) (auto intro!: status_intros)

lemma list_request_status [status_intros]: "api_status_ok (list_request env params list message)"
proof -
  have "he_code e \<in> set known" if "params_get_value_default ps params key d = Inl e" for ps key and d :: ustr and e
    using that by (auto simp: params_get_value_default_def split: option.splits)
  then show ?thesis unfolding list_request_def by (intro status_intros) auto
qed

lemma handlers_status:
  "upgrade_101 env \<Longrightarrow> (m, path, auth, h) \<in> set (api_table env) \<Longrightarrow> api_status_ok (h param req)"
  unfolding api_table_def
  apply (simp only: list.set insert_iff empty_iff prod.inject)
  apply (elim disjE conjE FalseE; hypsubst)
  unfolding handler_defs Let_def
  by ((intro status_intros; simp)+)

lemma api_status_of_result:
  "api_status_ok f \<Longrightarrow> f s = (x, s') \<Longrightarrow>
    (case x of Inl e \<Rightarrow> he_code e \<in> set known | Inr resp \<Rightarrow> hp_status resp \<in> set known)"
  unfolding api_status_ok_def api_error_ok_def by (cases x) (simp, metis)+

lemma cors_status [simp]: "hp_status (server_add_cors_header c origin r) = hp_status r"
  by (simp add: server_add_cors_header_def Let_def split: option.split)

lemma gate_status [simp]:
  "hp_status (gate_error json c origin code msg) = code" "hp_status (default_header n v r) = hp_status r"
  "hp_status (new_response b) = 200"
  by (simp_all add: gate_error_def default_header_def new_response_def)

text \<open>C35: The answer to an API request has one of nine statuses, whatever the request, the route
  and the errors on the way; in particular the branch for status 405 is never taken.\<close>

theorem api_status_known:
  assumes "upgrade_101 env"
  shows "hp_status (fst (server_handle_http_api_request (ae_lib env) (ae_now env) as_conf (get_router env) req s))
    \<in> {0, 101, 200, 204, 400, 401, 403, 404, 500}"
proof -
  have "hp_status (fst (server_handle_http_api_request (ae_lib env) (ae_now env) as_conf (get_router env) req s)) \<in> set known"
  proof (cases "hr_method req = OPTIONS")
    case False
    show ?thesis
    proof (cases "get_router env (hr_method req) (hr_path req)")
      case (Some rp)
      obtain r param where rp: "rp = (r, param)" by fastforce
      from get_router_in_table [OF Some [unfolded rp]] obtain p auth h
        where h: "(hr_method req, p, auth, h) \<in> set (api_table env)"
          "r = \<lparr>ar_method = hr_method req, ar_auth = auth, ar_handler = h\<rparr>" by blast
      obtain x s' where x: "h param req s = (x, s')" by fastforce
      have "case x of Inl e \<Rightarrow> he_code e \<in> set known | Inr resp \<Rightarrow> hp_status resp \<in> set known"
        using handlers_status [OF assms h(1), of param req] x by (rule api_status_of_result)
      then show ?thesis using False Some rp h(2) x
        by (auto simp: server_handle_http_api_request_def Let_def split: sum.split bool.split)
    qed (use False in \<open>simp add: server_handle_http_api_request_def Let_def\<close>)
  qed (simp add: server_handle_http_api_request_def Let_def)
  then show ?thesis by (simp add: known_def)
qed

section \<open>At concrete requests\<close>


theorem api_status_known_witness:
  "hp_status (fst (server_handle_http_api_request (ae_lib (sample_env Null)) (ae_now (sample_env Null)) as_conf
     (get_router (sample_env Null)) (ask GET ''/api/domain'') (sample_state [] Map.empty))) \<noteq> 405"
proof -
  have "upgrade_101 (sample_env Null)" by (simp add: upgrade_101_def sample_env_def)
  from api_status_known [OF this, of "ask GET ''/api/domain''" "sample_state [] Map.empty"] show ?thesis by auto
qed

end
