(* ===== verification/Config_Roundtrip.thy ===== *)
theory Config_Roundtrip
  imports Config_Store
begin

text \<open>
  A form saved by \<open>save_beginner_config\<close> and shown by \<open>read_overview\<close> (\<open>src/src/config_ui.rs\<close>): the
  eight pages are on disk, the managed block of the main configuration includes them, the preview
  puts their lines in its place, and reading the preview gives the saved form in its normal form,
  beside the directives of the main configuration and of the rule pages.
\<close>

section \<open>The lines of the main configuration\<close>

text \<open>What a main configuration may hold beside the block: directives that are none of the form's.\<close>

definition host_lines :: "ustr \<Rightarrow> bool" where
  "host_lines a \<longleftrightarrow> str_find managed_begin a = None \<and> plain_text a \<and> foreign (config_entries a)"

text \<open>Before the first save, or after one.\<close>

definition host_text :: "ustr \<Rightarrow> ustr \<Rightarrow> ustr \<Rightarrow> bool" where
  "host_text rules_dir a m \<longleftrightarrow> m = a \<or> m = block_prefix a @
    managed_block rules_dir @ [10]"

definition plain_dir :: "ustr \<Rightarrow> bool" where
  "plain_dir d \<longleftrightarrow> 35 \<notin> set d \<and> 10 \<notin> set d"

lemma ensure_host:
  assumes "host_lines a" "host_text rules_dir a m" "plain_dir (managed_conf_dir rules_dir)"
  shows "ensure_managed_block m rules_dir = block_prefix a @ managed_block rules_dir @ [10]"
proof (cases "m = a")
  case True
  then show ?thesis using assms(1) by (simp add: ensure_managed_block_def host_lines_def)
next
  case False
  then have m: "m = block_prefix a @ managed_block rules_dir @
    [10]" using assms(2) by (simp add: host_text_def)
  have "block_tail (trim_newlines [10]) = [10]" by (simp add: block_tail_def trim_newlines_def)
  then show ?thesis
    using assms(1,3) ensure_at_block [of rules_dir a "[10]"] by (simp add: m host_lines_def plain_dir_def)
qed

lemma str_lines_terminated:
  "s \<noteq> [] \<Longrightarrow> last s \<noteq> 10 \<Longrightarrow> last s \<noteq> 13 \<Longrightarrow> str_lines (s @ 10 # r) = str_lines s @ str_lines r"
proof (induction "length s" arbitrary: s rule: less_induct)
  case less
  show ?case
  proof (rule first_line_cases [of s])
    assume n: "no_nl s"
    have "strip_cr s = s" using less.prems by (simp add: strip_cr_def)
    then show ?thesis using n less.prems by (simp add: str_lines_Cons str_lines_last)
  next
    fix l s' assume s: "s = l @ 10 # s'" and l: "no_nl l"
    then have "s' \<noteq> []" using less.prems(2) by auto
    then have "str_lines (s' @ 10 # r) = str_lines s' @ str_lines r"
      using less.prems s by (intro less.hyps) auto
    then show ?thesis using l by (simp add: s str_lines_Cons)
  qed
qed

lemma strip_cr_prefix: "\<exists>q. l = strip_cr l @ q"
  by (cases "l = []") (auto simp: strip_cr_def intro: append_butlast_last_id [symmetric])

lemma str_lines_part: "l \<in> set (str_lines s) \<Longrightarrow> \<exists>x y. s = x @ l @ y"
proof (induction "length s" arbitrary: s rule: less_induct)
  case less
  show ?case
  proof (rule first_line_cases [of s])
    assume "no_nl s"
    then have "l = s" using less.prems by (cases "s = []") (simp_all add: str_lines_last)
    then show ?thesis by (intro exI [of _ "[]"]) simp
  next
    fix k s' assume s: "s = k @ 10 # s'" and k: "no_nl k"
    then consider "l = strip_cr k" | "l \<in> set (str_lines s')" using less.prems by (auto simp: str_lines_Cons)
    then show ?thesis
    proof cases
      case 1
      obtain q where "k = strip_cr k @ q" using strip_cr_prefix by blast
      then have "s = [] @ l @ q @ 10 # s'" using s 1 by simp
      then show ?thesis by blast
    next
      case 2
      then obtain x y where "s' = x @ l @ y" using less.hyps [of s'] s by auto
      then have "s = (k @ 10 # x) @ l @ y" by (simp add: s)
      then show ?thesis by blast
    qed
  qed
qed

lemma trim_part: "\<exists>x y. l = x @ trim l @ y"
proof -
  obtain y where "l = trim_end l @ y" using trim_end_prefix by blast
  moreover obtain x where "trim_end l = x @ trim l" using trim_start_suffix [of "trim_end l"] by (auto simp: trim_def)
  ultimately show ?thesis by (metis append.assoc)
qed

lemma no_marker_line:
  assumes "str_find p s = None" "l \<in> set (str_lines s)"
  shows "trim l \<noteq> p"
proof
  assume t: "trim l = p"
  obtain x y x' y' where "s = x @ l @ y" "l = x' @ trim l @ y'"
    using str_lines_part [OF assms(2)] trim_part [of l] by blast
  then have "s = (x @ x') @ p @ (y' @ y)" using t by (metis append.assoc)
  then show False using assms(1) str_find_None by blast
qed


section \<open>The preview of a saved configuration\<close>

definition host_before :: "ustr \<Rightarrow> ustr list" where
  "host_before a = (if trim_end a = [] then [] else str_lines (trim_end a) @ [[]])"

lemma block_line_shape:
  assumes "l \<in> set (block_lines rules_dir)"
  obtains r where "l = 99 # r" "last l = 102" 
  using assms
  by (auto simp: block_lines_def managed_file_names_def file_name_defs path_join_def path_push_def lit_def)

lemma block_lines_no_nl:
  assumes "10 \<notin> set (managed_conf_dir rules_dir)" "l \<in> set (block_lines rules_dir)"
  shows "no_nl l"
proof -
  have "n \<in> set managed_file_names \<Longrightarrow> 10 \<notin> set n" for n
    by (auto simp: managed_file_names_def file_name_defs lit_def)
  then show ?thesis using assms
    by (fastforce simp: no_nl_def block_lines_def path_join_def path_push_def lit_def split: if_splits)
qed

lemma trim_markers [simp]: "trim managed_begin = managed_begin" "trim managed_end = managed_end"
  by code_simp+

lemma ensured_lines:
  assumes "plain_dir (managed_conf_dir rules_dir)"
  shows "str_lines (block_prefix a @ managed_block rules_dir @ [10]) =
    host_before a @ [managed_begin] @ block_lines rules_dir @ [managed_end]"
proof -
  let ?ls = "[managed_begin] @ block_lines rules_dir @ [managed_end]"
  have nl: "\<forall>l \<in> set ?ls. no_nl l"
    using block_lines_no_nl [of rules_dir] assms marker_facts(1,2) by (simp add: no_nl_def plain_dir_def)
  have "last managed_begin \<noteq> 13" "last managed_end \<noteq> 13" by code_simp+
  moreover have "last l \<noteq> 13" if "l \<in> set (block_lines rules_dir)" for l
    using block_line_shape [OF that] by fastforce
  ultimately have cr: "\<forall>l \<in> set ?ls. strip_cr l = l" by (simp add: strip_cr_def)
  have "managed_block rules_dir @ [10] = join [10] (?ls @ [[]])"
    by (subst join_snoc_Nil) (simp_all add: managed_block_lines join_Cons)
  then have b: "str_lines (managed_block rules_dir @ [10]) = ?ls"
    using str_lines_join_snoc [of ?ls] nl map_idI [of ?ls strip_cr] cr by simp
  show ?thesis
  proof (cases "trim_end a = []")
    case False
    then have "non_ws (last (trim_end a))" by (rule trim_end_last)
    then have "last (trim_end a) \<noteq> 10" "last (trim_end a) \<noteq> 13" by (auto simp: is_whitespace_def)
    then have "str_lines (trim_end a @ 10 # ([] @ 10 # managed_block rules_dir @ [10])) =
        str_lines (trim_end a) @ str_lines ([] @ 10 # managed_block rules_dir @ [10])"
      by (rule str_lines_terminated [OF False])
    also have "str_lines ([] @ 10 # managed_block rules_dir @ [10]) = [[]] @ ?ls"
      by (subst str_lines_Cons) (simp_all add: no_nl_def strip_cr_def b)
    finally show ?thesis using False by (simp add: block_prefix_def host_before_def)
  qed (use b in \<open>simp add: block_prefix_def host_before_def\<close>)
qed

lemma host_before_lines:
  assumes "host_lines a"
  shows "\<forall>l \<in> set (host_before a). trim l \<noteq> managed_begin \<and> plain_line l"
    "map key_value (filter significant (host_before a)) = config_entries a"
proof -
  obtain q where "a = trim_end a @ q" using trim_end_prefix by blast
  then have n: "str_find managed_begin (trim_end a) = None"
    using assms str_find_None_sub unfolding host_lines_def by metis
  have p: "plain_text (trim_end a)" using assms by (simp add: host_lines_def plain_text_def)
  show "\<forall>l \<in> set (host_before a). trim l \<noteq> managed_begin \<and> plain_line l"
    using no_marker_line [OF n] plain_text_lines [OF p] plain_Nil marker_facts
    by (auto simp: host_before_def)
  have "norm_lines (trim_end a) = norm_lines a" by simp
  then have "norm_lines a = map trim (filter significant (host_before a))"
    by (auto simp: host_before_def norm_lines_def significant_def)
  moreover have "key_value (trim l) = key_value l" for l
    by (simp add: key_value_def)
  ultimately show "map key_value (filter significant (host_before a)) = config_entries a"
    using config_entries_text [of a] assms by (simp add: host_lines_def comp_def)
qed

lemma saved_preview_entries:
  assumes "host_lines a" "plain_dir (managed_conf_dir rules_dir)" "\<forall>t \<in> set texts. plain_text t"
  shows "config_entries (effective_preview (block_prefix a @ managed_block rules_dir @ [10]) texts) =
    config_entries a @ concat (map config_entries texts)"
proof -
  have i: "\<forall>l \<in> set (block_lines rules_dir). trim l \<noteq> managed_begin \<and> trim l \<noteq> managed_end"
  proof
    fix l assume "l \<in> set (block_lines rules_dir)"
    then obtain r where l: "l = 99 # r" "last l = 102" by (rule block_line_shape)
    then have "trim l = l" by (intro trimmed_trim_id) (simp add: trimmed_def is_whitespace_def)
    then show "trim l \<noteq> managed_begin \<and> trim l \<noteq> managed_end"
      using l by (simp add: managed_begin_def managed_end_def lit_def)
  qed
  have "config_entries (effective_preview (block_prefix a @ managed_block rules_dir @ [10]) texts) =
      map key_value (filter significant (host_before a)) @ concat (map config_entries texts) @
      map key_value (filter significant [])"
    by (rule preview_entries [where b = managed_begin and inside = "block_lines rules_dir" and e = managed_end])
      (use ensured_lines [OF assms(2)] host_before_lines [OF assms(1)] i assms(3) in simp_all)
  then show ?thesis using host_before_lines(2) [OF assms(1)] by simp
qed

section \<open>Reading the preview\<close>

text \<open>The rule pages of a request: their directives are none of the form's.\<close>

definition rule_pages :: "ustr \<Rightarrow> ustr list" where
  "rule_pages rules_text =
     (let assets = parse_managed_assets_from_text (normalize_rules_text rules_text)
      in [render_routing_items_text assets, render_rule_entries_text assets, render_sets_text assets])"

definition foreign_rules :: "ustr \<Rightarrow> bool" where
  "foreign_rules rules_text \<longleftrightarrow>
     list_all (\<lambda>t. plain_text t \<and> foreign (config_entries t)) (rule_pages rules_text)"

text \<open>The saved form as it is shown: the form's own directives in their normal form, and the others as
  further options.\<close>

definition shown :: "beginner_config \<Rightarrow> (ustr \<times> ustr) list \<Rightarrow> beginner_config" where
  "shown c rest = (reread c)\<lparr>bc_extras := \<lambda>k. if k \<in> set page_keys \<or> k \<in> set upstream_keys
     then reread_extras c k else foldl (extra_value k) None (values_of k rest)\<rparr>"

lemma foreign_append [simp]: "foreign (a @ b) \<longleftrightarrow> foreign a \<and> foreign b"
  by (auto simp: foreign_def)

lemma read_saved_entries:
  assumes "clean_beginner c" "foreign host" "foreign rules"
  shows "foldl beginner_entry parse_start
      (host @ service_entries c @ config_entries (render_upstreams_config (bc_upstreams c)) @
       performance_entries c @ rules @ logging_entries c @ network_entries c) = shown c (host @ rules)"
proof -
  let ?up = "config_entries (render_upstreams_config (bc_upstreams c))"
  let ?shown = "host @ service_entries c @ ?up @ performance_entries c @ rules @ logging_entries c @
    network_entries c"
  have up: "values_of k ?up = []" if "k \<notin> set upstream_keys" for k
    using that server_keys_upstream by (intro upstream_page_values [OF assms(1)]) blast
  have f: "values_of k host = []" "values_of k rules = []" if "k \<in> set page_keys \<or> k \<in> set upstream_keys" for k
    using that assms(2,3) by (auto simp: foreign_def intro!: values_of_other)
  have "values_of k ?shown = values_of k (basic_entries c @ ?up @ host @ rules)" for k
  proof (cases "k \<in> set page_keys \<or> k \<in> set upstream_keys")
    case True
    then show ?thesis
      using f [OF True] up [of k] page_keys_not_upstream [of k] pages_no_others [OF pages_keys_in(1), of k c]
        pages_no_others [OF pages_keys_in(2), of k c] pages_no_others [OF pages_keys_in(3), of k c]
        pages_no_others [OF pages_keys_in(4), of k c]
      by (cases "k \<in> set page_keys") (auto simp: values_of_pages)
  next
    case False
    then show ?thesis
      using up [of k] pages_no_others [OF pages_keys_in(1), of k c] pages_no_others [OF pages_keys_in(2), of k c]
        pages_no_others [OF pages_keys_in(3), of k c] pages_no_others [OF pages_keys_in(4), of k c]
      by (simp add: values_of_pages)
  qed
  moreover have "upstream_entries ?shown = upstream_entries (basic_entries c @ ?up @ host @ rules)"
    using foreign_upstreams [OF assms(2)] foreign_upstreams [OF assms(3)]
    by (simp add: basic_entries_def pages_no_upstreams pages_keys_in)
  ultimately have "foldl beginner_entry parse_start ?shown =
      foldl beginner_entry parse_start (basic_entries c @ ?up @ host @ rules)"
    by (rule read_same)
  also have "\<dots> = shown c (host @ rules)"
    using read_pages [OF assms(1), of "host @ rules"] assms(2,3) by (simp add: shown_def)
  finally show ?thesis .
qed

definition saved_texts :: "save_config_request \<Rightarrow> ustr list" where
  "saved_texts request = map snd (save_pages (sc_beginner request) (sc_rules_text request))"

lemma page_of_entries:
  assumes "clean_beginner c"
  shows "plain_text (render_service_config c)" "config_entries (render_service_config c) = service_entries c"
    "plain_text (render_performance_config c)" "config_entries (render_performance_config c) = performance_entries c"
    "plain_text (render_logging_config c)" "config_entries (render_logging_config c) = logging_entries c"
    "plain_text (render_network_config c)" "config_entries (render_network_config c) = network_entries c"
  using page_entries_read [OF service_page [OF assms]] page_entries_read [OF performance_page [OF assms]]
    page_entries_read [OF logging_page [OF assms]] page_entries_read [OF network_page [OF assms]]
  by (simp_all add: render_service_config_def render_performance_config_def render_logging_config_def
    render_network_config_def)

lemma saved_texts_plain:
  assumes "clean_beginner (sc_beginner request)" "foreign_rules (sc_rules_text request)"
  shows "\<forall>t \<in> set (saved_texts request). plain_text t"
  using assms upstreams_page_plain [OF assms(1)] page_of_entries [OF assms(1)]
  by (simp add: saved_texts_def save_pages_def foreign_rules_def rule_pages_def Let_def)

lemma preview_read:
  assumes "host_lines a" "plain_dir (managed_conf_dir rules_dir)"
    and "clean_beginner (sc_beginner request)" "foreign_rules (sc_rules_text request)"
  shows "parse_beginner_config (effective_preview (block_prefix a @ managed_block rules_dir @
    [10]) (saved_texts request)) =
    shown (sc_beginner request) (config_entries a @ concat (map config_entries (rule_pages (sc_rules_text request))))"
proof -
  have r: "foreign (concat (map config_entries (rule_pages (sc_rules_text request))))"
    using assms(4) by (simp add: foreign_rules_def rule_pages_def Let_def)
  have "concat (map config_entries (saved_texts request)) =
      service_entries (sc_beginner request) @ config_entries (render_upstreams_config (bc_upstreams (sc_beginner request))) @
      performance_entries (sc_beginner request) @ concat (map config_entries (rule_pages (sc_rules_text request))) @
      logging_entries (sc_beginner request) @ network_entries (sc_beginner request)"
    using page_of_entries [OF assms(3)] by (simp add: saved_texts_def save_pages_def rule_pages_def Let_def)
  then show ?thesis
    using saved_preview_entries [OF assms(1,2) saved_texts_plain [OF assms(3,4)]]
      read_saved_entries [OF assms(3) _ r, of "config_entries a"] assms(1)
    by (simp add: parse_beginner_config_def host_lines_def)
qed

section \<open>The rule pages hold other directives\<close>

lemma asset_keys_foreign: "list_all (\<lambda>k. k \<notin> set page_keys \<and> k \<notin> set upstream_keys) asset_keys"
  by code_simp

lemma lines_read_foreign:
  assumes "lines_read ls f"
  shows "plain_text (join [10] ls) \<and> foreign (config_entries (join [10] ls))"
proof -
  obtain es where "page_entries ls es" "fst ` set es \<subseteq> set asset_keys"
    using assms by (auto simp: lines_read_def)
  then show ?thesis
    using page_entries_read [of ls es] asset_keys_foreign by (auto simp: foreign_def list_all_iff)
qed

lemma wf_assets_foreign:
  assumes "wf_assets (parse_managed_assets_from_text (normalize_rules_text rules_text))"
  shows "foreign_rules rules_text"
  using lines_read_foreign [OF routing_lines_read [OF assms]] lines_read_foreign [OF rule_entries_lines_read [OF assms]]
    lines_read_foreign [OF sets_lines_read [OF assms]]
  by (simp add: foreign_rules_def rule_pages_def Let_def render_routing_items_text_def
    render_rule_entries_text_def render_sets_text_def)

section \<open>Reading files\<close>

definition text_at :: "file_system \<Rightarrow> ustr \<Rightarrow> ustr" where
  "text_at fs p = (case lookup_file fs p of None \<Rightarrow> [] | Some t \<Rightarrow> t)"

lemma saved_as_text: "saved_as p t fs \<Longrightarrow> text_at fs p = t"
  by (auto simp: saved_as_def text_at_def)

lemma read_text_at:
  "fs_ok fs \<Longrightarrow> read_text_or_default p fs = (Inr x,
    fs') \<Longrightarrow> fs' = fs \<and> x = text_at fs p"
  using read_fault_kind [of fs p]
  by (auto simp: text_at_def read_text_or_default_def read_to_string_def split: option.splits if_splits)

lemma io_bind_success:
  assumes "io_bind m f fs = (Inr y, fs')"
  obtains x fs1 where "m fs = (Inr x, fs1)" "f x fs1 = (Inr y, fs')"
  using assms by (auto simp: io_bind_def split: prod.splits sum.splits)

definition pages_at :: "file_system \<Rightarrow> ustr \<Rightarrow> managed_page_texts" where
  "pages_at fs d =
     \<lparr>pt_service = text_at fs (path_join d service_file_name),
       pt_upstreams = text_at fs (path_join d upstreams_file_name),
      pt_performance = text_at fs (path_join d performance_file_name),
        pt_routing = text_at fs (path_join d routing_file_name),
      pt_rules = text_at fs (path_join d rules_file_name), pt_sets = text_at fs (path_join d sets_file_name),
      pt_logging = text_at fs (path_join d logging_file_name),
        pt_network = text_at fs (path_join d network_file_name)\<rparr>"

lemma read_pages_at:
  assumes "fs_ok fs" "read_managed_page_texts d fs = (Inr pages, fs')"
  shows "fs' = fs \<and> pages = pages_at fs d"
  using assms(2) unfolding read_managed_page_texts_def
  by (elim io_bind_success) (auto dest!: read_text_at [OF assms(1)] simp: io_return_def pages_at_def)

lemma pages_at_saved:
  assumes "list_all (\<lambda>(n, t). saved_as (path_join d n) t fs) (save_pages c r)"
  shows "page_text_list (pages_at fs d) = map snd (save_pages c r)"
  using assms by (simp add: save_pages_def Let_def page_text_list_def pages_at_def saved_as_text)

lemma update_main_saved:
  assumes "fs_ok fs" "savable p" "update_main_config p rules_dir fs = (Inr (), fs')"
  shows "fs_ok fs'" "saved_as p (ensure_managed_block (text_at fs p) rules_dir) fs'"
    "files.agree_except {p, tmp_path p} fs fs'"
proof -
  let ?new = "ensure_managed_block (text_at fs p) rules_dir"
  have u: "(if ?new \<noteq> text_at fs p then write_text_atomic p ?new else io_return ()) fs = (Inr (), fs')"
    using assms(3) unfolding update_main_config_def
    by (elim io_bind_success) (auto dest: read_text_at [OF assms(1)] simp: Let_def)
  show "fs_ok fs'" "saved_as p ?new fs'" "files.agree_except {p, tmp_path p} fs fs'"
  proof (atomize(full), cases "?new = text_at fs p")
    case True
    then show "fs_ok fs' \<and> saved_as p ?new fs' \<and> files.agree_except {p, tmp_path p} fs fs'"
      using u assms(1) by (auto simp: io_return_def saved_as_def text_at_def files.agree_refl split: option.split)
  next
    case False
    then have w: "write_text_atomic p ?new fs = (Inr (), fs')" using u by simp
    have "lookup_file fs' p = Some ?new" by (rule write_text_atomic_outcome [OF w]) auto
    then show "fs_ok fs' \<and> saved_as p ?new fs' \<and> files.agree_except {p, tmp_path p} fs fs'"
      using fs_ok_write_atomic [OF assms(1) _ _ w] write_text_atomic_frame [OF w] assms(2)
      by (simp add: savable_def saved_as_def)
  qed
qed

section \<open>From the form to the form\<close>

definition page_names :: "ustr list" where
  "page_names = [service_file_name, upstreams_file_name, performance_file_name, routing_file_name,
     rules_file_name, sets_file_name, logging_file_name, network_file_name]"

text \<open>The main configuration and the pages do not get in each other's way.\<close>

definition store_ok :: "ustr \<Rightarrow> ustr \<Rightarrow> bool" where
  "store_ok config_file rules_dir \<longleftrightarrow>
     plain_dir (managed_conf_dir rules_dir) \<and>
     places_ok (config_file # map (path_join (managed_conf_dir rules_dir)) page_names)"

lemma page_paths_saved:
  "page_paths d (save_pages c r) = map (path_join d) page_names"
  by (simp add: page_paths_def save_pages_def Let_def page_names_def)

lemma saved_files:
  assumes "fs_ok fs" "store_ok config_file rules_dir" "vr_ok v"
    and "save_beginner_config config_file rules_dir request fs = (Inr v, fs')"
  shows "fs_ok fs'"
    "list_all (\<lambda>(n, t). saved_as (path_join (managed_conf_dir rules_dir) n) t fs')
       (save_pages (sc_beginner request) (sc_rules_text request))"
    "saved_as config_file (ensure_managed_block (text_at fs config_file) rules_dir) fs'"
proof -
  let ?d = "managed_conf_dir rules_dir" and ?pages = "save_pages (sc_beginner request) (sc_rules_text request)"
  have pl: "places_ok (page_paths ?d ?pages)" "savable config_file"
    "\<forall>q \<in> set (page_paths ?d ?pages). q \<notin> save_paths config_file \<and> config_file \<notin> save_paths q"
    using places_ok_Cons [of config_file "page_paths ?d ?pages"] assms(2)
    by (simp_all add: store_ok_def page_paths_saved)
  have "vr_ok (validate_beginner_config (sc_beginner request) (sc_rules_text request))"
    using assms(3,4) by (cases "vr_ok (validate_beginner_config (sc_beginner request) (sc_rules_text request))")
      (auto simp: save_beginner_config_def io_return_def Let_def)
  then obtain fs1 where w: "write_pages ?d ?pages fs = (Inr (), fs1)"
    and u: "update_main_config config_file rules_dir fs1 = (Inr (), fs')"
    using assms(4) by (auto simp: save_beginner_config_def Let_def io_return_def elim!: io_bind_success)
  note p = write_pages_saved [OF assms(1) pl(1) w]
  have "config_file \<notin> touched_paths (page_paths ?d ?pages)" using pl(3) by (auto simp: touched_paths_def)
  then have t: "text_at fs1 config_file = text_at fs config_file"
    using p by (simp add: text_at_def files.agree_except_def)
  note m = update_main_saved [OF _ pl(2) u]
  show "fs_ok fs'" "saved_as config_file (ensure_managed_block (text_at fs config_file) rules_dir) fs'"
    using m p t by simp_all
  have "saved_as (path_join ?d n) x fs'" if "(n, x) \<in> set ?pages" for n x
  proof -
    have "path_join ?d n \<in> set (page_paths ?d ?pages)" using that by (force simp: page_paths_def)
    then have "path_join ?d n \<notin> {config_file, tmp_path config_file}"
      using pl(3) by (auto simp: save_paths_def)
    then show ?thesis using p that saved_as_agree [OF m(3)] by (auto simp: list_all_iff)
  qed
  then show "list_all (\<lambda>(n, t). saved_as (path_join ?d n) t fs') ?pages" by (auto simp: list_all_iff)
qed

lemma overview_parts:
  assumes "fs_ok fs" "read_overview config_file rules_dir fs = (Inr ov, fs')"
  shows "co_beginner ov = parse_beginner_config
      (aggregate_text (effective_preview (text_at fs config_file) (page_text_list (pages_at fs (managed_conf_dir rules_dir))))
         (text_at fs config_file) (pages_at fs (managed_conf_dir rules_dir))) \<and>
    co_managed_block_present ov = str_contains managed_begin (text_at fs config_file) \<and>
    co_managed_assets ov = parse_managed_assets_from_text (rules_texts (pages_at fs (managed_conf_dir rules_dir)))"
  using assms(2) unfolding read_overview_def
proof (elim io_bind_success, goal_cases)
  case (1 m fs1 pages fs2 sources fs3)
  have m: "fs1 = fs" "m = text_at fs config_file" using read_text_at [OF assms(1) 1(1)] by simp_all
  have p: "fs2 = fs" "pages = pages_at fs (managed_conf_dir rules_dir)"
    using read_pages_at [OF assms(1)] 1(2) by (simp_all add: m)
  have s: "fs3 = fs" using 1(3) by (auto simp: p collect_config_sources_def split: option.splits sum.splits)
  have w: "fst (render_effective_config_preview (text_at fs config_file) rules_dir fs) =
      Inr (effective_preview (text_at fs config_file) (page_text_list (pages_at fs (managed_conf_dir rules_dir))))"
    using 1(2) by (simp add: m p render_effective_config_preview_def io_return_def io_bind_def)
  show ?case
    using 1(4) by (auto simp: s w m p Let_def io_return_def elim!: io_bind_success)
qed

text \<open>The working text of a saved configuration is not blank: the service page has directives.\<close>

lemma blank_no_entries: "trim s = [] \<Longrightarrow> config_entries s = []"
proof -
  assume "trim s = []"
  then have "norm_lines s = []" using norm_lines_trim [of s] by simp
  then show ?thesis using config_entries_text [of s] by (simp add: plain_text_def)
qed

lemma saved_preview_not_blank:
  assumes "host_lines a" "plain_dir (managed_conf_dir rules_dir)"
    and "clean_beginner (sc_beginner request)" "foreign_rules (sc_rules_text request)"
  shows "trim (effective_preview (block_prefix a @ managed_block rules_dir @
    [10]) (saved_texts request)) \<noteq> []"
proof
  let ?p = "effective_preview (block_prefix a @ managed_block rules_dir @ [10]) (saved_texts request)"
  assume "trim ?p = []"
  then have "config_entries ?p = []" by (rule blank_no_entries)
  then have "concat (map config_entries (saved_texts request)) = []"
    using saved_preview_entries [OF assms(1,2) saved_texts_plain [OF assms(3,4)]] by simp
  then have "basic_entries (sc_beginner request) = []"
    using page_of_entries [OF assms(3)] by (simp add: saved_texts_def save_pages_def Let_def basic_entries_def)
  then show False using basic_fields(3) [of "sc_beginner request"] by simp
qed

text \<open>After a save that reports success, on any file system and whatever operations fail, an
  overview that can be read shows the saved form: every field in its normal form beside the
  directives of the main configuration and of the rule pages, the managed block present, and the
  saved rules in the form the pages keep.\<close>

lemma saved_form_is_shown:
  assumes "fs_ok fs" "store_ok config_file rules_dir"
    and "host_lines a" "host_text rules_dir a (text_at fs config_file)"
    and "clean_beginner (sc_beginner request)"
    and "wf_assets (parse_managed_assets_from_text (normalize_rules_text (sc_rules_text request)))"
    and "save_beginner_config config_file rules_dir request fs = (Inr v, fs1)" "vr_ok v"
    and "read_overview config_file rules_dir fs1 = (Inr ov, fs2)"
  shows "co_managed_block_present ov \<and>
    co_beginner ov = shown (sc_beginner request)
      (config_entries a @ concat (map config_entries (rule_pages (sc_rules_text request)))) \<and>
    co_managed_assets ov = kept_assets (parse_managed_assets_from_text (normalize_rules_text (sc_rules_text request)))"
proof -
  let ?d = "managed_conf_dir rules_dir" and ?main = "block_prefix a @ managed_block rules_dir @ [10]"
  have d: "plain_dir ?d" using assms(2) by (simp add: store_ok_def)
  have f: "foreign_rules (sc_rules_text request)" by (rule wf_assets_foreign [OF assms(6)])
  note s = saved_files [OF assms(1,2,8,7)]
  note o = overview_parts [OF s(1) assms(9)]
  have m: "text_at fs1 config_file = ?main"
    using saved_as_text [OF s(3)] ensure_host [OF assms(3,4) d] by simp
  have p: "page_text_list (pages_at fs1 ?d) = saved_texts request"
    using pages_at_saved [OF s(2)] by (simp add: saved_texts_def)
  have "co_beginner ov = parse_beginner_config (effective_preview ?main (saved_texts request))"
    using o saved_preview_not_blank [OF assms(3) d assms(5) f] by (simp add: m p aggregate_text_def)
  moreover have "co_managed_block_present ov"
    using o str_contains_append [OF str_contains_refl, of managed_begin "block_prefix a"]
    by (simp add: m managed_block_lines)
  moreover have "rules_texts (pages_at fs1 ?d) = join_nonempty_sections (rule_pages (sc_rules_text request))"
    using p by (simp add: rules_texts_def rule_pages_def page_text_list_def saved_texts_def save_pages_def Let_def)
  ultimately show ?thesis
    using o preview_read [OF assms(3) d assms(5) f] rule_pages_read [OF assms(6)]
    by (simp add: rule_pages_def Let_def)
qed

section \<open>Without failures\<close>

lemma read_succeeds: "no_faults fs \<Longrightarrow> read_text_or_default p fs = (Inr (text_at fs p), fs)"
  by (simp add: no_faults_def read_text_or_default_value text_at_def)

lemma collect_succeeds:
  "no_faults fs \<Longrightarrow> collect n fs p g st \<noteq> Some (Inl e)"
  "no_faults fs \<Longrightarrow> collect_includes n fs p is st \<noteq> Some (Inl e)"
  by (induction n fs p g st and n fs p "is" st rule: collect_collect_includes.induct)
    (auto simp: read_succeeds Let_def split: option.splits sum.splits)

lemma collect_sources_succeeds:
  "no_faults fs \<Longrightarrow> \<exists>sources. collect_config_sources p fs = (Inr sources, fs)"
  using collect_succeeds(1) [of fs "include_fuel fs p" p None "({}, [])"]
  by (auto simp: collect_config_sources_def split: option.split sum.split)

lemma io_collect_succeeds:
  "(\<And>x. \<exists>y. f x fs = (Inr y, fs)) \<Longrightarrow> \<exists>ys. io_collect f xs fs = (Inr ys, fs)"
proof (induction xs)
  case (Cons x xs)
  then obtain y ys where "f x fs = (Inr y, fs)" "io_collect f xs fs = (Inr ys, fs)" by metis
  then show ?case by (simp add: io_bind_def io_return_def)
qed (simp add: io_return_def)

lemma overview_succeeds:
  assumes "no_faults fs"
  shows "\<exists>ov. read_overview config_file rules_dir fs = (Inr ov, fs)"
proof -
  obtain sources where "collect_config_sources config_file fs = (Inr sources, fs)"
    using collect_sources_succeeds [OF assms] by blast
  moreover have "\<exists>y. rule_file_info_of d n fs = (Inr y, fs)" for d n
    using read_succeeds [OF assms] by (simp add: rule_file_info_of_def Let_def io_bind_def io_return_def)
  then obtain infos where "io_collect (rule_file_info_of (managed_conf_dir rules_dir)) managed_file_names fs = (Inr infos, fs)"
    using io_collect_succeeds [of "rule_file_info_of (managed_conf_dir rules_dir)" fs] by blast
  moreover have "read_managed_page_texts d fs = (Inr (pages_at fs d), fs)" for d
    using read_succeeds [OF assms] by (simp add: read_managed_page_texts_def io_bind_def io_return_def pages_at_def)
  ultimately show ?thesis
    using read_succeeds [OF assms] by (simp add: read_overview_def io_bind_def io_return_def Let_def)
qed

lemma save_succeeds:
  assumes "fs_ok fs" "no_faults fs" "store_ok config_file rules_dir"
    and "vr_ok (validate_beginner_config (sc_beginner request) (sc_rules_text request))"
  obtains fs' where "save_beginner_config config_file rules_dir request fs =
      (Inr (validate_beginner_config (sc_beginner request) (sc_rules_text request)), fs')" "no_faults fs'"
proof -
  let ?d = "managed_conf_dir rules_dir" and ?pages = "save_pages (sc_beginner request) (sc_rules_text request)"
  have pl: "places_ok (page_paths ?d ?pages)"
    using places_ok_Cons [of config_file "page_paths ?d ?pages"] assms(3) by (simp add: store_ok_def page_paths_saved)
  obtain fs1 where w: "write_pages ?d ?pages fs = (Inr (), fs1)"
    using write_pages_succeeds [OF assms(1,2) pl] by (metis prod.collapse)
  have n: "no_faults fs1" using write_pages_saved [OF assms(1) pl w] assms(2) no_faults_same by blast
  obtain fs2 where u: "update_main_config config_file rules_dir fs1 = (Inr (), fs2)" "no_faults fs2"
  proof (cases "ensure_managed_block (text_at fs1 config_file) rules_dir = text_at fs1 config_file")
    case True
    then show ?thesis using that [of fs1] n read_succeeds [OF n] by (simp add: update_main_config_def io_bind_def io_return_def)
  next
    case False
    let ?new = "ensure_managed_block (text_at fs1 config_file) rules_dir"
    obtain fs2 where a: "write_text_atomic config_file ?new fs1 = (Inr (), fs2)"
      using write_atomic_succeeds [OF n, of config_file ?new] by (metis prod.collapse)
    have "no_faults fs2" using write_text_atomic_frame [OF a] n no_faults_same by blast
    then show ?thesis using that [of fs2] a False read_succeeds [OF n] by (simp add: update_main_config_def io_bind_def Let_def)
  qed
  show ?thesis
    by (rule that [of fs2]) (use w u assms(4) in \<open>simp_all add: save_beginner_config_def io_bind_def io_return_def Let_def\<close>)
qed

section \<open>Witness\<close>

definition sample_request_form :: save_config_request where
  "sample_request_form = \<lparr>sc_beginner = default_beginner_config,
    sc_rules_text = lit ''address /ads.example/#''\<rparr>"

definition sample_config_file :: ustr where "sample_config_file = lit ''/etc/smartdns/smartdns.conf''"

definition sample_rules :: ustr where "sample_rules = lit ''/etc/smartdns/rules''"

definition sample_store :: file_system where
  "sample_store = file_system_with [(sample_config_file, lit ''plugin ui.so'')]"

lemma sample_store_ok:
  "fs_ok sample_store" "no_faults sample_store" "store_ok sample_config_file sample_rules"
  by (simp add: sample_store_def, rule fs_ok_with, simp, code_simp)
    (simp add: sample_store_def no_faults_def file_system_with_def, code_simp)

lemma sample_host:
  "host_lines (lit ''plugin ui.so'')"
  "host_text sample_rules (lit ''plugin ui.so'') (text_at sample_store sample_config_file)"
  by code_simp (simp add: host_text_def sample_store_def file_system_with_def text_at_def lookup_file_def)

lemma sample_form: "sc_beginner sample_request_form = default_beginner_config"
  by (simp add: sample_request_form_def)

lemma sample_form_ok:
  "clean_beginner (sc_beginner sample_request_form)"
  "wf_assets (parse_managed_assets_from_text (normalize_rules_text (sc_rules_text sample_request_form)))"
  "vr_ok (validate_beginner_config (sc_beginner sample_request_form) (sc_rules_text sample_request_form))"
  by code_simp+

lemma sample_shown:
  "config_entries (lit ''plugin ui.so'') @
     concat (map config_entries (rule_pages (sc_rules_text sample_request_form))) =
   [(lit ''plugin'', lit ''ui.so''), (lit ''address'', lit ''/ads.example/ #'')]"
  by code_simp

end
