(* ===== verification/Http_Config.thy ===== *)
theory Http_Config
  imports Http_Api Config_Roundtrip
begin

text \<open>
  The configuration as the web page sees it: a form sent to \<open>/api/plus/save\<close> and the overview
  \<open>/api/plus/config\<close> answers with afterwards (\<open>src/src/http_server_api.rs\<close> over
  \<open>src/src/config_ui.rs\<close>).
\<close>

lemma finished_status: "hp_status (finished json c req (Inl e)) = he_code e"
  by (simp add: finished_def to_response_def)

lemmas file_handlers = payload_def file_call_def on_files_def or_error_def the_result_def read_body_def
  answer_json_def act_bind_def act_get_def act_return_def io_failure_def error_of_io_def

lemma save_served:
  assumes "asks env POST ''/api/plus/save'' param req" "authorized (ae_lib env) (ae_now env) (as_conf s) req"
    and "hr_body req = Body body" "ae_save_request env body = Inr form"
    and "save_beginner_config (hc_config_file (as_conf s)) (hc_rules_dir (as_conf s)) form (as_files s) = (r, fs)"
  obtains resp where "serve env asset tree req s = (Some resp, s\<lparr>as_files := fs\<rparr>)"
    "hp_status resp = (if isl r then 500 else 200)"
proof -
  obtain x t where h: "api_plus_save env param req s = (x, t)" by fastforce
  have "serve env asset tree req s = (Some (finished (ae_json env) (as_conf t) req x), t)"
    by (rule serve_asked [OF assms(1), of True "api_plus_save env"]) (use assms(2) h in \<open>simp_all add: api_table_def\<close>)
  moreover have "t = s\<lparr>as_files := fs\<rparr> \<and> hp_status (finished (ae_json env) (as_conf t) req x) = (if isl r then 500 else 200)"
    using h assms(3-5) by (cases r) (auto simp: api_plus_save_def file_handlers finished_status)
  ultimately show ?thesis using that by blast
qed

lemma config_served:
  assumes "asks env GET ''/api/plus/config'' param req" "authorized (ae_lib env) (ae_now env) (as_conf s) req"
    and "read_overview (hc_config_file (as_conf s)) (hc_rules_dir (as_conf s)) (as_files s) = (r, fs)"
  obtains resp where "serve env asset tree req s = (Some resp, s\<lparr>as_files := fs\<rparr>)"
    "hp_status resp = (if isl r then 500 else 200)"
    "\<forall>ov. r = Inr ov \<longrightarrow> hp_body resp = jl_to_string (ae_json env) (ae_overview_json env ov)"
proof -
  obtain x t where h: "api_plus_get_config env param req s = (x, t)" by fastforce
  have "serve env asset tree req s = (Some (finished (ae_json env) (as_conf t) req x), t)"
    by (rule serve_asked [OF assms(1), of True "api_plus_get_config env"]) (use assms(2) h in \<open>simp_all add: api_table_def\<close>)
  moreover have "t = s\<lparr>as_files := fs\<rparr> \<and>
      hp_status (finished (ae_json env) (as_conf t) req x) = (if isl r then 500 else 200) \<and>
      (\<forall>ov. r = Inr ov \<longrightarrow> hp_body (finished (ae_json env) (as_conf t) req x) =
        jl_to_string (ae_json env) (ae_overview_json env ov))"
    using h assms(3) by (cases r) (auto simp: api_plus_get_config_def file_handlers finished_status)
  ultimately show ?thesis using that by blast
qed


section \<open>A concrete form\<close>

definition form_env :: api_env where
  "form_env = (sample_env Null)\<lparr>ae_save_request := (\<lambda>t. Inr sample_request_form)\<rparr>"

definition form_state :: api_state where
  "form_state = (sample_state [] Map.empty)\<lparr>as_files := sample_store\<rparr>"

lemma form_asks:
  assumes "(m, path, auth, h) \<in> set (api_table form_env)" "is_api_path (lit path)"
  shows "asks form_env m path Map.empty (ask m path)"
  using path_registered [OF assms(1)] assms(2)
  by (simp add: asks_def ask_def request_to_def form_env_def sample_env_def exact_match_def)

lemma form_authorized: "authorized (ae_lib form_env) (ae_now form_env) sample_config (ask m path)"
  using sample_authorized [of Null m path] by (simp add: form_env_def)


end
