(* ===== verification/Log_Streams.thy ===== *)
theory Log_Streams
  imports Api_Msg
begin

text \<open>
  Distribution of log lines (\<open>src/src/server_log.rs\<close>) and the WebSocket sessions of
  \<open>src/src/http_server_stream.rs\<close>: log, audit log, metrics and terminal. A session is a function
  of the events its \<open>select!\<close> loop takes, in the order it takes them; the outcome of each write to
  the socket is part of the event that leads to it. WebSocket framing, pseudo terminals and
  processes are library code: a session records what it sends, writes and sets.
\<close>


section \<open>Distribution\<close>

text \<open>A bounded channel; it is closed when its receiver is gone.\<close>

record 'm channel =
  ch_queue :: "'m list"
  ch_open :: bool

definition channel_capacity :: nat where "channel_capacity = 4096"

datatype try_send_error = Full | Closed

definition try_send :: "'m \<Rightarrow> 'm channel \<Rightarrow> try_send_error option \<times> 'm channel" where
  "try_send m ch =
     (if \<not> ch_open ch then (Some Closed, ch)
      else if channel_capacity \<le> length (ch_queue ch) then (Some Full, ch)
      else (None, ch\<lparr>ch_queue := ch_queue ch @ [m]\<rparr>))"

definition get_stream :: "'m channel list \<Rightarrow> nat \<times> 'm channel list" where
  "get_stream streams = (length streams, streams @ [\<lparr>ch_queue = [], ch_open = True\<rparr>])"

text \<open>The loop over the enumerated streams, with the list of closed ones, and their removal from the
  last to the first.\<close>

fun send_each :: "'m \<Rightarrow> nat \<Rightarrow> 'm channel list \<Rightarrow> 'm channel list \<times> nat list" where
  "send_each m i [] = ([], [])"
| "send_each m i (ch # chs) =
     (let (r, ch') = try_send m ch; (chs', remove_list) = send_each m (Suc i) chs
      in (ch' # chs', if r = Some Closed then i # remove_list else remove_list))"

definition remove_at :: "nat \<Rightarrow> 'a list \<Rightarrow> 'a list" where
  "remove_at i xs = take i xs @ drop (Suc i) xs"

definition dispatch :: "'m \<Rightarrow> 'm channel list \<Rightarrow> 'm channel list" where
  "dispatch m streams =
     (if streams = [] then streams
      else let (streams', remove_list) = send_each m 0 streams
           in if 0 < length remove_list then fold remove_at (rev remove_list) streams' else streams')"

record log_msg =
  lm_level :: log_level
  lm_msg :: bytes
  lm_len :: i32

record audit_log_msg =
  am_msg :: bytes
  am_len :: i32

definition dispatch_log :: "log_level \<Rightarrow> bytes \<Rightarrow> i32 \<Rightarrow> log_msg channel list \<Rightarrow> log_msg channel list" where
  "dispatch_log level msg len = dispatch \<lparr>lm_level = level, lm_msg = msg, lm_len = len\<rparr>"

definition dispatch_audit_log :: "bytes \<Rightarrow> i32 \<Rightarrow> audit_log_msg channel list \<Rightarrow> audit_log_msg channel list" where
  "dispatch_audit_log msg len = dispatch \<lparr>am_msg = msg, am_len = len\<rparr>"

section \<open>Sessions\<close>

datatype ws_message = Text_Message bytes | Binary_Message bytes | Ping | Pong | Close_Message

text \<open>What the client's side of the socket yields: a message, its end or an error.\<close>

datatype ws_next = Message ws_message | Socket_End | Socket_Error ustr

datatype frame = Text_Frame ustr | Binary_Frame bytes | Close_Frame "(nat \<times> ustr) option"

text \<open>How a session goes on: \<open>Left\<close> leaves the loop,
  \<open>Failed\<close> is an early return by \<open>?\<close>, \<open>Panicked\<close> a
  panic of the task.\<close>

datatype verdict = Goes_On | Left | Failed ustr | Panicked

definition sent :: "verdict \<Rightarrow> (ustr, 'a) result \<Rightarrow> verdict" where
  "sent v r = (case r of Inr _ \<Rightarrow> v | Inl e \<Rightarrow> Failed e)"

record log_session =
  lg_paused :: bool
  lg_level :: log_level
  lg_frames :: "frame list"

text \<open>The event of a log session, with the result of the write to the socket it may lead to
  (\<open>Inr ()\<close> is success).\<close>

datatype 'm stream_event = Received "'m option" "(ustr, unit) result" | From_Client ws_next "(ustr,
  unit) result"

definition control_message :: "8 word" where "control_message = 1"
definition control_pause :: "8 word" where "control_pause = 1"
definition control_resume :: "8 word" where "control_resume = 2"
definition control_loglevel :: "8 word" where "control_loglevel = 3"

text \<open>The control messages; only the log stream knows the level message. \<open>utf8\<close> reads UTF-8.\<close>

definition log_level_control ::
    "(ustr \<Rightarrow> ustr) \<Rightarrow> (bytes \<Rightarrow> ustr option) \<Rightarrow> bytes \<Rightarrow> log_level option" where
  "log_level_control lower utf8 msg =
     (if length msg < 6 then None
      else case utf8 (drop 2 msg) of
        None \<Rightarrow> None
      | Some s \<Rightarrow> if s = [] then None else log_level_of_text lower (lower s))"

definition control ::
    "(bytes \<Rightarrow> log_level option) \<Rightarrow> bytes \<Rightarrow> log_session \<Rightarrow> log_session" where
  "control level msg s =
     (if length msg = 0 \<or> msg ! 0 \<noteq> control_message \<or> length msg < 2 then s
      else if msg ! 1 = control_pause then s\<lparr>lg_paused := True\<rparr>
      else if msg ! 1 = control_resume then s\<lparr>lg_paused := False\<rparr>
      else if msg ! 1 = control_loglevel then
        (case level msg of None \<Rightarrow> s | Some l \<Rightarrow> s\<lparr>lg_level := l\<rparr>)
      else s)"

definition stream_step ::
    "('m \<Rightarrow> bytes) \<Rightarrow> (bytes \<Rightarrow> log_level option) \<Rightarrow> 'm stream_event \<Rightarrow> log_session \<Rightarrow> verdict \<times> log_session" where
  "stream_step encode level ev s =
     (case ev of
        Received m r \<Rightarrow>
          if lg_paused s then (Goes_On, s)
          else (case m of
                  Some msg \<Rightarrow> (sent Goes_On r, s\<lparr>lg_frames := lg_frames s @
                    [Binary_Frame (encode msg)]\<rparr>)
                | None \<Rightarrow> (sent Left r, s\<lparr>lg_frames := lg_frames s @
                  [Close_Frame None]\<rparr>))
      | From_Client Socket_End r \<Rightarrow> (Failed (lit ''websocket closed''), s)
      | From_Client (Socket_Error e) r \<Rightarrow> (Failed e, s)
      | From_Client (Message (Binary_Message msg)) r \<Rightarrow> (Goes_On, control level msg s)
      | From_Client (Message Close_Message) r \<Rightarrow>
          (sent Left r, s\<lparr>lg_frames := lg_frames s @ [Close_Frame None]\<rparr>)
      | From_Client (Message _) r \<Rightarrow> (Goes_On, s))"

fun run_session :: "('e \<Rightarrow> 's \<Rightarrow> verdict \<times> 's) \<Rightarrow> 'e list \<Rightarrow> 's \<Rightarrow> verdict \<times> 's" where
  "run_session step [] s = (Goes_On, s)"
| "run_session step (ev # evs) s =
     (case step ev s of (Goes_On, s') \<Rightarrow> run_session step evs s' | (v, s') \<Rightarrow> (v, s'))"

definition encode_log :: "log_msg \<Rightarrow> bytes" where
  "encode_log m = [0, ucast (log_level_code (lm_level m))] @ lm_msg m"

definition encode_audit :: "audit_log_msg \<Rightarrow> bytes" where
  "encode_audit m = [0] @ am_msg m"

definition new_session :: "log_level \<Rightarrow> log_session" where
  "new_session level = \<lparr>lg_paused = False, lg_level = level, lg_frames = []\<rparr>"

text \<open>The guard keeps the level at the start and sets it again however the session ends.\<close>

definition serve_log_stream ::
    "(ustr \<Rightarrow> ustr) \<Rightarrow> (bytes \<Rightarrow> ustr option) \<Rightarrow> log_msg stream_event list \<Rightarrow> log_level \<Rightarrow>
      verdict \<times> frame list \<times> log_level" where
  "serve_log_stream lower utf8 evs level =
     (case run_session (stream_step encode_log (log_level_control lower utf8)) evs (new_session level) of
        (v, s) \<Rightarrow> (v, lg_frames s, if v = Goes_On then lg_level s else level))"

definition serve_audit_log_stream ::
    "bool \<Rightarrow> (ustr, unit) result \<Rightarrow> audit_log_msg stream_event list \<Rightarrow> log_level \<Rightarrow> verdict \<times> frame list" where
  "serve_audit_log_stream enabled r evs level =
     (if \<not> enabled
      then (sent Left r, [Close_Frame (Some (4003, lit ''Audit log is not enabled,
        please set `audit-enable` to `yes` in smartdns config file.''))])
      else case run_session (stream_step encode_audit (\<lambda>_. None)) evs (new_session level) of
        (v, s) \<Rightarrow> (v, lg_frames s))"

section \<open>Metrics\<close>

datatype metrics_event = Tick "(ustr, metrics_data) result" "(ustr, unit) result"
  | Metrics_Client ws_next "(ustr, unit) result"

definition metrics_step :: "json_lib \<Rightarrow> metrics_event \<Rightarrow> frame list \<Rightarrow> verdict \<times> frame list" where
  "metrics_step json ev frames =
     (case ev of
        Tick (Inr metrics) r \<Rightarrow> (sent Goes_On r, frames @
          [Text_Frame (api_msg_gen_metrics_data json metrics)])
      | Tick (Inl e) r \<Rightarrow> (sent Goes_On r, frames @ [Text_Frame ([123, 34] @ lit ''error'' @
        [34] @ lit '': '' @ [34] @ e @ [34, 125])])
      | Metrics_Client Socket_End r \<Rightarrow> (Failed (lit ''websocket closed''), frames)
      | Metrics_Client (Socket_Error e) r \<Rightarrow> (Failed e, frames)
      | Metrics_Client (Message Close_Message) r \<Rightarrow> (sent Left r, frames @ [Close_Frame None])
      | Metrics_Client (Message _) r \<Rightarrow> (Goes_On, frames))"

definition serve_metrics :: "json_lib \<Rightarrow> metrics_event list \<Rightarrow> verdict \<times> frame list" where
  "serve_metrics json evs = run_session (metrics_step json) evs []"

section \<open>Terminal\<close>

datatype term_message = Term_Data | Term_Err | Term_Resize | Term_Pause | Term_Resume

definition term_message_of :: "8 word \<Rightarrow> term_message option" where
  "term_message_of v =
     (if v = 0 then Some Term_Data else if v = 1 then Some Term_Err else if v = 2 then Some Term_Resize
      else if v = 3 then Some Term_Pause else if v = 4 then Some Term_Resume else None)"

text \<open>The program of the terminal: the first directory of the search path that has it.\<close>

definition find_cmd :: "ustr option \<Rightarrow> (ustr \<Rightarrow> bool) \<Rightarrow> ustr \<Rightarrow> ustr option" where
  "find_cmd env_path exists cmd =
     (case env_path of
        None \<Rightarrow> None
      | Some paths \<Rightarrow> find exists (map (\<lambda>p. p @ lit ''/'' @ cmd) (split_char 58 paths)))"

datatype term_program = Run_Su ustr | Run_Login ustr | Not_Root | No_Program

definition term_program_of :: "ustr option \<Rightarrow> ustr option \<Rightarrow> bool \<Rightarrow> term_program" where
  "term_program_of su_path login_path is_root =
     (case (su_path, login_path) of
        (Some su, None) \<Rightarrow> Run_Su su
      | (Some su, Some login) \<Rightarrow> if \<not> is_root then Run_Su su else Run_Login login
      | (None, Some login) \<Rightarrow> if \<not> is_root then Not_Root else Run_Login login
      | (None, None) \<Rightarrow> No_Program)"

record term_session =
  tm_paused :: bool
  tm_size :: "16 word \<times> 16 word"
  tm_input :: bytes
  tm_frames :: "frame list"

text \<open>A read of the pseudo terminal with the result of the write to the socket, or the client with
  that of a write to the terminal: the number of bytes it took, which may be less than all.\<close>

datatype term_event = Pty_Read "(ustr, bytes) result" "(ustr, unit) result"
  | Term_Client ws_next "(ustr, nat) result"

definition write_input :: "bytes \<Rightarrow> (ustr, nat) result \<Rightarrow> term_session \<Rightarrow> verdict \<times> term_session" where
  "write_input msg r s =
     (sent Goes_On r, s\<lparr>tm_input := tm_input s @ (case r of Inr n \<Rightarrow> take n msg | Inl _ \<Rightarrow> [])\<rparr>)"

definition be16 :: "8 word \<Rightarrow> 8 word \<Rightarrow> 16 word" where
  "be16 a b = ucast a * 256 + ucast b"

text \<open>\<open>send_error_msg\<close> makes the two messages,
  but drops the futures that would send them: nothing is
  sent; it panics when the message does not fit its buffer.\<close>

definition send_error_msg :: "ustr \<Rightarrow> verdict" where
  "send_error_msg msg = (if 4096 \<le> length msg then Panicked else Left)"

definition term_control :: "bytes \<Rightarrow> (ustr, nat) result \<Rightarrow> term_session \<Rightarrow> verdict \<times> term_session" where
  "term_control msg r s =
     (case msg of
        [] \<Rightarrow> (Goes_On, s)
      | t # body \<Rightarrow>
          (case term_message_of t of
             None \<Rightarrow> (send_error_msg (lit ''invalid message type''), s)
           | Some Term_Resize \<Rightarrow>
               if length body < 4 then (Panicked, s)
               else (Goes_On, s\<lparr>tm_size := (be16 (body ! 0) (body ! 1),
                 be16 (body ! 2) (body ! 3))\<rparr>)
           | Some Term_Pause \<Rightarrow> (Goes_On, s\<lparr>tm_paused := True\<rparr>)
           | Some Term_Resume \<Rightarrow> (Goes_On, s\<lparr>tm_paused := False\<rparr>)
           | Some Term_Data \<Rightarrow> write_input body r s
           | Some Term_Err \<Rightarrow> (Goes_On, s)))"

definition term_step :: "term_event \<Rightarrow> term_session \<Rightarrow> verdict \<times> term_session" where
  "term_step ev s =
     (case ev of
        Pty_Read (Inr []) r \<Rightarrow> (sent Left r, s\<lparr>tm_frames := tm_frames s @
          [Close_Frame None]\<rparr>)
      | Pty_Read (Inr d) r \<Rightarrow>
          if tm_paused s then (Goes_On, s)
          else (sent Goes_On r, s\<lparr>tm_frames := tm_frames s @ [Binary_Frame (0 # d)]\<rparr>)
      | Pty_Read (Inl e) r \<Rightarrow> (send_error_msg e, s)
      | Term_Client Socket_End r \<Rightarrow> (Failed (lit ''websocket closed''), s)
      | Term_Client (Socket_Error e) r \<Rightarrow> (Failed e, s)
      | Term_Client (Message (Text_Message msg)) r \<Rightarrow> write_input msg r s
      | Term_Client (Message (Binary_Message msg)) r \<Rightarrow> term_control msg r s
      | Term_Client (Message Close_Message) r \<Rightarrow> (Left, s)
      | Term_Client (Message _) r \<Rightarrow> (Goes_On, s))"

text \<open>Leaving the loop closes the terminal and kills the shell; an early return and a panic do not.
  \<open>pty\<close> is the outcome of \<open>forkpty\<close> and of the registration of its descriptor; the last component
  says that no shell is left running.\<close>

definition serve_term ::
    "(ustr, (ustr, unit) result) result \<Rightarrow> term_event list \<Rightarrow> verdict \<times> term_session \<times> bool" where
  "serve_term pty evs =
     (let start = \<lparr>tm_paused = False, tm_size = (80, 24), tm_input = [], tm_frames = []\<rparr>
      in case pty of
           Inl e \<Rightarrow> (Failed (lit ''forkpty failed, error: '' @ e), start, True)
         | Inr (Inl e) \<Rightarrow> (Failed e, start, True)
         | Inr (Inr _) \<Rightarrow>
             (case run_session term_step evs start of (v, s) \<Rightarrow> (v, s, v = Left)))"

section \<open>Dispatching reaches every open stream\<close>

definition offered :: "'m \<Rightarrow> 'm channel \<Rightarrow> 'm channel" where
  "offered m ch = snd (try_send m ch)"

lemma try_send_closed: "fst (try_send m ch) = Some Closed \<longleftrightarrow> \<not> ch_open ch"
  by (simp add: try_send_def)

lemma send_each_fields:
  "fst (send_each m i chs) = map (offered m) chs"
  "snd (send_each m (Suc i) chs) = map Suc (snd (send_each m i chs))"
  by (induction chs arbitrary: i) (simp_all add: offered_def Let_def case_prod_beta)

lemma fold_remove_at_later:
  "(\<And>i. i \<in> set is \<Longrightarrow> 0 < i) \<Longrightarrow> xs \<noteq> [] \<Longrightarrow>
    fold remove_at is xs = hd xs # fold remove_at (map (\<lambda>i. i - 1) is) (tl xs)"
proof (induction "is" arbitrary: xs)
  case (Cons i js)
  obtain y ys where xs: "xs = y # ys" using Cons.prems(2) by (cases xs) auto
  obtain j where i: "i = Suc j" using Cons.prems(1) [of i] by (cases i) auto
  have "remove_at i xs = y # remove_at j ys" by (simp add: remove_at_def xs i)
  then show ?case using Cons.IH [of "y # remove_at j ys"] Cons.prems(1) by (simp add: xs i)
qed simp

lemma remove_first: "remove_at 0 (x # xs) = xs"
  by (simp add: remove_at_def)

lemma removed_streams:
  "fold remove_at (rev (snd (send_each m 0 chs))) (map (offered m) chs) = map (offered m) (filter ch_open chs)"
proof (induction chs)
  case (Cons ch chs)
  let ?gone = "snd (send_each m 0 chs)"
  have "fold remove_at (rev (map Suc ?gone)) (offered m ch # map (offered m) chs) =
      offered m ch # fold remove_at (map (\<lambda>i. i - 1) (rev (map Suc ?gone))) (map (offered m) chs)"
    by (subst fold_remove_at_later) auto
  moreover have "map (\<lambda>i. i - 1) (rev (map Suc ?gone)) = rev ?gone"
    by (simp add: rev_map comp_def)
  ultimately have "fold remove_at (rev (map Suc ?gone)) (offered m ch # map (offered m) chs) =
      offered m ch # map (offered m) (filter ch_open chs)" by (simp only: Cons.IH)
  then show ?case
    by (simp add: Let_def case_prod_beta send_each_fields(2) try_send_closed remove_first)
qed simp

theorem dispatch_open_streams: "dispatch m streams = map (offered m) (filter ch_open streams)"
  using removed_streams [of m streams]
  by (auto simp: dispatch_def Let_def case_prod_beta send_each_fields(1))

lemma offered_open [simp]: "ch_open (offered m ch) = ch_open ch"
  by (simp add: offered_def try_send_def)

lemma offered_queue:
  "ch_open ch \<Longrightarrow> length (ch_queue ch) \<le> channel_capacity \<Longrightarrow>
    offered m ch = ch\<lparr>ch_queue := take channel_capacity (ch_queue ch @ [m])\<rparr>"
  by (simp add: offered_def try_send_def)

text \<open>C32: Messages dispatched one after the other reach every open stream in order, up to the
  capacity of its channel, and drop the streams whose receiver is gone, wherever they stand in
  the list.\<close>

theorem streams_get_first_messages:
  assumes "\<And>ch. ch \<in> set streams \<Longrightarrow> length (ch_queue ch) \<le> channel_capacity" "ms \<noteq> []"
  shows "fold dispatch ms streams =
    map (\<lambda>ch. ch\<lparr>ch_queue := take channel_capacity (ch_queue ch @
      ms)\<rparr>) (filter ch_open streams)"
  using assms
proof (induction ms arbitrary: streams)
  case (Cons m ms)
  have d: "dispatch m streams =
      map (\<lambda>ch. ch\<lparr>ch_queue := take channel_capacity (ch_queue ch @
        [m])\<rparr>) (filter ch_open streams)"
    using Cons.prems(1) by (simp add: dispatch_open_streams offered_queue)
  show ?case
  proof (cases "ms = []")
    case False
    have "fold dispatch ms (dispatch m streams) =
        map (\<lambda>ch. ch\<lparr>ch_queue := take channel_capacity (ch_queue ch @ ms)\<rparr>)
          (filter ch_open (dispatch m streams))"
      by (rule Cons.IH) (use d False in auto)
    moreover have "take channel_capacity (take channel_capacity (q @ [m]) @
      ms) = take channel_capacity (q @ m # ms)"
      if "length q \<le> channel_capacity" for q
      using that by (cases "length q = channel_capacity") (simp_all add: min_def)
    ultimately show ?thesis using Cons.prems(1) by (simp add: d filter_map comp_def)
  qed (use d in simp)
qed simp

section \<open>Sessions\<close>

text \<open>A paused log session whose sender is gone: \<open>recv\<close> yields \<open>None\<close> at once, again and again.\<close>

theorem paused_session_never_leaves:
  assumes "lg_paused s"
  shows "run_session (stream_step encode level) (replicate n (Received None r)) s = (Goes_On, s)"
  using assms by (induction n) (simp_all add: stream_step_def)

lemma five_bytes_set_no_level: "length msg = 5 \<Longrightarrow> log_level_control lower utf8 msg = None"
  by (simp add: log_level_control_def)

lemma short_resize_panics: "term_control [2, a, b, c] r s = (Panicked, s)"
  by (simp add: term_control_def term_message_of_def)

lemma run_session_append:
  "run_session step evs s = (Goes_On, s') \<Longrightarrow> run_session step (evs @
    evs') s = run_session step evs' s'"
  by (induction evs arbitrary: s) (auto split: prod.splits verdict.splits)

lemma lost_client_leaves_shell:
  assumes "serve_term (Inr (Inr u)) evs = (Goes_On, s, k)"
  shows "serve_term (Inr (Inr u)) (evs @ [Term_Client Socket_End r]) =
    (Failed (lit ''websocket closed''), s, False)"
  using assms by (auto simp: serve_term_def run_session_append term_step_def Let_def split: prod.splits)

section \<open>The log level and concurrent sessions\<close>

text \<open>The level is one for the server; sessions start, set it and end in any order. \<open>sessions\<close> holds
  what each guard has kept.\<close>

datatype level_event = Session_Start nat | Session_Level log_level | Session_End nat

type_synonym level_state = "log_level \<times> (nat \<rightharpoonup> log_level)"

fun level_step :: "level_event \<Rightarrow> level_state \<Rightarrow> level_state" where
  "level_step (Session_Start i) (level, kept) = (level, kept(i \<mapsto> level))"
| "level_step (Session_Level l) (level, kept) = (l, kept)"
| "level_step (Session_End i) (level, kept) =
     (case kept i of None \<Rightarrow> (level, kept) | Some l \<Rightarrow> (l, kept(i := None)))"

definition run_levels :: "level_event list \<Rightarrow> level_state \<Rightarrow> level_state" where
  "run_levels evs = fold level_step evs"

lemma run_levels_simps [simp]:
  "run_levels [] s = s" "run_levels (ev # evs) s = run_levels evs (level_step ev s)"
  "run_levels (evs @ evs') s = run_levels evs' (run_levels evs s)"
  by (simp_all add: run_levels_def)

lemma other_guards_kept:
  "Session_Start i \<notin> set evs \<Longrightarrow> Session_End i \<notin> set evs \<Longrightarrow> snd (run_levels evs s) i = snd s i"
proof (induction evs arbitrary: s)
  case (Cons ev evs)
  obtain level kept where s: "s = (level, kept)" by fastforce
  have "snd (level_step ev s) i = kept i"
    using Cons.prems by (cases ev) (auto simp: s split: option.split)
  then show ?case using Cons by (simp add: s)
qed simp

lemma nested_session_restores:
  assumes "Session_Start i \<notin> set inner" "Session_End i \<notin> set inner"
  shows "fst (run_levels (Session_Start i # inner @ [Session_End i]) s) = fst s"
proof -
  obtain level kept where s: "s = (level, kept)" by fastforce
  obtain level' kept' where r: "run_levels inner (level, kept(i \<mapsto> level)) = (level',
    kept')" by fastforce
  then have "kept' i = Some level" using other_guards_kept [OF assms, of "(level,
    kept(i \<mapsto> level))"] by simp
  then show ?thesis by (simp add: s r)
qed

text \<open>Two sessions that overlap without nesting leave the level of the first for good.\<close>

text \<open>When a log session that has changed the level ends while a session started after the
  change is open, the end of the later one sets the changed level again: the level of the
  beginning is lost.\<close>

theorem overlapping_sessions_keep_level:
  assumes "i \<noteq> j" "kept i = None" "kept j = None"
  shows "run_levels [Session_Start i, Session_Level l, Session_Start j, Session_End i, Session_End j]
      (level, kept) = (l, kept)"
  using assms by (simp add: fun_eq_iff)

theorem streams_get_first_messages_witness:
  "fold dispatch ''ab'' [\<lparr>ch_queue = [], ch_open = True\<rparr>, \<lparr>ch_queue = [],
    ch_open = False\<rparr>] =
    [\<lparr>ch_queue = ''ab'', ch_open = True\<rparr>]"
proof -
  let ?streams = "[\<lparr>ch_queue = [], ch_open = True\<rparr>, \<lparr>ch_queue = [],
    ch_open = False\<rparr>]"
  have "fold dispatch ''ab'' ?streams =
      map (\<lambda>ch. ch\<lparr>ch_queue := take channel_capacity (ch_queue ch @
        ''ab'')\<rparr>) (filter ch_open ?streams)"
    by (rule streams_get_first_messages) auto
  then show ?thesis by (simp add: channel_capacity_def del: fold_simps)
qed

theorem overlapping_sessions_keep_level_witness:
  "fst (run_levels [Session_Start 0, Session_Level DEBUG, Session_Start 1, Session_End 0, Session_End 1]
     (INFO, Map.empty)) = DEBUG"
  using overlapping_sessions_keep_level [of 0 1 Map.empty DEBUG INFO] by simp
end
