(* ===== verification/Http_Listener.thy ===== *)
theory Http_Listener
  imports Http_Server
begin

text \<open>
  The listening side of the HTTP server (\<open>http_server_loop\<close> and the connection handlers of
  \<open>src/src/http_server.rs\<close>, with \<open>smartdns_get_cert\<close> of \<open>src/src/smartdns.rs\<close>): what it listens at,
  with which certificate, and its loop as a function of the events it selects. URL and address
  parsing, files, PEM and TLS are library and system code and arguments (\<open>listen_lib\<close>).
\<close>

section \<open>Parameters\<close>

text \<open>What parsing a URL gives: \<open>url::Url\<close> writes the scheme in lower case and has no port when none
  is written and when the written one is the scheme's own.\<close>

record listen_url =
  lu_scheme :: ustr
  lu_host :: "ustr option"
  lu_port :: "u16 option"

text \<open>\<open>ll_get_cert\<close> is the value of the C function and what it leaves in the buffers for key and
  certificate; \<open>ll_private_key\<close> has no key when the file holds none; \<open>ll_bind\<close> gives the address that
  was bound.\<close>

record listen_lib =
  ll_https :: bool
  ll_parse_url :: "ustr \<Rightarrow> (ustr, listen_url) result"
  ll_get_cert :: "i32 \<times> ustr \<times> ustr"
  ll_open :: "ustr \<Rightarrow> (ustr, bytes) result"
  ll_certs :: "bytes \<Rightarrow> (ustr, bytes list) result"
  ll_private_key :: "bytes \<Rightarrow> (ustr, bytes option) result"
  ll_single_cert :: "bytes list \<Rightarrow> bytes \<Rightarrow> (ustr, unit) result"
  ll_socket_addr :: "ustr \<Rightarrow> (ustr, ustr) result"
  ll_bind :: "ustr \<Rightarrow> (ustr, ustr) result"

text \<open>The task ends with an error, or it panics (\<open>unwrap\<close> of a missing private key).\<close>

datatype listen_error = Listen_Failed ustr | Listen_Panic

abbreviation try_listen :: "(ustr, 'a) result \<Rightarrow> ('a \<Rightarrow> (listen_error, 'b) result) \<Rightarrow> (listen_error, 'b) result" where
  "try_listen r f \<equiv> bind_result (map_err Listen_Failed r) f"

section \<open>Listening\<close>

record smartdns_cert =
  sk_key :: ustr
  sk_cert :: ustr
  sk_password :: ustr

definition smartdns_get_cert :: "i32 \<times> ustr \<times> ustr \<Rightarrow> (ustr, smartdns_cert) result" where
  "smartdns_get_cert answer =
     (case answer of (ret, key, cert) \<Rightarrow>
        if ret \<noteq> 0 then Inl (lit ''get cert error'')
        else Inr \<lparr>sk_key = key, sk_cert = cert, sk_password = []\<rparr>)"

text \<open>Certificates that can not be read are an empty chain.\<close>

definition tls_acceptor :: "listen_lib \<Rightarrow> (listen_error, unit) result" where
  "tls_acceptor lib =
     try_listen (smartdns_get_cert (ll_get_cert lib)) (\<lambda>cert_info.
     try_listen (ll_open lib (sk_cert cert_info)) (\<lambda>cert_file.
     let cert_chain = (case ll_certs lib cert_file of Inl e \<Rightarrow> [] | Inr certs \<Rightarrow> certs)
     in try_listen (ll_open lib (sk_key cert_info)) (\<lambda>key_file.
        try_listen (ll_private_key lib key_file) (\<lambda>key_der.
        case key_der of
          None \<Rightarrow> Inl Listen_Panic
        | Some key \<Rightarrow> map_err Listen_Failed (ll_single_cert lib cert_chain key)))))"

text \<open>Whether connections are wrapped in TLS; without the feature an https URL is refused.\<close>

definition listen_scheme :: "listen_lib \<Rightarrow> listen_url \<Rightarrow> (listen_error, bool) result" where
  "listen_scheme lib url =
     (if lu_scheme url \<noteq> lit ''https'' then Inr False
      else if ll_https lib then bind_result (tls_acceptor lib) (\<lambda>_. Inr True)
      else Inl (Listen_Failed (lit ''https is not supported.'')))"

definition sock_addr_text :: "listen_url \<Rightarrow> ustr" where
  "sock_addr_text url =
     (case lu_host url of None \<Rightarrow> lit ''127.0.0.1'' | Some host \<Rightarrow> host) @ lit '':'' @
     dec_digits (unat (case lu_port url of None \<Rightarrow> 80 | Some port \<Rightarrow> port))"

record listener =
  li_addr :: ustr
  li_tls :: bool

definition open_listener :: "listen_lib \<Rightarrow> http_server_config \<Rightarrow> (listen_error, listener) result" where
  "open_listener lib conf =
     try_listen (ll_parse_url lib (hc_http_ip conf)) (\<lambda>url.
     bind_result (listen_scheme lib url) (\<lambda>tls.
     try_listen (ll_socket_addr lib (sock_addr_text url)) (\<lambda>sock_addr.
     try_listen (ll_bind lib sock_addr) (\<lambda>addr.
     Inr \<lparr>li_addr = addr, li_tls = tls\<rparr>))))"

section \<open>The loop\<close>

text \<open>What \<open>select!\<close> takes next: the notification of \<open>stop_http_server\<close> (or the end of its channel), or
  the outcome of \<open>accept\<close>, a connection with the outcomes of the three socket options whose errors
  are passed on, in their order.\<close>

datatype 'c listen_event =
    Stop_Notified
  | Accepted 'c "(ustr, unit) result" "(ustr, unit) result" "(ustr, unit) result"
  | Accept_Failed ustr

text \<open>The connections handed to a handler, each with whether it goes through the TLS acceptor, and
  the value of the loop once it has ended.\<close>

record 'c http_loop =
  lp_served :: "('c \<times> bool) list"
  lp_end :: "(ustr, unit) result option"

definition new_loop :: "'c http_loop" where
  "new_loop = \<lparr>lp_served = [], lp_end = None\<rparr>"

fun event_end :: "'c listen_event \<Rightarrow> (ustr, unit) result option" where
  "event_end Stop_Notified = Some (Inr ())"
| "event_end (Accept_Failed e) = None"
| "event_end (Accepted c keepalive nonblocking nodelay) =
     (case bind_result keepalive (\<lambda>_. bind_result nonblocking (\<lambda>_. nodelay)) of
        Inl e \<Rightarrow> Some (Inl e)
      | Inr _ \<Rightarrow> None)"

fun event_served :: "bool \<Rightarrow> 'c listen_event \<Rightarrow> ('c \<times> bool) list" where
  "event_served tls (Accepted c _ _ _) = [(c, tls)]"
| "event_served tls _ = []"

definition http_loop_step :: "bool \<Rightarrow> 'c listen_event \<Rightarrow> 'c http_loop \<Rightarrow> 'c http_loop" where
  "http_loop_step tls ev s =
     (if lp_end s \<noteq> None then s
      else case event_end ev of
             Some r \<Rightarrow> s\<lparr>lp_end := Some r\<rparr>
           | None \<Rightarrow> s\<lparr>lp_served := lp_served s @ event_served tls ev\<rparr>)"

text \<open>A TLS handshake has 60 seconds; the outer error is the timeout. Only a connection whose
  handshake ends well is served.\<close>

definition handle_tls_accept :: "(ustr, (ustr, 's) result) result \<Rightarrow> 's option" where
  "handle_tls_accept tmout =
     (case tmout of Inl e \<Rightarrow> None | Inr (Inl e) \<Rightarrow> None | Inr (Inr stream) \<Rightarrow> Some stream)"

section \<open>Facts\<close>

text \<open>The port of an https URL without a port of its own.\<close>

lemma default_port_is_80:
  "lu_host url = Some h \<Longrightarrow> lu_port url = None \<Longrightarrow> sock_addr_text url = h @ lit '':80''"
proof -
  have "dec_digits 80 = lit ''80''" by code_simp
  then show "lu_host url = Some h \<Longrightarrow> lu_port url = None \<Longrightarrow> sock_addr_text url = h @ lit '':80''"
    by (simp add: sock_addr_text_def lit_Cons)
qed

lemma missing_key_panics:
  assumes "smartdns_get_cert (ll_get_cert lib) = Inr info" "ll_open lib (sk_cert info) = Inr cert_file"
    "ll_open lib (sk_key info) = Inr key_file" "ll_private_key lib key_file = Inr None"
  shows "tls_acceptor lib = Inl Listen_Panic"
  using assms by (simp add: tls_acceptor_def Let_def)

lemma listener_tls_iff:
  assumes "open_listener lib conf = Inr l" "ll_parse_url lib (hc_http_ip conf) = Inr url"
  shows "li_tls l \<longleftrightarrow> lu_scheme url = lit ''https''" "li_tls l \<Longrightarrow> ll_https lib \<and> tls_acceptor lib = Inr ()"
  using assms by (auto simp: open_listener_def listen_scheme_def bind_result_def map_err_def
    split: if_splits sum.splits)

lemma ended_loop_stays: "lp_end s \<noteq> None \<Longrightarrow> fold (http_loop_step tls) evs s = s"
  by (induction evs) (simp_all add: http_loop_step_def)

text \<open>Every connection accepted before the loop ends is handed on, in order, and the loop ends with
  the first notification or refused socket option, errors of \<open>accept\<close> not among them.\<close>

lemma loop_run:
  assumes "lp_end s = None"
  shows "fold (http_loop_step tls) evs s =
    \<lparr>lp_served = lp_served s @ concat (map (event_served tls) (takeWhile (\<lambda>ev. event_end ev = None) evs)),
     lp_end = (case dropWhile (\<lambda>ev. event_end ev = None) evs of [] \<Rightarrow> None | ev # _ \<Rightarrow> event_end ev)\<rparr>"
  using assms
proof (induction evs arbitrary: s)
  case (Cons ev evs)
  show ?case
  proof (cases "event_end ev")
    case None
    then show ?thesis using Cons.IH [of "http_loop_step tls ev s"] Cons.prems
      by (simp add: http_loop_step_def)
  next
    case (Some r)
    then have e: "http_loop_step tls ev s = \<lparr>lp_served = lp_served s, lp_end = Some r\<rparr>"
      using Cons.prems by (cases s) (simp add: http_loop_step_def)
    then have "lp_end (http_loop_step tls ev s) \<noteq> None" by simp
    from ended_loop_stays [OF this] show ?thesis using Some by (simp add: e)
  qed
qed simp

text \<open>A client's connection can end the server: the first socket option that is refused.\<close>

lemma refused_option_ends_loop:
  "fold (http_loop_step tls) (Accepted c (Inl e) r r' # evs) new_loop = \<lparr>lp_served = [], lp_end = Some (Inl e)\<rparr>"
  by (subst loop_run) (simp_all add: new_loop_def)

end
