(* ===== verification/Plugin.thy ===== *)
theory Plugin
  imports Data_Server Http_Listener Log_Streams Smartdns_Objects
begin

text \<open>
  The life of the plugin (\<open>src/src/plugin.rs\<close>, with \<open>DataServerControl\<close> and \<open>HttpServerControl\<close>):
  its arguments, the loading of the settings before and after the database is open, the start and
  the stop of the two servers, and the callbacks of the DNS server (\<open>src/src/smartdns.rs\<close>,
  \<open>src/src/lib.rs\<close>). Option parsing is the library \<open>getopts\<close>; hashes, secrets,
    full paths and the
  outcome of listening at an address are parameters.
\<close>

section \<open>State\<close>

text \<open>A server task takes the receiving ends of its channels when it starts; they are made once, so
  a task started later finds none and panics.\<close>

datatype task_life = Never_Started | Is_Running | Is_Over

record plugin =
  pl_is_start :: bool
  pl_http_conf :: http_server_config
  pl_data_conf :: data_server_config
  pl_data :: data_server
  pl_data_init :: bool
  pl_data_run :: bool
  pl_data_thread :: bool
  pl_data_task :: task_life
  pl_server_conf :: http_server_config
  pl_conf_poisoned :: bool
  pl_http_thread :: bool
  pl_http_task :: task_life
  pl_log_level :: log_level
  pl_log_streams :: "log_msg channel list"
  pl_audit_streams :: "audit_log_msg channel list"
  pl_exit_status :: "i32 option"

text \<open>What the plugin is run in: the configuration of the DNS server, its paths,
  \<open>getopts\<close> (after the
  program name), the hash of a password, the secrets made by the loads, the permission of a
  directory and the outcome of listening at an address.\<close>

record plugin_env =
  pe_lower :: "ustr \<Rightarrow> ustr"
  pe_config :: "ustr \<Rightarrow> ustr option"
  pe_full_path :: "ustr \<Rightarrow> ustr"
  pe_getopts :: "ustr list \<Rightarrow> (ustr, string \<Rightarrow> ustr option) result"
  pe_hash :: "ustr \<Rightarrow> ustr"
  pe_secret :: "nat \<Rightarrow> ustr"
  pe_writable :: "ustr \<Rightarrow> bool"
  pe_listen :: listen_lib

datatype start_error = Bad_Arguments ustr | Bad_Token_Expire | Not_Opened init_error
  | Not_Initialised | Start_Panic

type_synonym 'a plugin_act = "(plugin, start_error, 'a) act"

definition new_plugin ::
    "ustr \<Rightarrow> u64 \<Rightarrow> db \<Rightarrow> http_server_config \<Rightarrow> http_server_config \<Rightarrow> log_level \<Rightarrow> plugin" where
  "new_plugin data_dir now d http_conf server_conf level =
     \<lparr>pl_is_start = False, pl_http_conf = http_conf, pl_data_conf = new_data_server_config data_dir,
      pl_data = new_data_server data_dir now d, pl_data_init = False, pl_data_run = False,
      pl_data_thread = False, pl_data_task = Never_Started, pl_server_conf = server_conf,
      pl_conf_poisoned = False, pl_http_thread = False, pl_http_task = Never_Started,
      pl_log_level = level, pl_log_streams = [], pl_audit_streams = [], pl_exit_status = None\<rparr>"

section \<open>Arguments\<close>

definition when_given :: "'a option \<Rightarrow> ('a \<Rightarrow> 's \<Rightarrow> 's) \<Rightarrow> 's \<Rightarrow> 's" where
  "when_given v f s = (case v of None \<Rightarrow> s | Some x \<Rightarrow> f x s)"

text \<open>The settings of the configuration file and of the options, in the order of the source.\<close>

definition argument_settings ::
    "plugin_env \<Rightarrow> (string \<Rightarrow> ustr option) \<Rightarrow> http_server_config \<Rightarrow> http_server_config" where
  "argument_settings env opt c =
     (let c = when_given (pe_config env (lit ''smartdns-plus-ui.www-root''))
                (\<lambda>v c. c\<lparr>hc_http_root := pe_full_path env v\<rparr>) c;
          c = when_given (pe_config env (lit ''smartdns-plus-ui.config-file''))
                (\<lambda>v c. c\<lparr>hc_config_file := pe_full_path env v\<rparr>) c;
          c = when_given (pe_config env (lit ''smartdns-plus-ui.rules-dir''))
                (\<lambda>v c. c\<lparr>hc_rules_dir := pe_full_path env v\<rparr>) c;
          c = when_given (pe_config env (lit ''smartdns-plus-ui.ip'')) (\<lambda>v c. c\<lparr>hc_http_ip := v\<rparr>) c;
          c = when_given (opt ''i'') (\<lambda>v c. c\<lparr>hc_http_ip := v\<rparr>) c;
          c = when_given (opt ''r'') (\<lambda>v c. c\<lparr>hc_http_root := v\<rparr>) c;
          c = when_given (opt ''config-file'') (\<lambda>v c. c\<lparr>hc_config_file := v\<rparr>) c
      in when_given (opt ''rules-dir'') (\<lambda>v c. c\<lparr>hc_rules_dir := v\<rparr>) c)"

definition parser_args :: "plugin_env \<Rightarrow> ustr list \<Rightarrow> unit plugin_act" where
  "parser_args env args pl =
     (if length args = 0 then (Inr (), pl)
      else case pe_getopts env (tl args) of
        Inl e \<Rightarrow> (Inl (Bad_Arguments e), pl)
      | Inr opt \<Rightarrow>
          (let pl = pl\<lparr>pl_http_conf := argument_settings env opt (pl_http_conf pl)\<rparr>;
               token_expire = or_else (pe_config env (lit ''smartdns-plus-ui.token-expire'')) (opt ''token-expire'');
               data_dir = (\<lambda>pl. when_given (opt ''data-dir'')
                 (\<lambda>v pl. pl\<lparr>pl_data_conf := (pl_data_conf pl)\<lparr>dc_data_path := v\<rparr>\<rparr>) pl)
           in case token_expire of
                None \<Rightarrow> (Inr (), data_dir pl)
              | Some s \<Rightarrow>
                  (case parse_uint (2 ^ 32) s of
                     None \<Rightarrow> (Inl Bad_Token_Expire, pl)
                   | Some n \<Rightarrow> (Inr (), data_dir (pl\<lparr>pl_http_conf :=
                       (pl_http_conf pl)\<lparr>hc_token_expired_time := of_nat n\<rparr>\<rparr>)))))"

section \<open>Settings\<close>

text \<open>The settings the database holds under the keys, one call each: an error counts as a missing
  setting, a panic of the call ends the start.\<close>

fun read_stored :: "ustr list \<Rightarrow> (ustr \<Rightarrow> ustr option) \<Rightarrow> (ustr \<Rightarrow> ustr option) plugin_act" where
  "read_stored [] m pl = (Inr m, pl)"
| "read_stored (key # keys) m pl =
     (case with_db (get_config key) (pl_data pl) of
        (Inl Db_Panic, sv) \<Rightarrow> (Inl Start_Panic, pl\<lparr>pl_data := sv\<rparr>)
      | (Inl _, sv) \<Rightarrow> read_stored keys (m(key := None)) (pl\<lparr>pl_data := sv\<rparr>)
      | (Inr v, sv) \<Rightarrow> read_stored keys (m(key := v)) (pl\<lparr>pl_data := sv\<rparr>))"

definition data_keys :: "ustr list" where
  "data_keys = [lit ''smartdns-plus-ui.max-query-log-age'', lit ''log-level'']"

definition http_keys :: "ustr list" where
  "http_keys = [password_key, jwt_secret_key, lit ''smartdns-plus-ui.user'',
     lit ''smartdns-plus-ui.token-expire'', lit ''enable_cors'']"

definition later_http_keys :: "ustr list" where
  "later_http_keys = [lit ''smartdns-plus-ui.enable-terminal'',
     lit ''smartdns-plus-ui.config-file'', lit ''smartdns-plus-ui.rules-dir'']"

text \<open>The second key of \<open>enable_cors\<close> is only looked up when the first has no value.\<close>

definition read_http_settings :: "(ustr \<Rightarrow> ustr option) plugin_act" where
  "read_http_settings =
     act_bind (read_stored http_keys Map.empty) (\<lambda>m.
     act_bind (if m (lit ''enable_cors'') = None
               then read_stored [lit ''smartdns-plus-ui.enable-cors''] m else act_return m) (\<lambda>m.
     read_stored later_http_keys m))"

definition load_data_settings :: "plugin_env \<Rightarrow> (ustr \<Rightarrow> ustr option) \<Rightarrow> plugin \<Rightarrow> plugin" where
  "load_data_settings env m pl =
     (case load_config (pe_lower env) (setting m (pe_config env)) (pl_data_conf pl) of
        (data_conf, level) \<Rightarrow> pl\<lparr>pl_data_conf := data_conf,
          pl_log_level := (case level of None \<Rightarrow> pl_log_level pl | Some l \<Rightarrow> l)\<rparr>)"

definition load_http_settings :: "plugin_env \<Rightarrow> nat \<Rightarrow> (ustr \<Rightarrow> ustr option) \<Rightarrow> plugin \<Rightarrow> plugin" where
  "load_http_settings env k m pl = pl\<lparr>pl_http_conf :=
     load_http_config m (pe_config env) (pe_hash env) (pe_secret env k) (pl_http_conf pl)\<rparr>"

definition plugin_load_config :: "plugin_env \<Rightarrow> nat \<Rightarrow> unit plugin_act" where
  "plugin_load_config env k =
     act_bind (read_stored data_keys Map.empty) (\<lambda>m.
     act_bind (act_upd (load_data_settings env m)) (\<lambda>_.
     act_bind read_http_settings (\<lambda>m.
     act_upd (load_http_settings env k m))))"

section \<open>Starting\<close>

definition plugin_init_db :: "plugin_env \<Rightarrow> unit plugin_act" where
  "plugin_init_db env pl =
     (case init_server (pe_lower env) (pe_writable env) (pl_data_conf pl) (pl_data pl) of
        (Inl e, sv) \<Rightarrow> (Inl (Not_Opened e), pl\<lparr>pl_data := sv\<rparr>)
      | (Inr _, sv) \<Rightarrow> (Inr (), pl\<lparr>pl_data := sv, pl_data_init := True\<rparr>))"

definition start_data_server :: "unit plugin_act" where
  "start_data_server pl =
     (if \<not> pl_data_init pl then (Inl Not_Initialised, pl)
      else let pl = (if pl_data_task pl = Never_Started
                     then pl\<lparr>pl_data := start_loop (pl_data pl),
                       pl_data_task := Is_Running\<rparr> else pl)
        in (Inr (), pl\<lparr>pl_data_run := True, pl_data_thread := True\<rparr>))"

text \<open>The task of a second start panics with the configuration locked, which poisons the lock; a task
  that can not listen ends the program. The starter waits for the task to listen or to end.\<close>

definition start_http_server :: "plugin_env \<Rightarrow> unit plugin_act" where
  "start_http_server env pl =
     (if pl_conf_poisoned pl then (Inl Start_Panic, pl)
      else let pl = pl\<lparr>pl_server_conf := pl_http_conf pl\<rparr>;
               pl = (if pl_http_task pl \<noteq> Never_Started then pl\<lparr>pl_conf_poisoned := True\<rparr>
                     else case open_listener (pe_listen env) (pl_server_conf pl) of
                            Inl (Listen_Failed e) \<Rightarrow> pl\<lparr>pl_http_task := Is_Over,
                              pl_exit_status := Some 1\<rparr>
                          | Inl Listen_Panic \<Rightarrow> pl\<lparr>pl_http_task := Is_Over\<rparr>
                          | Inr _ \<Rightarrow> pl\<lparr>pl_http_task := Is_Running\<rparr>)
        in (Inr (), pl\<lparr>pl_http_thread := True\<rparr>))"

definition plugin_start :: "plugin_env \<Rightarrow> ustr list \<Rightarrow> unit plugin_act" where
  "plugin_start env args =
     act_bind (act_upd (\<lambda>pl. pl\<lparr>pl_is_start := True\<rparr>)) (\<lambda>_.
     act_bind (parser_args env args) (\<lambda>_.
     act_bind (plugin_load_config env 0) (\<lambda>_.
     act_bind (plugin_init_db env) (\<lambda>_.
     act_bind (plugin_load_config env 1) (\<lambda>_.
     act_bind start_data_server (\<lambda>_.
     start_http_server env))))))"

section \<open>Stopping\<close>

definition stop_http_server :: "plugin \<Rightarrow> plugin" where
  "stop_http_server pl =
     (if \<not> pl_http_thread pl then pl
      else pl\<lparr>pl_http_task := (if pl_http_task pl = Is_Running then Is_Over else pl_http_task pl),
              pl_http_thread := False\<rparr>)"

definition stop_data_server :: "plugin \<Rightarrow> plugin" where
  "stop_data_server pl =
     (if \<not> pl_data_run pl then pl
      else let pl = (if pl_data_task pl = Is_Running
                     then pl\<lparr>pl_data := shut_down (pl_data pl),
                       pl_data_task := Is_Over\<rparr> else pl)
        in pl\<lparr>pl_data_thread := False, pl_data_run := False\<rparr>)"

definition plugin_stop :: "plugin \<Rightarrow> plugin" where
  "plugin_stop pl =
     (if \<not> pl_is_start pl then pl
      else stop_data_server (stop_http_server (pl\<lparr>pl_is_start := False\<rparr>)))"

section \<open>Calls of the DNS server\<close>

definition query_complete :: "dns_request \<Rightarrow> plugin \<Rightarrow> (send_error,
  unit) result \<times> plugin" where
  "query_complete req pl = (case send_request req (pl_data pl) of (r, sv) \<Rightarrow> (r,
    pl\<lparr>pl_data := sv\<rparr>))"

definition server_log :: "log_level \<Rightarrow> bytes \<Rightarrow> i32 \<Rightarrow> plugin \<Rightarrow> plugin" where
  "server_log level msg len pl = pl\<lparr>pl_log_streams := dispatch_log level msg len (pl_log_streams pl)\<rparr>"

definition server_audit_log :: "bytes \<Rightarrow> i32 \<Rightarrow> plugin \<Rightarrow> plugin" where
  "server_audit_log msg len pl = pl\<lparr>pl_audit_streams := dispatch_audit_log msg len (pl_audit_streams pl)\<rparr>"
text \<open>What the loop of the HTTP server selects, while its task runs; the value the loop ends with
  ends the task, and an error the program.\<close>

definition http_task_turn :: "'c listen_event \<Rightarrow> plugin \<Rightarrow> plugin" where
  "http_task_turn ev pl =
     (if pl_http_task pl \<noteq> Is_Running then pl
      else case event_end ev of
             None \<Rightarrow> pl
           | Some (Inl e) \<Rightarrow> pl\<lparr>pl_http_task := Is_Over, pl_exit_status := Some 1\<rparr>
           | Some (Inr _) \<Rightarrow> pl\<lparr>pl_http_task := Is_Over\<rparr>)"

section \<open>The library's side\<close>

text \<open>The one \<open>Plugin\<close> of the library: the arguments,
  the operations once the library is loaded, and
  whether its callbacks are registered. A panic in a callback ends the process: \<open>None\<close>.\<close>

record plugin_slot =
  ps_args :: "ustr list"
  ps_ops :: "plugin option"
  ps_registered :: bool

definition set_operation :: "plugin \<Rightarrow> plugin_slot \<Rightarrow> plugin_slot" where
  "set_operation pl slot = slot\<lparr>ps_ops := Some pl\<rparr>"

text \<open>Dropping the operations stops the plugin; the second component is what is left of it.\<close>

definition clear_operation :: "plugin_slot \<Rightarrow> plugin_slot \<times> plugin option" where
  "clear_operation slot = (slot\<lparr>ps_ops := None\<rparr>, map_option plugin_stop (ps_ops slot))"

definition dns_plugin_init :: "plugin_env \<Rightarrow> ustr list \<Rightarrow> plugin_slot \<Rightarrow> (i32 \<times> plugin_slot) option" where
  "dns_plugin_init env argv slot =
     (let slot = slot\<lparr>ps_args := argv, ps_registered := True\<rparr>
      in case ps_ops slot of
           None \<Rightarrow> None
         | Some pl \<Rightarrow>
             (case plugin_start env (ps_args slot) pl of
                (Inl Start_Panic, pl) \<Rightarrow> None
              | (Inl _, pl) \<Rightarrow> Some (-1, slot\<lparr>ps_ops := Some pl\<rparr>)
              | (Inr _, pl) \<Rightarrow> Some (0, slot\<lparr>ps_ops := Some pl\<rparr>)))"

definition dns_plugin_exit :: "plugin_slot \<Rightarrow> (i32 \<times> plugin_slot) option" where
  "dns_plugin_exit slot =
     (let slot = slot\<lparr>ps_registered := False\<rparr>
      in case ps_ops slot of
           None \<Rightarrow> None
         | Some pl \<Rightarrow> Some (0, slot\<lparr>ps_ops := Some (plugin_stop pl)\<rparr>))"

definition dns_request_complete :: "dns_request \<Rightarrow> plugin_slot \<Rightarrow> plugin_slot" where
  "dns_request_complete req slot =
     (case ps_ops slot of
        None \<Rightarrow> slot
      | Some pl \<Rightarrow> slot\<lparr>ps_ops := Some (snd (query_complete req pl))\<rparr>)"

definition dns_server_log :: "u32 \<Rightarrow> bytes \<Rightarrow> i32 \<Rightarrow> plugin_slot \<Rightarrow> plugin_slot option" where
  "dns_server_log level msg len slot =
     (case ps_ops slot of
        None \<Rightarrow> Some slot
      | Some pl \<Rightarrow>
          (case log_level_of_code level of
             None \<Rightarrow> None
           | Some l \<Rightarrow> Some (slot\<lparr>ps_ops := Some (server_log l msg len pl)\<rparr>)))"

definition dns_server_audit_log :: "bytes \<Rightarrow> i32 \<Rightarrow> plugin_slot \<Rightarrow> plugin_slot" where
  "dns_server_audit_log msg len slot =
     (case ps_ops slot of
        None \<Rightarrow> slot
      | Some pl \<Rightarrow> slot\<lparr>ps_ops := Some (server_audit_log msg len pl)\<rparr>)"

text \<open>What the library answers for a request, as its getters return it: flags as C integers, the
  hardware address as six bytes or a null pointer, the remote address as a null pointer (\<open>None\<close>) or
  the host text, itself null when it can not be printed. \<open>round10\<close> rounds to a tenth.\<close>

record c_request =
  cr_is_prefetch :: i32
  cr_is_dualstack :: i32
  cr_is_blocked :: i32
  cr_is_cached :: i32
  cr_rcode :: i32
  cr_domain :: ustr
  cr_qtype :: i32
  cr_remote_addr :: "ustr option option"
  cr_remote_mac :: "8 word list option"
  cr_group_name :: ustr
  cr_query_timestamp :: u64
  cr_query_time :: i32
  cr_ping_time :: f64

definition get_remote_mac :: "c_request \<Rightarrow> 8 word list" where
  "get_remote_mac r = (case cr_remote_mac r of None \<Rightarrow> replicate 6 0 | Some mac \<Rightarrow> take 6 mac)"

definition get_remote_addr :: "c_request \<Rightarrow> ustr" where
  "get_remote_addr r =
     (case cr_remote_addr r of
        None \<Rightarrow> lit ''API''
      | Some None \<Rightarrow> []
      | Some (Some addr) \<Rightarrow> addr)"

definition dns_request_of_c :: "(f64 \<Rightarrow> f64) \<Rightarrow> c_request \<Rightarrow> dns_request" where
  "dns_request_of_c round10 r =
     \<lparr>rq_is_prefetch = (cr_is_prefetch r \<noteq> 0), rq_is_dualstack = (cr_is_dualstack r \<noteq> 0),
      rq_is_blocked = (cr_is_blocked r \<noteq> 0), rq_is_cached = (cr_is_cached r \<noteq> 0),
      rq_rcode = ucast (cr_rcode r), rq_domain = cr_domain r, rq_qtype = ucast (cr_qtype r),
      rq_remote_addr = get_remote_addr r, rq_remote_mac = get_remote_mac r,
      rq_group_name = cr_group_name r, rq_query_timestamp = cr_query_timestamp r,
      rq_query_time = cr_query_time r, rq_ping_time = round10 (cr_ping_time r)\<rparr>"

definition smartdns_ui_version :: "ustr \<Rightarrow> ustr \<Rightarrow> ustr" where
  "smartdns_ui_version git_version pkg_version =
     (let git_version = trim git_version in if git_version \<noteq> [] then git_version else pkg_version)"

definition dns_conf_plugin_config_default :: "(ustr \<Rightarrow> ustr option) \<Rightarrow> ustr \<Rightarrow> ustr \<Rightarrow> ustr" where
  "dns_conf_plugin_config_default config key dflt =
     (case config key of Some v \<Rightarrow> v | None \<Rightarrow> dflt)"


section \<open>Before the database is open\<close>

abbreviation db_open :: "plugin \<Rightarrow> bool" where
  "db_open pl \<equiv> db_is_open (server_db (pl_data pl))"

lemma read_stored_closed:
  "\<not> db_open pl \<Longrightarrow> read_stored keys m pl = (Inr (\<lambda>k. if k \<in> set keys then None else m k), pl)"
proof (induction keys arbitrary: m)
  case (Cons key keys)
  have w: "with_db (get_config key) (pl_data pl) = (Inl Not_Open, pl_data pl)"
    using Cons.prems by (simp add: with_db_def get_config_def with_conn_def)
  have "read_stored (key # keys) m pl = read_stored keys (m(key := None)) pl"
    by (simp add: w)
  also have "\<dots> = (Inr (\<lambda>k. if k \<in> set keys then None else (m(key := None)) k), pl)"
    by (rule Cons.IH [OF Cons.prems])
  finally show ?case by (simp add: fun_eq_iff)
qed simp

declare read_stored.simps [simp del]

lemma read_nothing_stored: "\<not> db_open pl \<Longrightarrow> read_stored keys Map.empty pl = (Inr Map.empty, pl)"
  by (simp add: read_stored_closed fun_eq_iff)

lemma read_http_settings_closed:
  "\<not> db_open pl \<Longrightarrow> read_http_settings pl = (Inr Map.empty, pl)"
  by (simp add: read_http_settings_def act_bind_def read_nothing_stored)

lemma load_config_closed:
  assumes "\<not> db_open pl"
  shows "plugin_load_config env k pl =
    (Inr (), load_http_settings env k Map.empty (load_data_settings env Map.empty pl))"
proof -
  have "\<not> db_open (load_data_settings env Map.empty pl)"
    using assms by (simp add: load_data_settings_def split: prod.split)
  then show ?thesis using assms
    by (simp add: plugin_load_config_def act_bind_def act_upd_def read_nothing_stored read_http_settings_closed)
qed

text \<open>A load of the HTTP settings replaces the lifetime of tokens whatever it was.\<close>

lemma load_http_token_lifetime:
  "load_http_config in_db in_file hash secret (c\<lparr>hc_token_expired_time := t\<rparr>) =
   load_http_config in_db in_file hash secret c"
  unfolding load_http_config_def Let_def
  by (cases "in_db password_key"; cases "in_file password_key";
      cases "setting in_db in_file (lit ''smartdns-plus-ui.user'')";
      simp only: option.case; simp cong: option.case_cong)

lemma load_settings_token_lifetime:
  "load_http_settings env k m (load_data_settings env m'
     (pl\<lparr>pl_http_conf := (pl_http_conf pl)\<lparr>hc_token_expired_time := t\<rparr>\<rparr>)) =
   load_http_settings env k m (load_data_settings env m' pl)"
  by (cases "load_config (pe_lower env) (setting m' (pe_config env)) (pl_data_conf pl)")
    (simp add: load_http_settings_def load_data_settings_def load_http_token_lifetime cong: option.case_cong)

text \<open>What the arguments make of a plugin, apart from the lifetime of tokens.\<close>

definition argued :: "plugin_env \<Rightarrow> (string \<Rightarrow> ustr option) \<Rightarrow> plugin \<Rightarrow> plugin" where
  "argued env opt pl =
     (let pl = pl\<lparr>pl_http_conf := argument_settings env opt (pl_http_conf pl)\<rparr>
      in when_given (opt ''data-dir'') (\<lambda>v pl. pl\<lparr>pl_data_conf := (pl_data_conf pl)\<lparr>dc_data_path := v\<rparr>\<rparr>) pl)"

lemma parser_args_argued:
  assumes "args \<noteq> []" "pe_getopts env (tl args) = Inr opt"
    "\<And>s. or_else (pe_config env (lit ''smartdns-plus-ui.token-expire'')) (opt ''token-expire'') = Some s \<Longrightarrow>
      parse_uint (2 ^ 32) s \<noteq> None"
  obtains t where "parser_args env args pl =
    (Inr (), (argued env opt pl)\<lparr>pl_http_conf := (pl_http_conf (argued env opt pl))\<lparr>hc_token_expired_time := t\<rparr>\<rparr>)"
proof (cases "or_else (pe_config env (lit ''smartdns-plus-ui.token-expire'')) (opt ''token-expire'')")
  case None
  show ?thesis
    by (rule that [of "hc_token_expired_time (pl_http_conf (argued env opt pl))"])
      (use None assms in \<open>simp add: parser_args_def argued_def when_given_def Let_def split: option.split\<close>)
next
  case (Some s)
  then obtain n where n: "parse_uint (2 ^ 32) s = Some n" using assms(3) by blast
  show ?thesis
    by (rule that [of "of_nat n"])
      (use Some n assms in \<open>simp add: parser_args_def argued_def when_given_def Let_def split: option.split\<close>)
qed

lemma argued_other_options:
  assumes "\<And>name. name \<noteq> ''token-expire'' \<Longrightarrow> opt name = opt' name"
  shows "argued env opt pl = argued env opt' pl"
proof -
  have "opt ''i'' = opt' ''i''" "opt ''r'' = opt' ''r''" "opt ''config-file'' = opt' ''config-file''"
    "opt ''rules-dir'' = opt' ''rules-dir''" "opt ''data-dir'' = opt' ''data-dir''"
    by (simp_all add: assms)
  then show ?thesis by (simp add: argued_def argument_settings_def)
qed

lemma start_of_argued:
  assumes "parser_args env args (pl\<lparr>pl_is_start := True\<rparr>) =
      (Inr (), p\<lparr>pl_http_conf := (pl_http_conf p)\<lparr>hc_token_expired_time := t\<rparr>\<rparr>)" "\<not> db_open p"
  shows "plugin_start env args pl =
    act_bind (plugin_init_db env) (\<lambda>_. act_bind (plugin_load_config env 1) (\<lambda>_.
      act_bind start_data_server (\<lambda>_. start_http_server env)))
      (load_http_settings env 0 Map.empty (load_data_settings env Map.empty p))"
proof -
  let ?p = "p\<lparr>pl_http_conf := (pl_http_conf p)\<lparr>hc_token_expired_time := t\<rparr>\<rparr>"
  have l: "plugin_load_config env 0 ?p = (Inr (), load_http_settings env 0 Map.empty (load_data_settings env Map.empty p))"
    using assms(2) by (simp add: load_config_closed load_settings_token_lifetime)
  show ?thesis by (simp only: plugin_start_def act_bind_def act_upd_def assms(1) prod.case sum.case l)
qed

theorem token_expire_argument_ignored:
  assumes "args \<noteq> []" "args' \<noteq> []" "\<not> db_open pl"
    and "pe_getopts env (tl args) = Inr opt" "pe_getopts env (tl args') = Inr opt'"
    and "\<And>name. name \<noteq> ''token-expire'' \<Longrightarrow> opt name = opt' name"
    and "\<And>s. or_else (pe_config env (lit ''smartdns-plus-ui.token-expire'')) (opt ''token-expire'') = Some s \<Longrightarrow>
      parse_uint (2 ^ 32) s \<noteq> None"
    and "\<And>s. or_else (pe_config env (lit ''smartdns-plus-ui.token-expire'')) (opt' ''token-expire'') = Some s \<Longrightarrow>
      parse_uint (2 ^ 32) s \<noteq> None"
  shows "plugin_start env args pl = plugin_start env args' pl"
proof -
  let ?pl = "pl\<lparr>pl_is_start := True\<rparr>"
  obtain t where t: "parser_args env args ?pl = (Inr (), (argued env opt ?pl)
      \<lparr>pl_http_conf := (pl_http_conf (argued env opt ?pl))\<lparr>hc_token_expired_time := t\<rparr>\<rparr>)"
    using parser_args_argued [OF assms(1,4,7)] by blast
  obtain t' where t': "parser_args env args' ?pl = (Inr (), (argued env opt' ?pl)
      \<lparr>pl_http_conf := (pl_http_conf (argued env opt' ?pl))\<lparr>hc_token_expired_time := t'\<rparr>\<rparr>)"
    using parser_args_argued [OF assms(2,5,8)] by blast
  have closed: "\<not> db_open (argued env opt' ?pl)"
    using assms(3) by (simp add: argued_def when_given_def Let_def split: option.split)
  have "argued env opt ?pl = argued env opt' ?pl" by (rule argued_other_options [OF assms(6)])
  then show ?thesis using start_of_argued [OF t] start_of_argued [OF t'] closed by simp
qed

section \<open>The running configuration\<close>

lemma with_db_conf [simp]:
  "sv_conf (snd (with_db m sv)) = sv_conf sv" "sv_receiving (snd (with_db m sv)) = sv_receiving sv"
  by simp_all

text \<open>What reading the database leaves as it was: all but the data server and its statistics.\<close>

definition same_but_db :: "plugin \<Rightarrow> plugin \<Rightarrow> bool" where
  "same_but_db pl pl' \<longleftrightarrow> (\<exists>d. pl' = pl\<lparr>pl_data := (pl_data pl)\<lparr>sv_stat := (sv_stat (pl_data pl))\<lparr>ds_db := d\<rparr>\<rparr>\<rparr>)"

lemma same_but_db_trans: "same_but_db a b \<Longrightarrow> same_but_db b c \<Longrightarrow> same_but_db a c"
  by (auto simp: same_but_db_def)

lemma same_but_db_refl: "same_but_db pl pl"
  unfolding same_but_db_def by (rule exI [of _ "server_db (pl_data pl)"]) simp

lemma read_stored_same: "same_but_db pl (snd (read_stored keys m pl))"
proof (induction keys arbitrary: m pl)
  case Nil
  show ?case by (simp add: read_stored.simps same_but_db_refl)
next
  case (Cons key keys)
  obtain r sv where w: "with_db (get_config key) (pl_data pl) = (r, sv)" by fastforce
  let ?pl = "pl\<lparr>pl_data := sv\<rparr>"
  have s: "same_but_db pl ?pl"
    using with_db_fields [of "get_config key" "pl_data pl"] by (auto simp: w same_but_db_def)
  show ?case
  proof (cases "r = Inl Db_Panic")
    case False
    then have "read_stored (key # keys) m pl =
        read_stored keys (m(key := (case r of Inl _ \<Rightarrow> None | Inr v \<Rightarrow> v))) ?pl"
      by (simp add: read_stored.simps w split: sum.split db_error.split)
    then show ?thesis using same_but_db_trans [OF s Cons.IH] by simp
  qed (use s in \<open>simp add: read_stored.simps w\<close>)
qed

lemma act_bind_same:
  assumes "same_but_db pl (snd (m pl))" "\<And>x pl. same_but_db pl (snd (f x pl))"
  shows "same_but_db pl (snd (act_bind m f pl))"
  using assms by (auto simp: act_bind_def intro: same_but_db_trans split: prod.split sum.split)

lemma read_http_settings_same: "same_but_db pl (snd (read_http_settings pl))"
  unfolding read_http_settings_def
  by (intro act_bind_same) (simp_all add: read_stored_same act_return_def same_but_db_refl)

text \<open>The parts of a plugin that loading settings leaves alone.\<close>

definition life ::
    "plugin \<Rightarrow> bool \<times> bool \<times> bool \<times> bool \<times> task_life \<times> bool \<times> bool \<times> task_life \<times> i32 option \<times>
      data_server_config \<times> bool" where
  "life pl = (pl_is_start pl, pl_data_init pl, pl_data_run pl, pl_data_thread pl, pl_data_task pl,
     pl_conf_poisoned pl, pl_http_thread pl, pl_http_task pl, pl_exit_status pl,
     sv_conf (pl_data pl), sv_receiving (pl_data pl))"

lemma same_life: "same_but_db pl pl' \<Longrightarrow> life pl' = life pl"
  by (auto simp: same_but_db_def life_def)

lemma act_bind_life:
  assumes "life (snd (m pl)) = life pl" "\<And>x pl. life (snd (f x pl)) = life pl"
  shows "life (snd (act_bind m f pl)) = life pl"
  using assms by (cases "m pl") (auto simp: act_bind_def split: sum.split)

lemma load_config_life: "life (snd (plugin_load_config env k pl)) = life pl"
proof -
  have u: "life (snd (act_upd (load_data_settings env m) pl)) = life pl"
    "life (snd (act_upd (load_http_settings env k m) pl)) = life pl" for m pl
    by (simp_all add: act_upd_def life_def load_data_settings_def load_http_settings_def split: prod.split)
  show ?thesis unfolding plugin_load_config_def
    by (intro act_bind_life) (simp_all add: u same_life read_stored_same read_http_settings_same)
qed

lemma init_server_fields:
  "sv_receiving (snd (init_server lower w conf sv)) = sv_receiving sv"
  "fst (init_server lower w conf sv) = Inr () \<Longrightarrow>
    dc_max_log_age_ms (sv_conf (snd (init_server lower w conf sv))) = dc_max_log_age_ms conf"
  by (auto simp: init_server_def Let_def with_db_def split: prod.splits sum.splits)

lemma parser_args_fields:
  "life (snd (parser_args env args pl)) = life pl"
  "pl_data (snd (parser_args env args pl)) = pl_data pl"
  by (auto simp: parser_args_def life_def when_given_def Let_def split: option.split sum.split)

lemma act_bind_success:
  assumes "act_bind m f s = (Inr y, s')"
  obtains x s1 where "m s = (Inr x, s1)" "f x s1 = (Inr y, s')"
  using assms by (cases "m s") (auto simp: act_bind_def split: sum.splits)

lemma start_servers_conf:
  "pl_data (snd (start_http_server env pl)) = pl_data pl"
  "sv_conf (pl_data (snd (start_data_server pl))) = sv_conf (pl_data pl)"
  by (auto simp: start_http_server_def start_data_server_def start_loop_def Let_def
    split: sum.split listen_error.split)

text \<open>C39: After a successful start the running data server keeps query logs for the time of the
  configuration file or the default, whatever time the database holds: the settings it holds are
  loaded after the configuration was handed over.\<close>

theorem stored_log_age_ignored:
  assumes "\<not> db_open pl" "plugin_start env args pl = (Inr (), pl')"
  shows "dc_max_log_age_ms (sv_conf (pl_data pl')) =
    parse_value (pe_config env (lit ''smartdns-plus-ui.max-query-log-age''))
      max_log_age_value_min max_log_age_value_max default_max_log_age * 1000"
proof -
  obtain p0 p1 p2 p3 p4 where a: "parser_args env args (pl\<lparr>pl_is_start := True\<rparr>) = (Inr (), p0)"
    and l0: "plugin_load_config env 0 p0 = (Inr (), p1)" and i: "plugin_init_db env p1 = (Inr (), p2)"
    and l1: "plugin_load_config env 1 p2 = (Inr (), p3)" and d: "start_data_server p3 = (Inr (), p4)"
    and h: "start_http_server env p4 = (Inr (), pl')"
    using assms(2) unfolding plugin_start_def by (auto elim!: act_bind_success simp: act_upd_def)
  have "\<not> db_open p0" using parser_args_fields(2) [of env args "pl\<lparr>pl_is_start := True\<rparr>"] assms(1) by (simp add: a)
  then have "p1 = load_http_settings env 0 Map.empty (load_data_settings env Map.empty p0)"
    using l0 by (simp add: load_config_closed)
  then have "dc_max_log_age_ms (pl_data_conf p1) =
      parse_value (pe_config env (lit ''smartdns-plus-ui.max-query-log-age''))
        max_log_age_value_min max_log_age_value_max default_max_log_age * 1000"
    by (simp add: load_http_settings_def load_data_settings_def load_config_def setting_def or_else_def)
  moreover have "dc_max_log_age_ms (sv_conf (pl_data p2)) = dc_max_log_age_ms (pl_data_conf p1)"
    using i init_server_fields(2) [of "pe_lower env" "pe_writable env" "pl_data_conf p1" "pl_data p1"]
    by (auto simp: plugin_init_db_def split: prod.splits sum.splits)
  moreover have "sv_conf (pl_data p3) = sv_conf (pl_data p2)"
    using load_config_life [of env 1 p2] unfolding l1 by (simp add: life_def)
  moreover have "sv_conf (pl_data pl') = sv_conf (pl_data p3)"
    using start_servers_conf(1) [of env p4] start_servers_conf(2) [of p3] by (simp add: d h)
  ultimately show ?thesis by simp
qed

section \<open>The life of the plugin\<close>

text \<open>What happens to a plugin: starts and stops, the calls of the DNS server, and the turns of the
  running servers; only \<open>stop_data_server\<close> tells the loop of the data server to stop.\<close>

datatype plugin_event =
    Start_Up plugin_env "ustr list"
  | Stop_Down
  | Query dns_request
  | Log_Line log_level bytes i32
  | Audit_Line bytes i32
  | Turn i32 server_event
  | Http_Turn "unit listen_event"

definition turn_event :: "server_event \<Rightarrow> bool" where
  "turn_event ev = (case ev of Request _ \<Rightarrow> False | Stop \<Rightarrow> False | _ \<Rightarrow> True)"

fun plugin_step :: "plugin_event \<Rightarrow> plugin \<Rightarrow> plugin" where
  "plugin_step (Start_Up env args) pl = snd (plugin_start env args pl)"
| "plugin_step Stop_Down pl = plugin_stop pl"
| "plugin_step (Query req) pl = snd (query_complete req pl)"
| "plugin_step (Log_Line level msg len) pl = server_log level msg len pl"
| "plugin_step (Audit_Line msg len) pl = server_audit_log msg len pl"
| "plugin_step (Turn off ev) pl =
     (if pl_data_task pl = Is_Running \<and> turn_event ev
      then pl\<lparr>pl_data := loop_step off ev (pl_data pl)\<rparr> else pl)"
| "plugin_step (Http_Turn ev) pl = http_task_turn ev pl"

definition plugin_ok :: "plugin \<Rightarrow> bool" where
  "plugin_ok pl \<longleftrightarrow>
     (pl_data_run pl \<longrightarrow> pl_is_start pl \<and> pl_data_init pl) \<and>
     (pl_data_thread pl \<longleftrightarrow> pl_data_run pl) \<and>
     (pl_data_task pl = Is_Running \<longrightarrow> pl_data_run pl \<and> sv_receiving (pl_data pl)) \<and>
     (pl_data_task pl = Is_Over \<longrightarrow> \<not> sv_receiving (pl_data pl)) \<and>
     (pl_http_thread pl \<longrightarrow> pl_is_start pl) \<and>
     (pl_http_task pl = Is_Running \<longrightarrow> pl_http_thread pl) \<and>
     (pl_exit_status pl \<noteq> None \<longrightarrow> pl_http_task pl = Is_Over) \<and>
     (pl_conf_poisoned pl \<longrightarrow> pl_http_task pl \<noteq> Never_Started)"

lemma plugin_ok_life: "life pl = life pl' \<Longrightarrow> plugin_ok pl = plugin_ok pl'"
  by (simp add: life_def plugin_ok_def)

lemma plugin_ok_started: "plugin_ok pl \<Longrightarrow> plugin_ok (pl\<lparr>pl_is_start := True\<rparr>)"
  by (simp add: plugin_ok_def)

lemma plugin_ok_init_db: "plugin_ok pl \<Longrightarrow> plugin_ok (snd (plugin_init_db env pl))"
  using init_server_fields(1) [of "pe_lower env" "pe_writable env" "pl_data_conf pl" "pl_data pl"]
  by (auto simp: plugin_init_db_def plugin_ok_def split: prod.split sum.split)

lemma is_start_kept:
  "pl_is_start (snd (parser_args env args pl)) = pl_is_start pl"
  "pl_is_start (snd (plugin_load_config env k pl)) = pl_is_start pl"
  "pl_is_start (snd (plugin_init_db env pl)) = pl_is_start pl"
  "pl_is_start (snd (start_data_server pl)) = pl_is_start pl"
  using parser_args_fields(1) [of env args pl] load_config_life [of env k pl]
  by (auto simp: life_def plugin_init_db_def start_data_server_def Let_def split: prod.split sum.split)

lemma plugin_ok_start_data: "pl_is_start pl \<Longrightarrow> plugin_ok pl \<Longrightarrow> plugin_ok (snd (start_data_server pl))"
  by (auto simp: start_data_server_def start_loop_def plugin_ok_def Let_def)

lemma plugin_ok_start_http: "pl_is_start pl \<Longrightarrow> plugin_ok pl \<Longrightarrow> plugin_ok (snd (start_http_server env pl))"
  by (auto simp: start_http_server_def plugin_ok_def Let_def split: sum.split listen_error.split)

lemma act_bind_plugin_ok:
  assumes "pl_is_start pl" "plugin_ok pl" "plugin_ok (snd (m pl))" "pl_is_start (snd (m pl))"
    and "\<And>x p. pl_is_start p \<Longrightarrow> plugin_ok p \<Longrightarrow> plugin_ok (snd (f x p))"
  shows "plugin_ok (snd (act_bind m f pl))"
  using assms by (cases "m pl") (auto simp: act_bind_def split: sum.split)

lemma plugin_ok_start: "plugin_ok pl \<Longrightarrow> plugin_ok (snd (plugin_start env args pl))"
proof -
  assume ok: "plugin_ok pl"
  have load: "plugin_ok p \<Longrightarrow> plugin_ok (snd (plugin_load_config env k p))" for k p
    using plugin_ok_life [OF load_config_life] by blast
  have args: "plugin_ok p \<Longrightarrow> plugin_ok (snd (parser_args env args p))" for p
    using plugin_ok_life [OF parser_args_fields(1)] by blast
  have "plugin_start env args pl =
      act_bind (parser_args env args) (\<lambda>_. act_bind (plugin_load_config env 0) (\<lambda>_.
        act_bind (plugin_init_db env) (\<lambda>_. act_bind (plugin_load_config env 1) (\<lambda>_.
        act_bind start_data_server (\<lambda>_. start_http_server env))))) (pl\<lparr>pl_is_start := True\<rparr>)"
    by (simp add: plugin_start_def act_bind_def [of "act_upd _"] act_upd_def)
  then show ?thesis
    by (simp only:) (intro act_bind_plugin_ok args load plugin_ok_init_db plugin_ok_start_data plugin_ok_start_http;
      simp add: ok plugin_ok_started is_start_kept args load plugin_ok_init_db plugin_ok_start_data)
qed

lemma send_request_receiving: "sv_receiving (snd (send_request req sv)) = sv_receiving sv"
  by (simp add: send_request_def Let_def)

lemma turn_receiving: "turn_event ev \<Longrightarrow> sv_receiving (loop_step off ev sv) = sv_receiving sv"
  by (cases ev) (auto simp: turn_event_def receive_def batch_tick_def client_flush_tick_def check_tick_def
    write_batch_def handle_dns_request_def insert_clients_quietly_def server_check_def Let_def
    split: prod.split sum.split)

lemma shut_down_receiving: "\<not> sv_receiving (shut_down sv)"
  by (simp add: shut_down_def Let_def)

lemma plugin_ok_step: "plugin_ok pl \<Longrightarrow> plugin_ok (plugin_step ev pl)"
proof (cases ev)
  case Stop_Down
  then show "plugin_ok pl \<Longrightarrow> plugin_ok (plugin_step ev pl)"
    by (auto simp: plugin_stop_def stop_http_server_def stop_data_server_def plugin_ok_def shut_down_receiving Let_def)
next
  case (Query req)
  then show "plugin_ok pl \<Longrightarrow> plugin_ok (plugin_step ev pl)"
    using send_request_receiving [of req "pl_data pl"]
    by (auto simp: query_complete_def plugin_ok_def split: prod.split)
next
  case (Turn off e)
  then show "plugin_ok pl \<Longrightarrow> plugin_ok (plugin_step ev pl)"
    by (auto simp: plugin_ok_def turn_receiving)
next
  case (Start_Up env args)
  then show "plugin_ok pl \<Longrightarrow> plugin_ok (plugin_step ev pl)" by (simp only: plugin_step.simps plugin_ok_start)
next
  case (Http_Turn e)
  then show "plugin_ok pl \<Longrightarrow> plugin_ok (plugin_step ev pl)"
    by (auto simp: http_task_turn_def plugin_ok_def split: option.split sum.split)
qed (simp_all add: server_log_def server_audit_log_def plugin_ok_def)

interpretation plugin: machine plugin_step plugin_ok
  by unfold_locales (rule plugin_ok_step)

lemma plugin_ok_new: "plugin_ok (new_plugin data_dir now d hc sc level)"
  by (simp add: plugin_ok_def new_plugin_def)

text \<open>C30: Through every sequence of starts, stops, calls of the DNS server and turns of the two
  servers, failed starts included, the servers run only while the plugin is started, the data
  server runs only on an initialised database, one that has ended receives nothing, and the
  program is told to exit only when the HTTP task has ended.\<close>

theorem tasks_run_while_started:
  "plugin_ok (fold plugin_step evs (new_plugin data_dir now d hc sc level))"
  by (rule plugin.run_ok [OF plugin_ok_new])

section \<open>A data server that has ended\<close>

lemma data_task_over_kept:
  assumes "pl_data_task pl = Is_Over"
  shows "pl_data_task (snd (parser_args env args pl)) = Is_Over"
    "pl_data_task (snd (plugin_load_config env k pl)) = Is_Over"
    "pl_data_task (snd (plugin_init_db env pl)) = Is_Over"
    "pl_data_task (snd (start_data_server pl)) = Is_Over"
    "pl_data_task (snd (start_http_server env pl)) = Is_Over"
    "pl_data_task (plugin_stop pl) = Is_Over"
  using assms parser_args_fields(1) [of env args pl] load_config_life [of env k pl]
  by (auto simp: life_def plugin_init_db_def start_data_server_def start_http_server_def plugin_stop_def
    stop_http_server_def stop_data_server_def Let_def split: prod.split sum.split listen_error.split)

lemma act_bind_over:
  assumes "pl_data_task (snd (m pl)) = Is_Over"
    "\<And>x p. pl_data_task p = Is_Over \<Longrightarrow> pl_data_task (snd (f x p)) = Is_Over"
  shows "pl_data_task (snd (act_bind m f pl)) = Is_Over"
  using assms by (cases "m pl") (auto simp: act_bind_def split: sum.split)

lemma data_task_over_start: "pl_data_task pl = Is_Over \<Longrightarrow> pl_data_task (snd (plugin_start env args pl)) = Is_Over"
  unfolding plugin_start_def by (intro act_bind_over) (simp_all add: act_upd_def data_task_over_kept)

lemma data_task_over_step: "pl_data_task pl = Is_Over \<Longrightarrow> pl_data_task (plugin_step ev pl) = Is_Over"
  by (cases ev) (simp_all add: data_task_over_start data_task_over_kept query_complete_def server_log_def
    server_audit_log_def http_task_turn_def split: prod.split option.split sum.split)

interpretation ended: machine plugin_step "\<lambda>pl. pl_data_task pl = Is_Over"
  by unfold_locales (rule data_task_over_step)


section \<open>A sample plugin\<close>

definition sample_listen :: listen_lib where
  "sample_listen =
     \<lparr>ll_https = True,
      ll_parse_url = (\<lambda>u. Inr \<lparr>lu_scheme = lit ''http'', lu_host = Some (lit ''[::]''), lu_port = Some 6081\<rparr>),
      ll_get_cert = (-1, [], []), ll_open = (\<lambda>p. Inr []), ll_certs = (\<lambda>b. Inr []),
      ll_private_key = (\<lambda>b. Inr None), ll_single_cert = (\<lambda>cs k. Inr ()),
      ll_socket_addr = (\<lambda>a. Inr a), ll_bind = (\<lambda>a. Inr a)\<rparr>"

definition sample_env :: "(string \<times> string) list \<Rightarrow> plugin_env" where
  "sample_env config =
     \<lparr>pe_lower = (\<lambda>s. s), pe_config = map_of (map (\<lambda>(k, v). (lit k, lit v)) config),
      pe_full_path = (\<lambda>p. lit ''/etc/smartdns/'' @ p),
      pe_getopts = (\<lambda>args. Inr (\<lambda>name. if name = ''token-expire'' \<and> args \<noteq> [] then Some (hd args) else None)),
      pe_hash = (\<lambda>p. p), pe_secret = (\<lambda>k. lit ''secret''), pe_writable = (\<lambda>p. True),
      pe_listen = sample_listen\<rparr>"

definition stored_db :: "(string \<times> string) list \<Rightarrow> db" where
  "stored_db rows =
     \<lparr>db_exists = True, db_is_open = False, db_auto_vacuum = 0,
      db_tables = empty_tables\<lparr>tb_config := map_of (map (\<lambda>(k, v). (lit k,
        lit v)) rows)\<rparr>, db_calls = []\<rparr>"

definition sample_plugin :: "db \<Rightarrow> plugin" where
  "sample_plugin d = new_plugin (lit ''/var'') 0 d sample_config sample_config INFO"

text \<open>The second start reports success.\<close>

lemma second_start_succeeds:
  "let stopped = fold plugin_step [Start_Up (sample_env []) [lit ''p''], Stop_Down] (sample_plugin (stored_db []));
       r = plugin_start (sample_env []) [lit ''p''] stopped
   in pl_data_task stopped = Is_Over \<and> fst r = Inr () \<and> \<not> sv_disabled (pl_data (snd r))"
  by code_simp


text \<open>The plugin's own copy has the stored value.\<close>

lemma stored_log_age_loaded:
  "let r = plugin_start (sample_env []) [lit ''p'']
     (sample_plugin (stored_db [(''smartdns-plus-ui.max-query-log-age'', ''600'')]))
   in fst r = Inr () \<and> dc_max_log_age_ms (pl_data_conf (snd r)) = 600000"
  by code_simp

theorem stored_log_age_ignored_witness:
  "dc_max_log_age_ms (sv_conf (pl_data (snd (plugin_start (sample_env []) [lit ''p'']
     (sample_plugin (stored_db [(''smartdns-plus-ui.max-query-log-age'', ''600'')])))))) = 2592000000"
proof -
  let ?pl = "sample_plugin (stored_db [(''smartdns-plus-ui.max-query-log-age'', ''600'')])"
  let ?r = "plugin_start (sample_env []) [lit ''p''] ?pl"
  have "fst ?r = Inr ()" using stored_log_age_loaded by (simp only: Let_def)
  then have r: "?r = (Inr (), snd ?r)" by (cases ?r) simp
  have "\<not> db_open ?pl" by (simp add: sample_plugin_def new_plugin_def new_data_server_def stored_db_def)
  from stored_log_age_ignored [OF this r] have "dc_max_log_age_ms (sv_conf (pl_data (snd ?r))) =
      parse_value (pe_config (sample_env []) (lit ''smartdns-plus-ui.max-query-log-age''))
        max_log_age_value_min max_log_age_value_max default_max_log_age * 1000" .
  also have "\<dots> = 2592000000" by code_simp
  finally show ?thesis .
qed

theorem token_expire_argument_ignored_witness:
  "plugin_start (sample_env []) [lit ''p'', lit ''120''] (sample_plugin (stored_db [])) =
   plugin_start (sample_env []) [lit ''p''] (sample_plugin (stored_db []))"
proof (rule token_expire_argument_ignored)
  show "\<not> db_open (sample_plugin (stored_db []))"
    by (simp add: sample_plugin_def new_plugin_def new_data_server_def stored_db_def)
  show "pe_getopts (sample_env []) (tl [lit ''p'', lit ''120'']) =
      Inr (\<lambda>name. if name = ''token-expire'' then Some (lit ''120'') else None)"
    "pe_getopts (sample_env []) (tl [lit ''p'']) = Inr (\<lambda>name. None)"
    by (simp_all add: sample_env_def cong: if_cong)
  have p: "parse_uint (2 ^ 32) (lit ''120'') \<noteq> None" by code_simp
  show "parse_uint (2 ^ 32) s \<noteq> None"
    if "or_else (pe_config (sample_env []) (lit ''smartdns-plus-ui.token-expire''))
      (if ''token-expire'' = ''token-expire'' then Some (lit ''120'') else None) = Some s" for s
    using that p by (simp add: sample_env_def or_else_def)
qed (simp_all add: sample_env_def or_else_def)
end
