(* ===== verification/Spec2Isabelle.thy ===== *)
theory Spec2Isabelle
  imports Data_Server Http_Api_Safety Http_Config Log_Streams Plugin
begin

text \<open>
  SmartDNS Plus UI: a verification development for the Rust plugin under \<open>src/src/\<close>.

  The program. \<^bold>\<open>smartdns-plus-ui\<close> is a shared library that the DNS server \<open>smartdns\<close> loads. The DNS
  server calls it for each answered query and for each line of its logs; the plugin records the
  queries in an SQLite database, keeps statistics, and serves an HTTP interface with which the
  configuration of the DNS server is read and rewritten. A query goes \<open>dns_request_complete\<close>
  (\<open>smartdns.rs\<close>) to \<open>SmartdnsPlugin::query_complete\<close> (\<open>plugin.rs\<close>) to \<open>DataServer::send_request\<close>
  (\<open>data_server.rs\<close>), waits in a bounded channel, and is written in a batch by \<open>insert_domain\<close> and
  \<open>insert_client\<close> (\<open>db.rs\<close>). A request of the web page goes through the gate of \<open>http_server.rs\<close> to a
  handler of \<open>http_server_api.rs\<close>, which asks the data server, or reads and saves the configuration
  with \<open>config_ui.rs\<close>. The form of the web page is saved as eight pages in a managed directory; a
  managed block in the main configuration file includes them.

  \<^bold>\<open>Shared vocabulary.\<close>
  \<^item> \<^verbatim>\<open>Prelude\<close>: texts as lists of code points, results, lists, and the locales \<open>normaliser\<close> (a rewriting
    into a normal form), \<open>machine\<close> (what each step keeps, a run keeps) and \<open>simulation\<close> (a machine that
    runs as a simpler one).
  \<^item> \<^verbatim>\<open>Effects\<close>: the machine integers and fallible operations on a state, with rules for what
    they keep.
  \<^item> \<^verbatim>\<open>Rust_Str\<close>, \<^verbatim>\<open>Rust_Scan\<close>: the functions of Rust's \<open>str\<close> and \<open>char\<close> the program uses.

  \<^bold>\<open>Configuration\<close> (\<open>config_ui.rs\<close>).
  \<^item> \<^verbatim>\<open>Conf_Lines\<close>: logical lines, directives and options; texts as sequences of directives, and when
    joining pages joins their directives.
  \<^item> \<^verbatim>\<open>Upstreams\<close>, \<^verbatim>\<open>Beginner\<close>: the form (\<open>BeginnerConfig\<close>), its page writers, \<open>parse_beginner_config\<close>,
    validation, recommendations; each written line is read back, grouping upstreams twice is
    grouping them once.
  \<^item> \<^verbatim>\<open>Beginner_Roundtrip\<close>, \<^verbatim>\<open>Beginner_Validation\<close>: the reader key by key, the normal form in which a
    form is read back (\<open>reread\<close>), and what is accepted.
  \<^item> \<^verbatim>\<open>Managed_Assets\<close>: rules, sets and groups of the form, their pages, and what reading these
    gives (\<open>kept_assets\<close>).
  \<^item> \<^verbatim>\<open>Managed_Block\<close>: paths, \<open>ensure_managed_block\<close> and the effective preview.
  \<^item> \<^verbatim>\<open>Files\<close>: the file operations and the save with backup (\<open>write_text_with_backup_if_changed\<close>) on a
    file system whose calls may fail; the laws of the file system are the locale \<open>text_store\<close>.
  \<^item> \<^verbatim>\<open>Config_Sources\<close>, \<^verbatim>\<open>Rule_Assets\<close>: the files reached by includes, and the rules, groups and rule
    set files found in them, with paging and editing of a set.
  \<^item> \<^verbatim>\<open>Config_Store\<close>, \<^verbatim>\<open>Config_Roundtrip\<close>: \<open>save_beginner_config\<close>, \<open>save_managed_assets\<close>,
    \<open>read_overview\<close>; what the overview shows after a save.

  \<^bold>\<open>Data.\<close>
  \<^item> \<^verbatim>\<open>Db_Query\<close>, \<^verbatim>\<open>Db_Store\<close> (\<open>db.rs\<close>): the SQL conditions and pages of the lists, the tables and every
    operation on them. Lists are an instance of the locale \<open>keyset_pages\<close> (pages around a cursor in
    an ordered table), the two key/value tables of \<open>kv_table\<close>, the client table of \<open>simulation\<close>.
    \<open>db_step\<close> is the step relation of the operations.
  \<^item> \<^verbatim>\<open>Data_Stats\<close> (\<open>data_stats.rs\<close>), \<^verbatim>\<open>Whois\<close> (\<open>whois.rs\<close>), \<^verbatim>\<open>Utils\<close> (\<open>utils.rs\<close>).
  \<^item> \<^verbatim>\<open>Smartdns_Types\<close>, \<^verbatim>\<open>Smartdns_Objects\<close> (\<open>smartdns.rs\<close>, \<open>data_upstream_server.rs\<close>): enumerations, and
    the counted references of the C library as handles.
  \<^item> \<^verbatim>\<open>Server_Data\<close>, \<^verbatim>\<open>Data_Server\<close> (\<open>data_server.rs\<close>): the queue, the batches, clients that wait for
    their hardware address, the disk check and the shutdown, one \<open>server_event\<close> for each turn of the
    loop.

  \<^bold>\<open>The interface.\<close>
  \<^item> \<^verbatim>\<open>Json\<close>, \<^verbatim>\<open>Api_Msg\<close> (\<open>http_api_msg.rs\<close>): every message, written and read.
  \<^item> \<^verbatim>\<open>Http_Server\<close> (\<open>http_server.rs\<close>, \<open>http_jwt.rs\<close>, \<open>http_error.rs\<close>): settings, tokens, the limit on
    log-ins, the gate, the pages. \<^verbatim>\<open>Http_Listener\<close>: the address and certificate, the accept loop.
  \<^item> \<^verbatim>\<open>Http_Api\<close>, \<^verbatim>\<open>Http_Api_Safety\<close> (\<open>http_server_api.rs\<close>): the 46 routes with their handlers, and what
    holds of every request whatever route it takes.
  \<^item> \<^verbatim>\<open>Http_Config\<close>: a form saved over the interface and the overview served afterwards.
  \<^item> \<^verbatim>\<open>Log_Streams\<close> (\<open>server_log.rs\<close>, \<open>http_server_stream.rs\<close>): channels and sessions of the log, audit,
    metrics and terminal streams.
  \<^item> \<^verbatim>\<open>Plugin\<close> (\<open>plugin.rs\<close>, \<open>lib.rs\<close>): arguments, both loads of the settings, start and stop of the two
    servers, the callbacks of the DNS server.

  \<^bold>\<open>What is proved.\<close> For the configuration: a saved form is served again (on any file
  system, whatever operations fail, once the requests report success), saving what was read changes nothing,
  no save loses a text, rule sets and rule pages are read back, collecting the sources ends on every
  file system. For the data: recording is atomic, accepted queries are recorded once and in order, no
  client is forgotten, the tables stay well formed through every sequence of operations and of
  requests, cursors page through the requested order, the client table implements a map, counts and
  buckets are exact within their widths. For the interface: without a valid token a request changes
  nothing but the count of log-in attempts; a log-in gives a token that opens the gate, a new
  password revokes all tokens; attempts are limited; pages stay below the web root; statuses are
  known. For the plugin: the servers run only while it is started. Some theorems state
  where the code does not do what it means to: settings that give away the signing secret,
  a password change that is half done, referral cycles, a stored log age that has no effect,
  a data server that does not start twice.
\<close>

text \<open>
  \<^bold>\<open>How the code is modelled.\<close>
  \<^item> A \<open>String\<close> or \<open>&str\<close> is a list of code points (\<open>ustr\<close>), integers are words of their width with
    wrapping arithmetic (a debug build panics where a release build wraps), a \<open>f64\<close> is its bits.
    \<open>Result\<close> is \<open>result\<close>, a sum with the error on the left; a panic is a value of its own or \<open>None\<close>.
  \<^item> Stateful code passes its state. \<open>'a io\<close> is a function on \<open>file_system\<close>, \<open>'a db_act\<close> on \<open>db\<close>,
    \<open>'a api_act\<close> on the state of the HTTP server, \<open>'a plugin_act\<close> on the plugin.
  \<^item> Every call that can fail takes its outcome from the state: a file system operation from
    the faults of the file system, a call of SQLite from \<open>db_calls\<close>; theorems hold for all
    outcomes. An SQL statement is its meaning on the rows. The text of a list statement and its
    parameters are modelled as well, and a theorem counts its placeholders.
  \<^item> Clocks, the local time offset, the free disk space and the answers of the C library are
    arguments.
  \<^item> A \<open>HashMap\<close> is an association list or a map; where its iteration order can be seen, theorems hold
    for every order of the list.
  \<^item> Tasks are functions of the events their \<open>select!\<close> takes, in any order.
  \<^item> Parameters that stand for other packages: \<open>json_lib\<close> (\<open>serde_json\<close>: number conversion, printing,
    parsing), \<open>http_lib\<close> (tokens, password hashes, URL coding), \<open>listen_lib\<close> (URLs, PEM,
    TLS, sockets), \<open>plugin_env\<close> (\<open>getopts\<close>, the configuration of the DNS server), \<open>password_lib\<close>, the path matching
    of the router, the TCP exchange of WHOIS, Unicode lower case. Laws these follow are
    hypotheses of the theorems that need them, each met by a witness.

  \<^bold>\<open>Loops and fuel.\<close> \<open>collect\<close> (\<^verbatim>\<open>Config_Sources\<close>) follows includes with fuel; it is proved that
  the number of pairs of a reachable file and a group bounds the depth, so the fuel
  \<open>include_fuel\<close> that \<open>collect_config_sources\<close> passes is enough on every file system. The WHOIS loop
  is a \<open>partial_function (option)\<close>: it returns when the referrals go down some order of the servers, and a cycle of two servers is \<open>None\<close>. All other recursion is total.

  \<^bold>\<open>Not modelled.\<close> Sockets, TLS records, HTTP framing, WebSocket framing, \<open>forkpty\<close> and processes are
  library and system code; the model has their outcomes. The arithmetic of floating point is a
  parameter. In \<open>smartdns.rs\<close> the functions that only call the C library are left out (what they
  return is an argument where it is used), in \<open>db.rs\<close> the printing of query plans (debugging), in
  \<open>data_server.rs\<close> and \<open>data_stats.rs\<close> the getters that only delegate. Interleavings inside one
  handler are not modelled: a handler runs as one step on the state, except where it
  awaits a stream. \<open>build.rs\<close>, \<open>tests/\<close>, the web page and the C headers are build glue,
  tests, assets and declarations.
\<close>

end
